(* ===== verification/Ame_Prelude.thy ===== *)
theory Ame_Prelude
  imports Main "HOL-Library.Word" "HOL-Library.Code_Target_Nat"
begin

text \<open>
  The vocabulary every component theory shares: machine integers, byte strings, results in the
  style of Rust's \<open>Result\<close> and \<open>?\<close>, state-passing actions for methods that take
  \<open>&mut self\<close>, little-endian integer encodings, and the collections of rewrite rules the
  component proofs use.

  Unsigned integers of \<open>w\<close> bits are \<open>w word\<close>. A signed 64-bit integer is a
  \<open>64 word\<close> that is always read through \<open>sint\<close>. A \<open>usize\<close> is a natural number;
  where the code checks for overflow, the bound \<open>2 ^ 64\<close> of the supported x64 target is
  written out.
\<close>

unbundle bit_operations_syntax

named_theorems action_simps \<open>unfolding rules of results and actions\<close>
named_theorems wire_validate \<open>unfolding rules of the validators of the broker protocol\<close>
named_theorems wire_limits \<open>numeric limits of the broker protocol\<close>

type_synonym u8 = "8 word"
type_synonym u16 = "16 word"
type_synonym u32 = "32 word"
type_synonym u64 = "64 word"
type_synonym i64 = "64 word"

type_synonym bytes = "u8 list"

text \<open>A Rust \<open>str\<close> or \<open>String\<close>: its UTF-8 bytes.\<close>

type_synonym str = "u8 list"

section \<open>Results and actions\<close>

type_synonym ('e, 'a) result = "'e + 'a"

text \<open>The \<open>?\<close> operator: stop at an error, otherwise continue with the value.\<close>

definition bind_result :: "('e, 'a) result \<Rightarrow> ('a \<Rightarrow> ('e, 'b) result) \<Rightarrow> ('e, 'b) result" where
  "bind_result r f = (case r of Inl e \<Rightarrow> Inl e | Inr a \<Rightarrow> f a)"

definition map_err :: "('e \<Rightarrow> 'f) \<Rightarrow> ('e, 'a) result \<Rightarrow> ('f, 'a) result" where
  "map_err g r = (case r of Inl e \<Rightarrow> Inl (g e) | Inr a \<Rightarrow> Inr a)"

definition ok_or :: "'a option \<Rightarrow> 'e \<Rightarrow> ('e, 'a) result" where
  "ok_or v e = (case v of None \<Rightarrow> Inl e | Some a \<Rightarrow> Inr a)"

text \<open>The condition on a value that may be absent.\<close>

fun all_some :: "('a \<Rightarrow> bool) \<Rightarrow> 'a option \<Rightarrow> bool" where
  "all_some P None \<longleftrightarrow> True"
| "all_some P (Some a) \<longleftrightarrow> P a"

text \<open>A \<open>for\<close> loop over validated elements, and one that also carries mutable state.\<close>

fun each_result :: "('a \<Rightarrow> ('e, unit) result) \<Rightarrow> 'a list \<Rightarrow> ('e, unit) result" where
  "each_result f [] = Inr ()"
| "each_result f (x # xs) = bind_result (f x) (\<lambda>_. each_result f xs)"

fun fold_result :: "('a \<Rightarrow> 's \<Rightarrow> ('e, 's) result) \<Rightarrow> 'a list \<Rightarrow> 's \<Rightarrow> ('e, 's) result" where
  "fold_result f [] s = Inr s"
| "fold_result f (x # xs) s = bind_result (f x s) (fold_result f xs)"

lemma all_some_True [simp]: "all_some (\<lambda>_. True) v"
  by (cases v) simp_all

lemma bind_result_simps [simp]:
  "bind_result (Inl e) f = Inl e"
  "bind_result (Inr a) f = f a"
  by (simp_all add: bind_result_def)

lemma bind_result_eq_Inr [action_simps]:
  "bind_result r f = Inr b \<longleftrightarrow> (\<exists>a. r = Inr a \<and> f a = Inr b)"
  by (auto simp: bind_result_def split: sum.splits)

lemma bind_result_eq_Inl [action_simps]:
  "bind_result r f = Inl e \<longleftrightarrow> r = Inl e \<or> (\<exists>a. r = Inr a \<and> f a = Inl e)"
  by (auto simp: bind_result_def split: sum.splits)

lemma map_err_simps [simp]:
  "map_err g (Inl e) = Inl (g e)"
  "map_err g (Inr a) = Inr a"
  by (simp_all add: map_err_def)

lemma map_err_eq_Inr [action_simps]: "map_err g r = Inr a \<longleftrightarrow> r = Inr a"
  by (auto simp: map_err_def split: sum.splits)

lemma ok_or_simps [simp]:
  "ok_or None e = Inl e"
  "ok_or (Some a) e = Inr a"
  by (simp_all add: ok_or_def)

lemma ok_or_eq_Inr [action_simps]: "ok_or v e = Inr a \<longleftrightarrow> v = Some a"
  by (auto simp: ok_or_def split: option.splits)

lemma each_result_eq_Inr [action_simps]:
  "each_result f xs = Inr () \<longleftrightarrow> (\<forall>x \<in> set xs. f x = Inr ())"
  by (induction xs) (auto simp: bind_result_eq_Inr)

lemma fold_result_append:
  "fold_result f (xs @ ys) s = bind_result (fold_result f xs s) (fold_result f ys)"
proof (induction xs arbitrary: s)
  case Nil
  then show ?case by simp
next
  case (Cons x xs)
  then show ?case by (cases "f x s") simp_all
qed

text \<open>A loop that checks its elements and that no key occurs twice, like \<open>set.insert(key)\<close>.\<close>

lemma fold_result_distinct:
  assumes "\<And>x S S'. step x S = Inr S' \<longleftrightarrow> ok x \<and> key x \<notin> S \<and> S' = insert (key x) S"
  shows "fold_result step xs S = Inr S' \<longleftrightarrow>
    (\<forall>x \<in> set xs. ok x) \<and> distinct (map key xs) \<and> key ` set xs \<inter> S = {} \<and> S' = key ` set xs \<union> S"
  by (induction xs arbitrary: S) (auto simp: bind_result_eq_Inr assms)

text \<open>
  A method on \<open>&mut self\<close>: it takes the state and gives the result with the new state. After an
  error the caller of every action below propagates it with \<open>?\<close> and drops the state.
\<close>

type_synonym ('s, 'e, 'a) action = "'s \<Rightarrow> ('e, 'a \<times> 's) result"

definition bind_action ::
    "('s, 'e, 'a) action \<Rightarrow> ('a \<Rightarrow> ('s, 'e, 'b) action) \<Rightarrow> ('s, 'e, 'b) action" where
  "bind_action m f = (\<lambda>s. bind_result (m s) (\<lambda>(a, s'). f a s'))"

definition return_action :: "'a \<Rightarrow> ('s, 'e, 'a) action" where
  "return_action a = (\<lambda>s. Inr (a, s))"

definition fail_action :: "'e \<Rightarrow> ('s, 'e, 'a) action" where
  "fail_action e = (\<lambda>s. Inl e)"

definition lift_result :: "('e, 'a) result \<Rightarrow> ('s, 'e, 'a) action" where
  "lift_result r = (\<lambda>s. bind_result r (\<lambda>a. Inr (a, s)))"

definition guard_action :: "bool \<Rightarrow> 'e \<Rightarrow> ('s, 'e, unit) action" where
  "guard_action b e = (if b then return_action () else fail_action e)"

text \<open>Loops over actions: one per element, and a fixed number of repetitions.\<close>

fun each_action :: "('a \<Rightarrow> ('s, 'e, unit) action) \<Rightarrow> 'a list \<Rightarrow> ('s, 'e, unit) action" where
  "each_action f [] = return_action ()"
| "each_action f (x # xs) = bind_action (f x) (\<lambda>_. each_action f xs)"

fun repeat_action :: "nat \<Rightarrow> ('s, 'e, 'a) action \<Rightarrow> ('s, 'e, 'a list) action" where
  "repeat_action 0 m = return_action []"
| "repeat_action (Suc n) m =
     bind_action m (\<lambda>x. bind_action (repeat_action n m) (\<lambda>xs. return_action (x # xs)))"

lemma bind_action_apply [action_simps]:
  "bind_action m f s = bind_result (m s) (\<lambda>(a, s'). f a s')"
  by (simp add: bind_action_def)

lemma action_apply [simp]:
  "return_action a s = Inr (a, s)"
  "fail_action e s = Inl e"
  "lift_result r s = bind_result r (\<lambda>a. Inr (a, s))"
  by (simp_all add: return_action_def fail_action_def lift_result_def)

lemma guard_action_apply [simp]:
  "guard_action b e s = (if b then Inr ((), s) else Inl e)"
  by (simp add: guard_action_def)

lemma bind_action_eq_Inr:
  "bind_action m f s = Inr (b, t) \<longleftrightarrow> (\<exists>a s'. m s = Inr (a, s') \<and> f a s' = Inr (b, t))"
  by (auto simp: bind_action_def bind_result_eq_Inr)

lemma bind_action_InrE:
  assumes "bind_action m f s = Inr (b, t)"
  obtains a s' where "m s = Inr (a, s')" and "f a s' = Inr (b, t)"
  using assms by (auto simp: bind_action_eq_Inr)

section \<open>Signed integers\<close>

lemma sint_eq_iff [simp]: "sint a = sint b \<longleftrightarrow> a = b"
  by (auto intro: signed_word_eqI)

lemma sint_le_neq_less: "sint a \<le> sint b \<Longrightarrow> a \<noteq> b \<Longrightarrow> sint a < sint b"
  by (simp add: order.strict_iff_order)

section \<open>Checked arithmetic on usize\<close>

definition usize_max :: nat where
  "usize_max = 2 ^ 64 - 1"

definition checked_add :: "nat \<Rightarrow> nat \<Rightarrow> nat option" where
  "checked_add a b = (if a + b < 2 ^ 64 then Some (a + b) else None)"

definition checked_mul :: "nat \<Rightarrow> nat \<Rightarrow> nat option" where
  "checked_mul a b = (if a * b < 2 ^ 64 then Some (a * b) else None)"

lemma checked_add_Some [simp]: "checked_add a b = Some c \<longleftrightarrow> c = a + b \<and> a + b < 2 ^ 64"
  by (auto simp: checked_add_def)

lemma checked_mul_Some [simp]: "checked_mul a b = Some c \<longleftrightarrow> c = a * b \<and> a * b < 2 ^ 64"
  by (auto simp: checked_mul_def)

text \<open>\<open>slice.get(i..j)\<close>: the bytes from \<open>i\<close> up to \<open>j\<close>, \<open>None\<close> out of range.\<close>

definition slice_get :: "'a list \<Rightarrow> nat \<Rightarrow> nat \<Rightarrow> 'a list option" where
  "slice_get xs i j = (if i \<le> j \<and> j \<le> length xs then Some (take (j - i) (drop i xs)) else None)"

lemma slice_get_SomeD:
  assumes "slice_get xs i j = Some ys"
  shows "i \<le> j" and "j \<le> length xs" and "length ys = j - i"
    and "xs = take i xs @ ys @ drop j xs"
proof -
  from assms have ij: "i \<le> j" "j \<le> length xs" and ys: "ys = take (j - i) (drop i xs)"
    by (auto simp: slice_get_def split: if_splits)
  from ij show "i \<le> j" "j \<le> length xs" by simp_all
  from ij ys show "length ys = j - i" by simp
  have "drop j xs = drop (j - i) (drop i xs)"
    using ij by (simp add: add.commute)
  then show "xs = take i xs @ ys @ drop j xs"
    by (simp add: ys del: drop_drop)
qed

lemma slice_get_append [simp]:
  "slice_get (xs @ ys @ zs) (length xs) (length xs + length ys) = Some ys"
  by (simp add: slice_get_def)

section \<open>Little-endian integers\<close>

text \<open>\<open>to_le_bytes\<close> of an integer of \<open>n\<close> bytes, and \<open>from_le_bytes\<close>.\<close>

definition le_bytes :: "nat \<Rightarrow> 'a::len word \<Rightarrow> bytes" where
  "le_bytes n w = map (\<lambda>i. ucast (drop_bit (8 * i) w)) [0..<n]"

fun from_le_bytes :: "bytes \<Rightarrow> 'a::len word" where
  "from_le_bytes [] = 0"
| "from_le_bytes (b # bs) = ucast b OR push_bit 8 (from_le_bytes bs)"

lemma length_le_bytes [simp]: "length (le_bytes n w) = n"
  by (simp add: le_bytes_def)

lemma bit_from_le_bytes:
  "bit (from_le_bytes bs :: 'a::len word) k \<longleftrightarrow>
     k < LENGTH('a) \<and> k div 8 < length bs \<and> bit (bs ! (k div 8)) (k mod 8)"
proof (induction bs arbitrary: k)
  case Nil
  then show ?case by simp
next
  case (Cons b bs)
  show ?case
  proof (cases "k < 8")
    case True
    then show ?thesis
      by (auto simp: bit_or_iff bit_push_bit_iff bit_ucast_iff)
  next
    case False
    then obtain m where k: "k = m + 8"
      by (metis add.commute le_Suc_ex not_less)
    have "\<not> bit b (m + 8)"
      using bit_imp_le_length [of b "m + 8"] by auto
    moreover have "(m + 8) div 8 = Suc (m div 8)" by simp
    ultimately show ?thesis
      using Cons.IH [of m]
      by (auto simp: k bit_or_iff bit_push_bit_iff bit_ucast_iff)
  qed
qed

lemma from_le_bytes_le_bytes:
  assumes "8 * n = LENGTH('a::len)"
  shows "from_le_bytes (le_bytes n (w :: 'a word)) = w"
proof (rule bit_word_eqI)
  fix k
  assume k: "k < LENGTH('a)"
  then have "k div 8 < n" using assms by (simp add: less_mult_imp_div_less mult.commute)
  moreover have "8 * (k div 8) + k mod 8 = k" by simp
  ultimately show "bit (from_le_bytes (le_bytes n w) :: 'a word) k = bit w k"
    using k by (simp add: bit_from_le_bytes le_bytes_def bit_ucast_iff bit_drop_bit_eq)
qed

lemma le_bytes_from_le_bytes:
  assumes "8 * n = LENGTH('a::len)" and "length bs = n"
  shows "le_bytes n (from_le_bytes bs :: 'a word) = bs"
proof (rule nth_equalityI)
  show "length (le_bytes n (from_le_bytes bs :: 'a word)) = length bs"
    using assms by simp
next
  fix i
  assume "i < length (le_bytes n (from_le_bytes bs :: 'a word))"
  then have i: "i < n" by simp
  show "le_bytes n (from_le_bytes bs :: 'a word) ! i = bs ! i"
  proof (rule bit_word_eqI)
    fix k
    assume "k < LENGTH(8)"
    then have k: "k < 8" by simp
    with i have lt: "8 * i + k < LENGTH('a)" using assms(1) by linarith
    have "(8 * i + k) div 8 = i" "(8 * i + k) mod 8 = k" using k by simp_all
    with lt i k assms(2)
    show "bit (le_bytes n (from_le_bytes bs :: 'a word) ! i) k = bit (bs ! i) k"
      by (simp add: le_bytes_def bit_ucast_iff bit_drop_bit_eq bit_from_le_bytes)
  qed
qed

lemma le_bytes_inject:
  assumes "8 * n = LENGTH('a::len)" and "le_bytes n (v :: 'a word) = le_bytes n w"
  shows "v = w"
  using assms from_le_bytes_le_bytes by metis

end
