(* ===== verification/Broker_Framing.thy ===== *)
theory Broker_Framing
  imports Ame_Prelude
begin

text \<open>
  The outermost layers of the journal broker's pipe protocol: length-prefixed frames
  (\<open>journal_broker/framing.rs\<close>) and the interval arithmetic of a journal read
  (\<open>journal_broker/read_interval.rs\<close>).
\<close>

section \<open>Frames\<close>

definition MAX_FRAME_BYTES :: nat where
  "MAX_FRAME_BYTES = 1024 * 1024"

datatype broker_frame_error = LengthRejected | FrameLengthOverflow | Truncated | FrameTrailingBytes

definition u32_try_from :: "nat \<Rightarrow> u32 option" where
  "u32_try_from n = (if n < 2 ^ 32 then Some (of_nat n) else None)"

definition encode_frame :: "bytes \<Rightarrow> (broker_frame_error, bytes) result" where
  "encode_frame payload =
     (if payload = [] \<or> length payload > MAX_FRAME_BYTES then Inl LengthRejected
      else bind_result (ok_or (u32_try_from (length payload)) FrameLengthOverflow)
        (\<lambda>len. Inr (le_bytes 4 len @ payload)))"

definition decode_frame_length :: "bytes \<Rightarrow> (broker_frame_error, nat) result" where
  "decode_frame_length header =
     (let len = unat (from_le_bytes header :: u32) in
      if len = 0 \<or> len > MAX_FRAME_BYTES then Inl LengthRejected else Inr len)"

definition decode_frame :: "bytes \<Rightarrow> (broker_frame_error, bytes) result" where
  "decode_frame frame =
     bind_result (ok_or (slice_get frame 0 4) Truncated) (\<lambda>length_bytes.
     bind_result (decode_frame_length length_bytes) (\<lambda>len.
     bind_result (ok_or (checked_add 4 len) FrameLengthOverflow) (\<lambda>frame_end.
     bind_result (ok_or (slice_get frame 4 frame_end) Truncated) (\<lambda>payload.
     if frame_end \<noteq> length frame then Inl FrameTrailingBytes else Inr payload))))"

section \<open>Read intervals\<close>

record journal_read_interval =
  iv_start_usn :: i64
  iv_end_usn :: i64

definition read_interval_new :: "i64 \<Rightarrow> i64 \<Rightarrow> journal_read_interval option" where
  "read_interval_new start_usn end_usn =
     (if sint start_usn < 0 \<or> sint end_usn < sint start_usn then None
      else Some \<lparr>iv_start_usn = start_usn, iv_end_usn = end_usn\<rparr>)"

definition interval_is_empty :: "journal_read_interval \<Rightarrow> bool" where
  "interval_is_empty iv \<longleftrightarrow> iv_start_usn iv = iv_end_usn iv"

definition admits_coverage :: "journal_read_interval \<Rightarrow> i64 \<Rightarrow> bool \<Rightarrow> bool" where
  "admits_coverage iv covered_until_usn is_complete =
     (if sint covered_until_usn < sint (iv_start_usn iv)
         \<or> sint (iv_end_usn iv) < sint covered_until_usn then False
      else if interval_is_empty iv then covered_until_usn = iv_end_usn iv \<and> is_complete
      else sint (iv_start_usn iv) < sint covered_until_usn
           \<and> is_complete = (covered_until_usn = iv_end_usn iv))"

section \<open>Properties of frames\<close>

lemma MAX_FRAME_BYTES_u32 [simp]: "n \<le> MAX_FRAME_BYTES \<Longrightarrow> n < 4294967296"
  by (simp add: MAX_FRAME_BYTES_def)

lemma encode_frame_eq_Inr:
  "encode_frame p = Inr f \<longleftrightarrow>
     p \<noteq> [] \<and> length p \<le> MAX_FRAME_BYTES \<and> f = le_bytes 4 (of_nat (length p) :: u32) @ p"
  by (auto simp: encode_frame_def u32_try_from_def not_less)

lemma decode_frame_eq_Inr:
  "decode_frame f = Inr p \<longleftrightarrow>
     (\<exists>h. f = h @ p \<and> length h = 4 \<and> unat (from_le_bytes h :: u32) = length p
          \<and> p \<noteq> [] \<and> length p \<le> MAX_FRAME_BYTES)" (is "?l = ?r")
proof
  assume ?l
  then obtain h len where h: "slice_get f 0 4 = Some h"
    and len: "unat (from_le_bytes h :: u32) = len" "len \<noteq> 0" "len \<le> MAX_FRAME_BYTES"
    and p: "slice_get f 4 (4 + len) = Some p" and frame_end: "4 + len = length f"
    by (auto simp: decode_frame_def decode_frame_length_def action_simps Let_def split: if_splits)
  from slice_get_SomeD [OF p] frame_end have "length p = len" by simp
  moreover from h p frame_end have "f = h @ p" "length h = 4"
    by (auto simp: slice_get_def split: if_splits)
  ultimately show ?r using len by auto
next
  assume ?r
  then obtain h where h: "f = h @ p" "length h = 4" "unat (from_le_bytes h :: u32) = length p"
    and p: "p \<noteq> []" "length p \<le> MAX_FRAME_BYTES" by auto
  moreover have "4 + length p < 2 ^ 64" using p by (simp add: MAX_FRAME_BYTES_def)
  ultimately show ?l
    by (simp add: decode_frame_def decode_frame_length_def slice_get_def checked_add_def)
qed

lemma decode_frame_iff_encode_frame: "decode_frame f = Inr p \<longleftrightarrow> encode_frame p = Inr f"
proof -
  have "h = le_bytes 4 (of_nat (length p) :: u32) \<longleftrightarrow>
      length h = 4 \<and> unat (from_le_bytes h :: u32) = length p"
    if "length p \<le> MAX_FRAME_BYTES" for h
  proof
    assume "h = le_bytes 4 (of_nat (length p) :: u32)"
    with that show "length h = 4 \<and> unat (from_le_bytes h :: u32) = length p"
      by (simp add: from_le_bytes_le_bytes unat_of_nat)
  next
    assume "length h = 4 \<and> unat (from_le_bytes h :: u32) = length p"
    then have "le_bytes 4 (from_le_bytes h :: u32) = h" "unat (of_nat (length p) :: u32) = length p"
      using that by (simp_all add: le_bytes_from_le_bytes unat_of_nat)
    moreover from this \<open>length h = 4 \<and> _\<close> have "(of_nat (length p) :: u32) = from_le_bytes h"
      by (simp add: word_unat_eq_iff)
    ultimately show "h = le_bytes 4 (of_nat (length p) :: u32)" by simp
  qed
  then show ?thesis by (auto simp: decode_frame_eq_Inr encode_frame_eq_Inr)
qed

text \<open>
  C34. The frame codec is exact: a frame decodes to a payload if and only if it is the frame the
  encoder produces for that payload. So every encoded payload is read back unchanged, and no
  other byte string (truncated, with trailing bytes, with an oversized or zero length) decodes.
\<close>

theorem frame_codec_exact: "decode_frame f = Inr p \<longleftrightarrow> encode_frame p = Inr f"
  by (rule decode_frame_iff_encode_frame)

text \<open>
  C35. Frames on a stream are self-delimiting: when two byte streams that start with encoded
  frames are equal, the first frames carry the same payload and the rests agree.
\<close>

theorem frames_self_delimiting:
  assumes "encode_frame p = Inr f" and "encode_frame q = Inr g" and "f @ r = g @ s"
  shows "p = q \<and> r = s"
proof -
  from assms(1,2) have f: "f = le_bytes 4 (of_nat (length p) :: u32) @ p" "length p \<le> MAX_FRAME_BYTES"
    and g: "g = le_bytes 4 (of_nat (length q) :: u32) @ q" "length q \<le> MAX_FRAME_BYTES"
    by (auto simp: encode_frame_eq_Inr)
  with assms(3) have "le_bytes 4 (of_nat (length p) :: u32) = le_bytes 4 (of_nat (length q) :: u32)"
    and pq: "p @ r = q @ s" by simp_all
  then have "(of_nat (length p) :: u32) = of_nat (length q)"
    by (intro le_bytes_inject [of 4]) simp_all
  then have "unat (of_nat (length p) :: u32) = unat (of_nat (length q) :: u32)" by simp
  then have "length p = length q" using f(2) g(2) by (simp add: unat_of_nat)
  with pq show ?thesis by simp
qed

theorem frames_self_delimiting_witness:
  "encode_frame [7, 8] = Inr [2, 0, 0, 0, 7, 8] \<and>
   ([7, 8] = ([7, 8] :: bytes) \<and> [1] = ([1] :: bytes))"
proof -
  have e: "encode_frame [7, 8] = Inr [2, 0, 0, 0, 7, 8]" by code_simp
  show ?thesis using e frames_self_delimiting [OF e e, of "[1]" "[1]"] by simp
qed

section \<open>Properties of read intervals\<close>

text \<open>
  Reading an interval page by page: every page is admitted for what is left of the interval, and
  the next page starts where an incomplete one stopped.
\<close>

fun pages_admitted :: "i64 \<Rightarrow> i64 \<Rightarrow> (i64 \<times> bool) list \<Rightarrow> bool" where
  "pages_admitted start_usn end_usn [] = True"
| "pages_admitted start_usn end_usn ((covered, is_complete) # pages) =
     (case read_interval_new start_usn end_usn of
        None \<Rightarrow> False
      | Some iv \<Rightarrow> admits_coverage iv covered is_complete
          \<and> (if is_complete then pages = [] else pages_admitted covered end_usn pages))"

lemma admits_coverage_iff:
  assumes "read_interval_new s e = Some iv"
  shows "admits_coverage iv c fin \<longleftrightarrow>
     sint s \<le> sint c \<and> sint c \<le> sint e \<and> (c = s \<longrightarrow> s = e) \<and> fin = (c = e)"
  using assms
  by (auto simp: read_interval_new_def admits_coverage_def interval_is_empty_def
      sint_eq_iff [symmetric] simp del: sint_eq_iff split: if_splits)

lemma pages_admitted_length:
  "pages_admitted s e pages \<Longrightarrow> sint s < sint e \<Longrightarrow> int (length pages) \<le> sint e - sint s"
proof (induction s e pages rule: pages_admitted.induct)
  case (1 s e)
  then show ?case by simp
next
  case (2 s e c fin pages)
  then obtain iv where iv: "read_interval_new s e = Some iv" and adm: "admits_coverage iv c fin"
    and rest: "if fin then pages = [] else pages_admitted c e pages"
    by (auto split: option.splits)
  from adm "2.prems" have c: "sint s < sint c" "sint c \<le> sint e" "fin = (c = e)"
    by (auto simp: admits_coverage_iff [OF iv] order.strict_iff_order)
  show ?case
  proof (cases "fin")
    case True
    with rest "2.prems" show ?thesis by simp
  next
    case False
    with c have "sint c < sint e" by (simp add: order.strict_iff_order)
    with 2 iv adm rest False have "int (length pages) \<le> sint e - sint c" by simp
    with c show ?thesis by simp
  qed
qed

text \<open>
  C36. Reading always makes progress and stops: a non-empty interval is read in at most as many
  admitted pages as it has USNs.
\<close>

theorem read_pages_bounded:
  assumes "pages_admitted s e pages" and "sint s < sint e"
  shows "int (length pages) \<le> sint e - sint s"
  using assms by (rule pages_admitted_length)

theorem read_pages_bounded_witness:
  "pages_admitted 10 20 [(15, False), (20, True)] \<and> (2::int) \<le> 20 - 10"
proof -
  have p: "pages_admitted 10 20 [(15, False), (20, True)]" by code_simp
  show ?thesis using p read_pages_bounded [OF p] by simp
qed



end
