(* ===== verification/Rust_Text.thy ===== *)
theory Rust_Text
  imports Ame_Prelude
begin

text \<open>
  The part of Rust's text library the sources use, on strings as UTF-8 byte lists: the strict
  decoder behind \<open>String::from_utf8\<close>, \<open>encode_utf16\<close> and \<open>String::from_utf16\<close>,
  \<open>split\<close> and \<open>join\<close>, \<open>trim\<close>, decimal and hexadecimal printing and parsing of
  integers. Patterns that are single ASCII characters are searched for as bytes, since in UTF-8
  an ASCII byte never occurs inside another character (lemma \<open>ascii_in_chars_iff\<close>).
\<close>

section \<open>Literals and ASCII bytes\<close>

definition lit :: "string \<Rightarrow> str" where
  "lit s = map of_char s"

abbreviation NUL :: u8 where "NUL \<equiv> 0"
abbreviation SPACE :: u8 where "SPACE \<equiv> 0x20"
abbreviation DOT :: u8 where "DOT \<equiv> 0x2E"
abbreviation SLASH :: u8 where "SLASH \<equiv> 0x2F"
abbreviation COLON :: u8 where "COLON \<equiv> 0x3A"
abbreviation BACKSLASH :: u8 where "BACKSLASH \<equiv> 0x5C"

section \<open>UTF-8\<close>

text \<open>
  The well-formed byte sequences of the Unicode standard (table 3-7), which are the ones
  \<open>core::str::from_utf8\<close> accepts: no overlong form, no surrogate, nothing above U+10FFFF.
\<close>

definition utf8_cont :: "u8 \<Rightarrow> bool" where
  "utf8_cont b \<longleftrightarrow> 0x80 \<le> b \<and> b \<le> 0xBF"

definition utf8_lead2 :: "u8 \<Rightarrow> u8 \<Rightarrow> bool" where
  "utf8_lead2 a b \<longleftrightarrow> 0xC2 \<le> a \<and> a \<le> 0xDF \<and> utf8_cont b"

definition utf8_lead3 :: "u8 \<Rightarrow> u8 \<Rightarrow> bool" where
  "utf8_lead3 a b \<longleftrightarrow>
     a = 0xE0 \<and> 0xA0 \<le> b \<and> b \<le> 0xBF
     \<or> 0xE1 \<le> a \<and> a \<le> 0xEC \<and> utf8_cont b
     \<or> a = 0xED \<and> 0x80 \<le> b \<and> b \<le> 0x9F
     \<or> 0xEE \<le> a \<and> a \<le> 0xEF \<and> utf8_cont b"

definition utf8_lead4 :: "u8 \<Rightarrow> u8 \<Rightarrow> bool" where
  "utf8_lead4 a b \<longleftrightarrow>
     a = 0xF0 \<and> 0x90 \<le> b \<and> b \<le> 0xBF
     \<or> 0xF1 \<le> a \<and> a \<le> 0xF3 \<and> utf8_cont b
     \<or> a = 0xF4 \<and> 0x80 \<le> b \<and> b \<le> 0x8F"

text \<open>One character: its code point and the bytes after it.\<close>

definition utf8_step :: "bytes \<Rightarrow> (nat \<times> bytes) option" where
  "utf8_step s = (case s of
     [] \<Rightarrow> None
   | a # r \<Rightarrow>
       if a < 0x80 then Some (unat a, r)
       else (case r of
         [] \<Rightarrow> None
       | b # r1 \<Rightarrow>
           if utf8_lead2 a b then Some ((unat a - 0xC0) * 64 + (unat b - 0x80), r1)
           else (case r1 of
             [] \<Rightarrow> None
           | c # r2 \<Rightarrow>
               if utf8_lead3 a b \<and> utf8_cont c then
                 Some ((unat a - 0xE0) * 4096 + (unat b - 0x80) * 64 + (unat c - 0x80), r2)
               else (case r2 of
                 [] \<Rightarrow> None
               | d # r3 \<Rightarrow>
                   if utf8_lead4 a b \<and> utf8_cont c \<and> utf8_cont d then
                     Some ((unat a - 0xF0) * 262144 + (unat b - 0x80) * 4096
                             + (unat c - 0x80) * 64 + (unat d - 0x80), r3)
                   else None))))"

lemma utf8_step_shorter: "utf8_step s = Some (c, r) \<Longrightarrow> length r < length s"
  by (auto simp: utf8_step_def split: list.splits if_splits)

function utf8_chars :: "bytes \<Rightarrow> nat list option" where
  "utf8_chars s =
     (if s = [] then Some []
      else case utf8_step s of
        None \<Rightarrow> None
      | Some (c, r) \<Rightarrow> map_option (\<lambda>cs. c # cs) (utf8_chars r))"
  by pat_completeness auto
termination
  by (relation "measure length") (auto dest: utf8_step_shorter)

declare utf8_chars.simps [simp del]

definition utf8_valid :: "bytes \<Rightarrow> bool" where
  "utf8_valid s \<longleftrightarrow> utf8_chars s \<noteq> None"

text \<open>\<open>str::chars\<close>; on the well-formed strings Rust guarantees, the decoded code points.\<close>

definition str_chars :: "str \<Rightarrow> nat list" where
  "str_chars s = (case utf8_chars s of None \<Rightarrow> [] | Some cs \<Rightarrow> cs)"

text \<open>The encoder behind \<open>String::push\<close>.\<close>

definition utf8_encode_char :: "nat \<Rightarrow> bytes" where
  "utf8_encode_char c =
     (if c < 0x80 then [of_nat c]
      else if c < 0x800 then [of_nat (0xC0 + c div 64), of_nat (0x80 + c mod 64)]
      else if c < 0x10000 then
        [of_nat (0xE0 + c div 4096), of_nat (0x80 + c div 64 mod 64), of_nat (0x80 + c mod 64)]
      else
        [of_nat (0xF0 + c div 262144), of_nat (0x80 + c div 4096 mod 64),
         of_nat (0x80 + c div 64 mod 64), of_nat (0x80 + c mod 64)])"

definition utf8_encode :: "nat list \<Rightarrow> bytes" where
  "utf8_encode cs = concat (map utf8_encode_char cs)"

text \<open>Unicode scalar values, the values of Rust's \<open>char\<close>.\<close>

definition is_scalar :: "nat \<Rightarrow> bool" where
  "is_scalar c \<longleftrightarrow> c < 0xD800 \<or> 0xE000 \<le> c \<and> c < 0x110000"

section \<open>UTF-16\<close>

definition utf16_encode_char :: "nat \<Rightarrow> u16 list" where
  "utf16_encode_char c =
     (if c < 0x10000 then [of_nat c]
      else [of_nat (0xD800 + (c - 0x10000) div 1024), of_nat (0xDC00 + (c - 0x10000) mod 1024)])"

definition encode_utf16 :: "str \<Rightarrow> u16 list" where
  "encode_utf16 s = concat (map utf16_encode_char (str_chars s))"

text \<open>\<open>char::decode_utf16\<close>: surrogates come in pairs, high before low.\<close>

fun utf16_chars :: "u16 list \<Rightarrow> nat list option" where
  "utf16_chars [] = Some []"
| "utf16_chars (u # us) =
     (if u < 0xD800 \<or> 0xDFFF < u then map_option (\<lambda>cs. unat u # cs) (utf16_chars us)
      else if 0xDC00 \<le> u then None
      else (case us of
        [] \<Rightarrow> None
      | v # vs \<Rightarrow>
          if 0xDC00 \<le> v \<and> v \<le> 0xDFFF then
            map_option (\<lambda>cs. (0x10000 + (unat u - 0xD800) * 1024 + (unat v - 0xDC00)) # cs)
              (utf16_chars vs)
          else None))"

definition from_utf16 :: "u16 list \<Rightarrow> str option" where
  "from_utf16 us = map_option utf8_encode (utf16_chars us)"

section \<open>Searching, splitting and joining\<close>

text \<open>\<open>str::split\<close> on one ASCII character: always at least one piece.\<close>

fun split_on :: "'a \<Rightarrow> 'a list \<Rightarrow> 'a list list" where
  "split_on c [] = [[]]"
| "split_on c (x # xs) =
     (if x = c then [] # split_on c xs
      else (case split_on c xs of [] \<Rightarrow> [[x]] | p # ps \<Rightarrow> (x # p) # ps))"

fun join_with :: "'a \<Rightarrow> 'a list list \<Rightarrow> 'a list" where
  "join_with c [] = []"
| "join_with c [p] = p"
| "join_with c (p # q # ps) = p @ c # join_with c (q # ps)"

text \<open>\<open>char::is_whitespace\<close> (the Unicode White\_Space property) and \<open>s.trim().is_empty()\<close>.\<close>

definition is_whitespace :: "nat \<Rightarrow> bool" where
  "is_whitespace c \<longleftrightarrow>
     0x09 \<le> c \<and> c \<le> 0x0D \<or> c = 0x20 \<or> c = 0x85 \<or> c = 0xA0 \<or> c = 0x1680
     \<or> 0x2000 \<le> c \<and> c \<le> 0x200A \<or> c = 0x2028 \<or> c = 0x2029 \<or> c = 0x202F \<or> c = 0x205F
     \<or> c = 0x3000"

definition trim_is_empty :: "str \<Rightarrow> bool" where
  "trim_is_empty s \<longleftrightarrow> list_all is_whitespace (str_chars s)"

definition ends_with :: "'a list \<Rightarrow> 'a \<Rightarrow> bool" where
  "ends_with s c \<longleftrightarrow> s \<noteq> [] \<and> last s = c"

definition starts_with :: "'a list \<Rightarrow> 'a list \<Rightarrow> bool" where
  "starts_with s p \<longleftrightarrow> take (length p) s = p"

section \<open>Decimal and hexadecimal integers\<close>

fun dec_nat :: "nat \<Rightarrow> str" where
  "dec_nat n = (if n < 10 then [of_nat (48 + n)] else dec_nat (n div 10) @ [of_nat (48 + n mod 10)])"

declare dec_nat.simps [simp del]

definition u64_to_string :: "u64 \<Rightarrow> str" where
  "u64_to_string v = dec_nat (unat v)"

definition i64_to_string :: "i64 \<Rightarrow> str" where
  "i64_to_string v =
     (if sint v < 0 then 0x2D # dec_nat (nat (- sint v)) else dec_nat (nat (sint v)))"

definition is_digit :: "u8 \<Rightarrow> bool" where
  "is_digit b \<longleftrightarrow> 48 \<le> b \<and> b \<le> 57"

text \<open>
  The digits of \<open>from_str_radix\<close> with radix ten. Rust stops at the first overflow; the value only
  grows with more digits, so comparing the final value with the limit is the same check.
\<close>

fun parse_digits :: "nat \<Rightarrow> str \<Rightarrow> nat option" where
  "parse_digits acc [] = Some acc"
| "parse_digits acc (b # bs) =
     (if is_digit b then parse_digits (acc * 10 + (unat b - 48)) bs else None)"

text \<open>\<open>str::parse::<u64>\<close>: an optional plus sign, at least one digit, no overflow.\<close>

definition parse_u64 :: "str \<Rightarrow> u64 option" where
  "parse_u64 s =
     (let ds = (case s of [] \<Rightarrow> [] | b # bs \<Rightarrow> if b = 0x2B then bs else s) in
      if ds = [] then None
      else case parse_digits 0 ds of
        None \<Rightarrow> None
      | Some n \<Rightarrow> if n < 2 ^ 64 then Some (of_nat n) else None)"

text \<open>\<open>str::parse::<i64>\<close>: a sign may be plus or minus.\<close>

definition parse_i64 :: "str \<Rightarrow> i64 option" where
  "parse_i64 s = (case s of
     [] \<Rightarrow> None
   | b # bs \<Rightarrow>
       let ds = (if b = 0x2B \<or> b = 0x2D then bs else s) in
       if ds = [] then None
       else (case parse_digits 0 ds of
         None \<Rightarrow> None
       | Some n \<Rightarrow>
           if b = 0x2D then (if n \<le> 2 ^ 63 then Some (- of_nat n) else None)
           else if n < 2 ^ 63 then Some (of_nat n) else None))"

text \<open>Formatting a byte with \<open>{:02x}\<close> and \<open>u8::from_str_radix(_, 16)\<close> on two characters.\<close>

definition hex_digit :: "nat \<Rightarrow> u8" where
  "hex_digit n = (if n < 10 then of_nat (48 + n) else of_nat (87 + n))"

definition hex_byte :: "u8 \<Rightarrow> str" where
  "hex_byte b = [hex_digit (unat b div 16), hex_digit (unat b mod 16)]"

definition hex_value :: "u8 \<Rightarrow> nat option" where
  "hex_value b =
     (if is_digit b then Some (unat b - 48)
      else if 0x61 \<le> b \<and> b \<le> 0x66 then Some (unat b - 87)
      else if 0x41 \<le> b \<and> b \<le> 0x46 then Some (unat b - 55)
      else None)"

definition parse_hex_pair :: "u8 \<Rightarrow> u8 \<Rightarrow> u8 option" where
  "parse_hex_pair a b =
     (if a = 0x2B then map_option of_nat (hex_value b)
      else case hex_value a of
        None \<Rightarrow> None
      | Some h \<Rightarrow> map_option (\<lambda>l. of_nat (16 * h + l)) (hex_value b))"

section \<open>Facts about UTF-8\<close>

lemma utf8_chars_Nil [simp]: "utf8_chars [] = Some []"
  by (simp add: utf8_chars.simps)

lemma utf8_chars_step:
  "utf8_step s = Some (c, r) \<Longrightarrow> utf8_chars s = map_option (\<lambda>cs. c # cs) (utf8_chars r)"
  by (subst utf8_chars.simps) (auto simp: utf8_step_def)

lemma utf8_chars_Cons_eq_Some:
  "s \<noteq> [] \<Longrightarrow> utf8_chars s = Some cs \<longleftrightarrow>
     (\<exists>c r ds. utf8_step s = Some (c, r) \<and> utf8_chars r = Some ds \<and> cs = c # ds)"
  by (subst utf8_chars.simps) (auto split: option.splits)

text \<open>Induction over the characters of a well-formed string.\<close>

lemma utf8_chars_induct [consumes 1, case_names Nil Step]:
  assumes "utf8_chars s = Some cs"
    and "P [] []"
    and "\<And>s c r cs. utf8_step s = Some (c, r) \<Longrightarrow> utf8_chars r = Some cs \<Longrightarrow> P r cs \<Longrightarrow> P s (c # cs)"
  shows "P s cs"
  using assms(1)
proof (induction "length s" arbitrary: s cs rule: less_induct)
  case less
  show ?case
  proof (cases "s = []")
    case True
    then show ?thesis using less.prems assms(2) by simp
  next
    case False
    then obtain c r ds where st: "utf8_step s = Some (c, r)" and ds: "utf8_chars r = Some ds"
      and cs: "cs = c # ds"
      using less.prems by (auto simp: utf8_chars_Cons_eq_Some)
    have "P r ds" using less.hyps [OF utf8_step_shorter [OF st] ds] .
    with st ds cs show ?thesis using assms(3) by simp
  qed
qed

lemma utf8_step_append: "utf8_step s = Some (c, r) \<Longrightarrow> utf8_step (s @ t) = Some (c, r @ t)"
  by (auto simp: utf8_step_def split: list.splits if_splits)

lemma utf8_chars_append:
  assumes "utf8_chars s = Some cs" and "utf8_chars t = Some ds"
  shows "utf8_chars (s @ t) = Some (cs @ ds)"
  using assms(1)
proof (induction rule: utf8_chars_induct)
  case Nil
  then show ?case by (simp add: assms(2))
next
  case (Step s c r cs)
  then show ?case by (simp add: utf8_chars_step [OF utf8_step_append])
qed

lemma utf8_valid_append [simp, intro]: "utf8_valid s \<Longrightarrow> utf8_valid t \<Longrightarrow> utf8_valid (s @ t)"
  by (auto simp: utf8_valid_def utf8_chars_append)

lemma utf8_valid_Nil [simp]: "utf8_valid []"
  by (simp add: utf8_valid_def)

lemma utf8_chars_ascii: "list_all (\<lambda>b. b < 0x80) s \<Longrightarrow> utf8_chars s = Some (map unat s)"
  by (induction s) (auto simp: utf8_chars_step [of _ "unat _"] utf8_step_def)

lemma utf8_valid_ascii: "list_all (\<lambda>b. b < 0x80) s \<Longrightarrow> utf8_valid s"
  by (simp add: utf8_valid_def utf8_chars_ascii)

lemma utf8_valid_ascii_Cons [simp]: "b < 0x80 \<Longrightarrow> utf8_valid (b # s) \<longleftrightarrow> utf8_valid s"
  by (simp add: utf8_valid_def utf8_chars_step [of _ "unat _"] utf8_step_def)

text \<open>The four shapes of an encoded character, with every byte read as a number.\<close>

lemma utf8_step_cases:
  assumes "utf8_step s = Some (c, r)"
  obtains
    (one) a where "s = a # r" "unat a < 128" "c = unat a"
  | (two) a b where "s = [a, b] @ r" "194 \<le> unat a" "unat a \<le> 223" "128 \<le> unat b" "unat b \<le> 191"
      "c = (unat a - 192) * 64 + (unat b - 128)"
  | (three) a b d where "s = [a, b, d] @ r" "224 \<le> unat a" "unat a \<le> 239"
      "128 \<le> unat b" "unat b \<le> 191" "128 \<le> unat d" "unat d \<le> 191"
      "unat a = 224 \<longrightarrow> 160 \<le> unat b" "unat a = 237 \<longrightarrow> unat b \<le> 159"
      "c = (unat a - 224) * 4096 + (unat b - 128) * 64 + (unat d - 128)"
  | (four) a b d e where "s = [a, b, d, e] @ r" "240 \<le> unat a" "unat a \<le> 244"
      "128 \<le> unat b" "unat b \<le> 191" "128 \<le> unat d" "unat d \<le> 191"
      "128 \<le> unat e" "unat e \<le> 191"
      "unat a = 240 \<longrightarrow> 144 \<le> unat b" "unat a = 244 \<longrightarrow> unat b \<le> 143"
      "c = (unat a - 240) * 262144 + (unat b - 128) * 4096 + (unat d - 128) * 64 + (unat e - 128)"
proof -
  note to_nat = word_le_nat_alt word_less_nat_alt word_unat_eq_iff
  from assms obtain a t where s: "s = a # t"
    by (cases s) (auto simp: utf8_step_def)
  show thesis
  proof (cases "a < 0x80")
    case True
    with assms s show ?thesis by (intro one [of a]) (simp_all add: utf8_step_def to_nat)
  next
    case ge: False
    with assms s obtain b t1 where t: "t = b # t1"
      by (cases t) (auto simp: utf8_step_def)
    show ?thesis
    proof (cases "utf8_lead2 a b")
      case True
      with assms s t ge show ?thesis
        by (intro two [of a b]) (simp_all add: utf8_step_def utf8_lead2_def utf8_cont_def to_nat)
    next
      case no2: False
      with assms s t ge obtain d t2 where t1: "t1 = d # t2"
        by (cases t1) (auto simp: utf8_step_def)
      show ?thesis
      proof (cases "utf8_lead3 a b \<and> utf8_cont d")
        case True
        moreover from this have "s = [a, b, d] @ r"
          "c = (unat a - 224) * 4096 + (unat b - 128) * 64 + (unat d - 128)"
          using assms s t t1 ge no2 by (simp_all add: utf8_step_def)
        ultimately show ?thesis
          by (intro three [of a b d]) (auto simp: utf8_lead3_def utf8_cont_def to_nat)
      next
        case no3: False
        with assms s t t1 ge no2 obtain e t3 where t2: "t2 = e # t3"
          by (cases t2) (auto simp: utf8_step_def)
        with assms s t t1 ge no2 no3 have "utf8_lead4 a b" "utf8_cont d" "utf8_cont e"
          "s = [a, b, d, e] @ r"
          "c = (unat a - 240) * 262144 + (unat b - 128) * 4096 + (unat d - 128) * 64 + (unat e - 128)"
          by (simp_all add: utf8_step_def split: if_splits)
        then show ?thesis
          by (intro four [of a b d e]) (auto simp: utf8_lead4_def utf8_cont_def to_nat)
      qed
    qed
  qed
qed

text \<open>An ASCII byte in a well-formed string is exactly an ASCII character of it.\<close>

lemma utf8_step_ascii:
  assumes "utf8_step s = Some (c, r)" and "b < 0x80"
  shows "b \<in> set s \<longleftrightarrow> c = unat b \<or> b \<in> set r"
proof -
  have eq: "x = y \<longleftrightarrow> unat x = unat y" for x y :: u8 by (simp add: word_unat_eq_iff)
  have b: "unat b < 128" using assms(2) by (simp add: word_less_nat_alt)
  from assms(1) show ?thesis
    by (cases rule: utf8_step_cases) (use b in \<open>auto simp: eq\<close>)
qed

lemma ascii_in_chars_iff:
  assumes "utf8_valid s" and "b < 0x80"
  shows "b \<in> set s \<longleftrightarrow> unat b \<in> set (str_chars s)"
proof -
  from assms(1) obtain cs where cs: "utf8_chars s = Some cs"
    by (auto simp: utf8_valid_def)
  then have "b \<in> set s \<longleftrightarrow> unat b \<in> set cs"
    by (induction rule: utf8_chars_induct) (auto simp: utf8_step_ascii [OF _ assms(2)])
  with cs show ?thesis by (simp add: str_chars_def)
qed

text \<open>A UTF-16 code unit stands for at most three UTF-8 bytes.\<close>

lemma utf8_length_le_utf16: "utf8_valid s \<Longrightarrow> length s \<le> 3 * length (encode_utf16 s)"
proof -
  assume "utf8_valid s"
  then obtain cs where cs: "utf8_chars s = Some cs" by (auto simp: utf8_valid_def)
  then have "length s \<le> 3 * length (concat (map utf16_encode_char cs))"
  proof (induction rule: utf8_chars_induct)
    case Nil
    then show ?case by simp
  next
    case (Step s c r cs)
    have "length s \<le> 3 * length (utf16_encode_char c) + length r"
      using Step.hyps(1)
      by (cases rule: utf8_step_cases) (auto simp: utf16_encode_char_def)
    with Step.IH show ?case by simp
  qed
  with cs show ?thesis by (simp add: encode_utf16_def str_chars_def)
qed

text \<open>Decoding inverts encoding on scalar values.\<close>

lemma unat_of_nat_u8 [simp]: "n < 256 \<Longrightarrow> unat (of_nat n :: u8) = n"
  by (simp add: unat_of_nat)

lemma utf8_step_two:
  assumes "194 \<le> unat a" "unat a \<le> 223" "128 \<le> unat b" "unat b \<le> 191"
  shows "utf8_step (a # b # r) = Some ((unat a - 192) * 64 + (unat b - 128), r)"
  using assms
  by (simp add: utf8_step_def utf8_lead2_def utf8_cont_def word_le_nat_alt word_less_nat_alt)

lemma utf8_step_three:
  assumes "224 \<le> unat a" "unat a \<le> 239" "128 \<le> unat b" "unat b \<le> 191" "128 \<le> unat d" "unat d \<le> 191"
    and "unat a = 224 \<longrightarrow> 160 \<le> unat b" "unat a = 237 \<longrightarrow> unat b \<le> 159"
  shows "utf8_step (a # b # d # r) =
     Some ((unat a - 224) * 4096 + (unat b - 128) * 64 + (unat d - 128), r)"
proof -
  have "utf8_lead3 a b"
    using assms unfolding utf8_lead3_def utf8_cont_def word_le_nat_alt word_unat_eq_iff
    by (cases "unat a = 224"; cases "unat a = 237") auto
  with assms show ?thesis
    by (simp add: utf8_step_def utf8_lead2_def utf8_cont_def word_le_nat_alt word_less_nat_alt)
qed

lemma utf8_step_four:
  assumes "240 \<le> unat a" "unat a \<le> 244" "128 \<le> unat b" "unat b \<le> 191" "128 \<le> unat d" "unat d \<le> 191"
    and "128 \<le> unat e" "unat e \<le> 191"
    and "unat a = 240 \<longrightarrow> 144 \<le> unat b" "unat a = 244 \<longrightarrow> unat b \<le> 143"
  shows "utf8_step (a # b # d # e # r) =
     Some ((unat a - 240) * 262144 + (unat b - 128) * 4096 + (unat d - 128) * 64 + (unat e - 128), r)"
proof -
  have "utf8_lead4 a b"
    using assms unfolding utf8_lead4_def utf8_cont_def word_le_nat_alt word_unat_eq_iff
    by (cases "unat a = 240"; cases "unat a = 244") auto
  moreover have "\<not> utf8_lead3 a b"
    using assms unfolding utf8_lead3_def utf8_cont_def word_le_nat_alt word_unat_eq_iff by auto
  ultimately show ?thesis
    using assms
    by (simp add: utf8_step_def utf8_lead2_def utf8_cont_def word_le_nat_alt word_less_nat_alt)
qed

lemma base64_digits:
  fixes c :: nat
  shows "c = c div 4096 * 4096 + c div 64 mod 64 * 64 + c mod 64"
    and "c = c div 262144 * 262144 + c div 4096 mod 64 * 4096 + c div 64 mod 64 * 64 + c mod 64"
proof -
  have "c div 64 div 64 = c div 4096" "c div 4096 div 64 = c div 262144"
    by (simp_all add: div_mult2_eq [symmetric])
  then show "c = c div 4096 * 4096 + c div 64 mod 64 * 64 + c mod 64"
    and "c = c div 262144 * 262144 + c div 4096 mod 64 * 4096 + c div 64 mod 64 * 64 + c mod 64"
    using div_mult_mod_eq [of c 64] div_mult_mod_eq [of "c div 64" 64]
      div_mult_mod_eq [of "c div 4096" 64] by linarith+
qed

lemma utf8_step_encode:
  assumes "is_scalar c"
  shows "utf8_step (utf8_encode_char c @ r) = Some (c, r)"
proof -
  consider "c < 128" | "128 \<le> c" "c < 2048" | "2048 \<le> c" "c < 65536" | "65536 \<le> c" by linarith
  then show ?thesis
  proof cases
    case 1
    then show ?thesis by (simp add: utf8_step_def utf8_encode_char_def word_less_nat_alt)
  next
    case 2
    then have "c div 64 < 32" "2 \<le> c div 64" by simp_all
    with 2 show ?thesis by (simp add: utf8_encode_char_def utf8_step_two del: of_nat_add)
  next
    case 3
    define x y z where "x = c mod 64" and "y = c div 64 mod 64" and "z = c div 4096"
    have c: "c = z * 4096 + y * 64 + x" and "x < 64" "y < 64"
      using base64_digits(1) [of c] by (simp_all add: x_def y_def z_def)
    from this 3 have z: "z < 16" "z = 0 \<longrightarrow> 32 \<le> y" by arith+
    have "z = 13 \<longrightarrow> y \<le> 31"
      using assms c \<open>x < 64\<close> \<open>y < 64\<close> unfolding is_scalar_def by arith
    moreover have "utf8_encode_char c = [of_nat (224 + z), of_nat (128 + y), of_nat (128 + x)]"
      using 3 by (simp add: utf8_encode_char_def x_def y_def z_def)
    ultimately have "utf8_step (utf8_encode_char c @ r) = Some (z * 4096 + y * 64 + x, r)"
      using z \<open>x < 64\<close> \<open>y < 64\<close> by (simp add: utf8_step_three del: of_nat_add)
    with c show ?thesis by simp
  next
    case 4
    define x y z u
      where "x = c mod 64" and "y = c div 64 mod 64" and "z = c div 4096 mod 64" and "u = c div 262144"
    have c: "c = u * 262144 + z * 4096 + y * 64 + x" and "x < 64" "y < 64" "z < 64"
      using base64_digits(2) [of c] by (simp_all add: x_def y_def z_def u_def)
    moreover have "c < 1114112" using assms 4 by (simp add: is_scalar_def)
    ultimately have "u < 5" "u = 0 \<longrightarrow> 16 \<le> z" "u = 4 \<longrightarrow> z \<le> 15" using 4 by arith+
    moreover have
      "utf8_encode_char c = [of_nat (240 + u), of_nat (128 + z), of_nat (128 + y), of_nat (128 + x)]"
      using 4 by (simp add: utf8_encode_char_def x_def y_def z_def u_def)
    ultimately have
      "utf8_step (utf8_encode_char c @ r) = Some (u * 262144 + z * 4096 + y * 64 + x, r)"
      using \<open>x < 64\<close> \<open>y < 64\<close> \<open>z < 64\<close> by (simp add: utf8_step_four del: of_nat_add)
    with c show ?thesis by simp
  qed
qed

lemma utf8_chars_encode: "list_all is_scalar cs \<Longrightarrow> utf8_chars (utf8_encode cs) = Some cs"
  by (induction cs) (simp_all add: utf8_encode_def utf8_chars_step [OF utf8_step_encode])

lemma utf16_chars_scalar: "utf16_chars us = Some cs \<Longrightarrow> list_all is_scalar cs"
proof (induction us arbitrary: cs rule: utf16_chars.induct)
  case 1
  then show ?case by simp
next
  case (2 u us)
  have "unat u < 65536" using unsigned_less [of u] by simp
  with 2 show ?case
    by (auto split: if_splits list.splits
        simp: is_scalar_def word_less_nat_alt word_le_nat_alt)
qed

lemma from_utf16_valid: "from_utf16 us = Some s \<Longrightarrow> utf8_valid s"
  by (auto simp: from_utf16_def utf8_valid_def dest!: utf16_chars_scalar utf8_chars_encode)

lemma utf16_encode_chars: "utf16_chars us = Some cs \<Longrightarrow> concat (map utf16_encode_char cs) = us"
proof (induction us arbitrary: cs rule: utf16_chars.induct)
  case 1
  then show ?case by simp
next
  case (2 u us)
  show ?case
  proof (cases "u < 0xD800 \<or> 0xDFFF < u")
    case True
    have "unat u < 0x10000" using unsigned_less [of u] by simp
    with True 2 show ?thesis by (auto simp: utf16_encode_char_def)
  next
    case False
    with "2.prems" obtain v vs ds where us: "us = v # vs" and ds: "utf16_chars vs = Some ds"
      and uv: "0xD800 \<le> u" "u < 0xDC00" "0xDC00 \<le> v" "v \<le> 0xDFFF"
      and cs: "cs = (0x10000 + (unat u - 0xD800) * 1024 + (unat v - 0xDC00)) # ds"
      by (auto split: if_splits list.splits)
    from uv have n: "0xD800 \<le> unat u" "unat u < 0xDC00" "0xDC00 \<le> unat v" "unat v \<le> 0xDFFF"
      by (simp_all add: word_le_nat_alt word_less_nat_alt)
    define x where "x = unat u - 0xD800"
    define y where "y = unat v - 0xDC00"
    have xy: "unat u = x + 0xD800" "unat v = y + 0xDC00" "y < 1024" using n by (simp_all add: x_def y_def)
    have e: "of_nat (0xD800 + x) = u" "of_nat (0xDC00 + y) = v"
      using xy by (metis add.commute of_nat_unat ucast_id)+
    have "utf16_encode_char (0x10000 + x * 1024 + y) = [of_nat (0xD800 + x), of_nat (0xDC00 + y)]"
      using xy(3) by (simp add: utf16_encode_char_def del: of_nat_add)
    with e have "utf16_encode_char (0x10000 + x * 1024 + y) = [u, v]" by simp
    moreover have "concat (map utf16_encode_char ds) = vs"
      using "2.IH"(2) [OF False _ us] uv ds by auto
    ultimately show ?thesis using cs us by (simp add: x_def y_def)
  qed
qed

lemma encode_utf16_from_utf16: "from_utf16 us = Some s \<Longrightarrow> encode_utf16 s = us"
  using utf16_chars_scalar utf16_encode_chars
  by (auto simp: from_utf16_def encode_utf16_def str_chars_def utf8_chars_encode)

section \<open>Facts about splitting and joining\<close>

lemma split_on_not_Nil [simp]: "split_on c xs \<noteq> []"
  by (cases xs) (auto split: list.splits)

lemma join_with_Cons: "ps \<noteq> [] \<Longrightarrow> join_with c (p # ps) = p @ c # join_with c ps"
  by (cases ps) simp_all

lemma join_with_Cons_Cons: "join_with c ((x # p) # ps) = x # join_with c (p # ps)"
  by (cases ps) simp_all

lemma join_split [simp]: "join_with c (split_on c xs) = xs"
  by (induction xs) (auto simp: join_with_Cons join_with_Cons_Cons split: list.splits)

lemma split_on_no_sep: "c \<notin> set xs \<Longrightarrow> split_on c xs = [xs]"
  by (induction xs) auto

lemma split_on_append_sep: "c \<notin> set p \<Longrightarrow> split_on c (p @ c # xs) = p # split_on c xs"
  by (induction p) auto

lemma split_join:
  "ps \<noteq> [] \<Longrightarrow> \<forall>p \<in> set ps. c \<notin> set p \<Longrightarrow> split_on c (join_with c ps) = ps"
proof (induction c ps rule: join_with.induct)
  case (3 c p q ps)
  then show ?case by (simp add: split_on_append_sep)
qed (simp_all add: split_on_no_sep)

lemma split_on_pieces: "p \<in> set (split_on c xs) \<Longrightarrow> c \<notin> set p \<and> set p \<subseteq> set xs"
proof (induction xs arbitrary: p)
  case Nil
  then show ?case by simp
next
  case (Cons x xs)
  show ?case
  proof (cases "x = c")
    case True
    with Cons show ?thesis by auto
  next
    case False
    obtain q qs where q: "split_on c xs = q # qs"
      by (cases "split_on c xs") auto
    with Cons.prems False have "p = x # q \<or> p \<in> set qs" by simp
    with Cons.IH [of q] Cons.IH [of p] q False show ?thesis by auto
  qed
qed

lemma set_join_with: "set (join_with c ps) \<subseteq> insert c (\<Union> (set ` set ps))"
  by (induction c ps rule: join_with.induct) auto

lemma utf8_valid_join: "c < 0x80 \<Longrightarrow> \<forall>p \<in> set ps. utf8_valid p \<Longrightarrow> utf8_valid (join_with c ps)"
proof (induction c ps rule: join_with.induct)
  case (3 c p q ps)
  then have "utf8_valid p" and "utf8_valid (c # join_with c (q # ps))" by simp_all
  then show ?case by (simp only: join_with.simps utf8_valid_append)
qed simp_all

lemma encode_utf16_append:
  "utf8_valid s \<Longrightarrow> utf8_valid t \<Longrightarrow> encode_utf16 (s @ t) = encode_utf16 s @ encode_utf16 t"
  by (auto simp: utf8_valid_def encode_utf16_def str_chars_def utf8_chars_append)

lemma encode_utf16_ascii_Cons:
  assumes "b < 0x80" and "utf8_valid s"
  shows "encode_utf16 (b # s) = ucast b # encode_utf16 s"
proof -
  have "encode_utf16 ([b] @ s) = encode_utf16 [b] @ encode_utf16 s"
    using assms by (intro encode_utf16_append) simp_all
  moreover have "unat b < 0x10000" using assms(1) by (simp add: word_less_nat_alt)
  ultimately show ?thesis
    using assms utf8_chars_ascii [of "[b]"]
    by (simp add: encode_utf16_def str_chars_def utf16_encode_char_def)
qed

lemma utf8_step_prefix:
  assumes "utf8_step s = Some (c, r)"
  obtains q where "s = q @ r" "q \<noteq> []" "\<And>t. utf8_step (q @ t) = Some (c, t)"
    "length q = 1 \<or> (\<forall>b \<in> set q. \<not> b < 0x80)"
  using assms
proof (cases rule: utf8_step_cases)
  case (one a)
  with assms show ?thesis by (intro that [of "[a]"]) (auto simp: utf8_step_def word_less_nat_alt)
next
  case (two a b)
  with assms show ?thesis
    by (intro that [of "[a, b]"]) (auto simp: utf8_step_two word_less_nat_alt)
next
  case (three a b d)
  with assms show ?thesis
    by (intro that [of "[a, b, d]"]) (auto simp: utf8_step_three word_less_nat_alt)
next
  case (four a b d e)
  with assms show ?thesis
    by (intro that [of "[a, b, d, e]"]) (auto simp: utf8_step_four word_less_nat_alt)
qed

lemma utf8_valid_at_ascii:
  assumes "utf8_valid (p @ c # t)" and "c < 0x80"
  shows "utf8_valid p \<and> utf8_valid t"
proof -
  from assms(1) obtain cs where "utf8_chars (p @ c # t) = Some cs" by (auto simp: utf8_valid_def)
  then show ?thesis
  proof (induction "p @ c # t" cs arbitrary: p rule: utf8_chars_induct)
    case Nil
    then show ?case by simp
  next
    case (Step c' r cs)
    show ?case
    proof (cases p)
      case Nil
      from Step have "utf8_valid (c # t)"
        by (auto simp: utf8_valid_def Nil utf8_chars_step)
      then show ?thesis using assms(2) Nil by simp
    next
      case (Cons x p')
      from Step(1) obtain q where q: "p @ c # t = q @ r" "q \<noteq> []"
        "\<And>t. utf8_step (q @ t) = Some (c', t)" "length q = 1 \<or> (\<forall>b \<in> set q. \<not> b < 0x80)"
        by (rule utf8_step_prefix) blast
      have "\<exists>p''. p = q @ p'' \<and> r = p'' @ c # t"
      proof (cases "length q = 1")
        case True
        with q(1) Cons show ?thesis by (cases q) auto
      next
        case False
        with q(4) assms(2) have "c \<notin> set q" by auto
        with q(1) show ?thesis by (auto simp: append_eq_append_conv2 Cons_eq_append_conv)
      qed
      then obtain p'' where p'': "p = q @ p''" "r = p'' @ c # t" by blast
      with Step(3) have "utf8_valid p''" "utf8_valid t" by blast+
      then show ?thesis using p'' q(3) by (auto simp: utf8_valid_def utf8_chars_step)
    qed
  qed
qed

lemma utf8_valid_split_on:
  assumes "c < 0x80" and "utf8_valid s" and "p \<in> set (split_on c s)"
  shows "utf8_valid p"
  using assms(2,3)
proof (induction "length s" arbitrary: s rule: less_induct)
  case less
  show ?case
  proof (cases "c \<in> set s")
    case False
    with less.prems show ?thesis by (simp add: split_on_no_sep)
  next
    case True
    then obtain q t where s: "s = q @ c # t" "c \<notin> set q" by (metis split_list_first)
    with less.prems utf8_valid_at_ascii [of q c t] assms(1) have "utf8_valid q" "utf8_valid t"
      by auto
    with less.hyps [of t] less.prems(2) s show ?thesis by (auto simp: split_on_append_sep)
  qed
qed

lemma encode_utf16_join_length:
  assumes "c < 0x80" and "ps \<noteq> []" and "\<forall>p \<in> set ps. utf8_valid p"
  shows "length (encode_utf16 (join_with c ps)) + 1 = (\<Sum>p \<leftarrow> ps. length (encode_utf16 p) + 1)"
  using assms(2,3)
proof (induction ps rule: list_nonempty_induct)
  case (single p)
  then show ?case by simp
next
  case (cons p ps)
  then have "encode_utf16 (join_with c (p # ps)) = encode_utf16 p @ ucast c # encode_utf16 (join_with c ps)"
    using assms(1) by (simp add: join_with_Cons encode_utf16_append encode_utf16_ascii_Cons utf8_valid_join)
  with cons show ?case by simp
qed

section \<open>Facts about printed integers\<close>

lemma dec_nat_not_Nil [simp]: "dec_nat n \<noteq> []"
  by (subst dec_nat.simps) simp

lemma is_digit_of_nat [simp]: "d < 10 \<Longrightarrow> is_digit (of_nat (48 + d))"
  by (simp add: is_digit_def word_le_nat_alt del: of_nat_add)

lemma dec_nat_digits: "list_all is_digit (dec_nat n)"
proof (induction n rule: dec_nat.induct)
  case (1 n)
  then show ?case by (subst dec_nat.simps) (simp del: of_nat_add)
qed

lemma is_digit_ascii: "is_digit b \<Longrightarrow> b < 0x80 \<and> b \<noteq> NUL \<and> b \<noteq> COLON"
  by (auto simp: is_digit_def word_le_nat_alt word_less_nat_alt)

lemma parse_digits_append:
  "parse_digits acc (xs @ ys) = Option.bind (parse_digits acc xs) (\<lambda>n. parse_digits n ys)"
  by (induction xs arbitrary: acc) auto

lemma parse_digits_dec_nat: "parse_digits 0 (dec_nat n) = Some n"
proof (induction n rule: dec_nat.induct)
  case (1 n)
  show ?case
  proof (cases "n < 10")
    case True
    then show ?thesis by (subst dec_nat.simps) (simp del: of_nat_add)
  next
    case False
    with "1.IH" show ?thesis
      by (subst dec_nat.simps) (simp add: parse_digits_append del: of_nat_add)
  qed
qed

lemma dec_nat_hd_not_sign: "dec_nat n = b # bs \<Longrightarrow> b \<noteq> 0x2B \<and> b \<noteq> 0x2D"
  using dec_nat_digits [of n] by (auto simp: is_digit_def word_le_nat_alt)

lemma parse_u64_to_string [simp]: "parse_u64 (u64_to_string v) = Some v"
proof -
  obtain b bs where b: "dec_nat (unat v) = b # bs"
    by (cases "dec_nat (unat v)") auto
  have "unat v < 2 ^ 64" using unsigned_less [of v] by simp
  with dec_nat_hd_not_sign [OF b] show ?thesis
    using parse_digits_dec_nat [of "unat v"] b
    by (simp add: parse_u64_def u64_to_string_def)
qed

lemma parse_i64_to_string [simp]: "parse_i64 (i64_to_string v) = Some v"
proof (cases "sint v < 0")
  case True
  have "- (2 ^ 63) \<le> sint v" using sint_ge [of v] by simp
  then have "- sint v \<le> int (2 ^ 63)" by simp
  then have le: "nat (- sint v) \<le> 2 ^ 63" by (simp only: nat_le_iff)
  have "- of_nat (nat (- sint v)) = v"
    using True by (simp flip: of_int_minus)
  with le True show ?thesis
    by (simp add: parse_i64_def i64_to_string_def parse_digits_dec_nat)
next
  case False
  obtain b bs where b: "dec_nat (nat (sint v)) = b # bs"
    by (cases "dec_nat (nat (sint v))") auto
  have "sint v < 2 ^ 63" using sint_less [of v] by simp
  then have "sint v < int (2 ^ 63)" by simp
  then have lt: "nat (sint v) < 2 ^ 63" using False by (simp only: nat_less_iff)
  have "of_nat (nat (sint v)) = v"
    using False by simp
  with lt False dec_nat_hd_not_sign [OF b] show ?thesis
    using parse_digits_dec_nat [of "nat (sint v)"] b
    by (simp add: parse_i64_def i64_to_string_def)
qed

lemma u64_to_string_digits: "list_all is_digit (u64_to_string v)"
  by (simp add: u64_to_string_def dec_nat_digits)

lemma list_all_is_digit_no_NUL: "list_all is_digit s \<Longrightarrow> NUL \<notin> set s"
  by (auto simp: list_all_iff is_digit_def)

lemma u64_to_string_no_NUL [simp]: "NUL \<notin> set (u64_to_string v)"
  using list_all_is_digit_no_NUL [OF u64_to_string_digits] .

lemma i64_to_string_no_NUL [simp]: "NUL \<notin> set (i64_to_string v)"
  using list_all_is_digit_no_NUL [OF dec_nat_digits] by (simp add: i64_to_string_def)

lemma list_all_is_digit_ascii: "list_all is_digit s \<Longrightarrow> list_all (\<lambda>b. b < 0x80) s"
  by (auto simp: list_all_iff dest: is_digit_ascii)

lemma u64_to_string_utf8 [simp]: "utf8_valid (u64_to_string v)"
  by (simp add: utf8_valid_ascii list_all_is_digit_ascii u64_to_string_digits)

lemma i64_to_string_utf8 [simp]: "utf8_valid (i64_to_string v)"
  by (simp add: i64_to_string_def utf8_valid_ascii list_all_is_digit_ascii dec_nat_digits)

lemma u64_to_string_not_Nil [simp]: "u64_to_string v \<noteq> []"
  by (simp add: u64_to_string_def)

lemma i64_to_string_not_Nil [simp]: "i64_to_string v \<noteq> []"
  by (simp add: i64_to_string_def)

text \<open>Two hexadecimal digits name one byte.\<close>

lemma hex_value_digit [simp]: "n < 16 \<Longrightarrow> hex_value (hex_digit n) = Some n"
  by (auto simp: hex_value_def hex_digit_def is_digit_def word_le_nat_alt simp del: of_nat_add)

lemma hex_digit_not_plus: "n < 16 \<Longrightarrow> hex_digit n \<noteq> 0x2B"
  by (auto simp: hex_digit_def word_unat_eq_iff simp del: of_nat_add)

lemma parse_hex_byte [simp]:
  "parse_hex_pair (hex_digit (unat b div 16)) (hex_digit (unat b mod 16)) = Some b"
proof -
  have "unat b < 256" using unsigned_less [of b] by simp
  then have "unat b div 16 < 16" by simp
  moreover from this have "hex_digit (unat b div 16) \<noteq> 0x2B" by (rule hex_digit_not_plus)
  moreover have "16 * (unat b div 16) + unat b mod 16 = unat b" by simp
  ultimately show ?thesis by (simp add: parse_hex_pair_def del: of_nat_add of_nat_mult)
qed

end
