(* ===== verification/Wire_Limits.thy ===== *)
theory Wire_Limits
  imports Rust_Text
begin

text \<open>
  The limits and the error type of the broker protocol (\<open>journal_broker/wire.rs\<close>), and the two
  identifier and timeout checks the request and response validators share.
\<close>

definition PROTOCOL_VERSION :: u16 where "PROTOCOL_VERSION = 5"

text \<open>The magic of the current protocol, \<open>AMEJNL5\<close> and a zero byte, and the earlier ones.\<close>

definition PROTOCOL_MAGIC :: bytes where
  "PROTOCOL_MAGIC = [0x41, 0x4D, 0x45, 0x4A, 0x4E, 0x4C, 0x35, 0]"

definition LEGACY_PROTOCOL_MAGIC_V1 :: bytes where
  "LEGACY_PROTOCOL_MAGIC_V1 = [0x41, 0x4D, 0x45, 0x4A, 0x4E, 0x4C, 0x31, 0]"

definition LEGACY_PROTOCOL_MAGIC_V2 :: bytes where
  "LEGACY_PROTOCOL_MAGIC_V2 = [0x41, 0x4D, 0x45, 0x4A, 0x4E, 0x4C, 0x32, 0]"

definition LEGACY_PROTOCOL_MAGIC_V3 :: bytes where
  "LEGACY_PROTOCOL_MAGIC_V3 = [0x41, 0x4D, 0x45, 0x4A, 0x4E, 0x4C, 0x33, 0]"

definition LEGACY_PROTOCOL_MAGIC_V4 :: bytes where
  "LEGACY_PROTOCOL_MAGIC_V4 = [0x41, 0x4D, 0x45, 0x4A, 0x4E, 0x4C, 0x34, 0]"

definition MAX_ROOT_ID_BYTES :: nat where [wire_limits]: "MAX_ROOT_ID_BYTES = 256"
definition MAX_VOLUME_ID_BYTES :: nat where [wire_limits]: "MAX_VOLUME_ID_BYTES = 512"
definition MAX_PATH_UTF16_UNITS :: nat where [wire_limits]: "MAX_PATH_UTF16_UNITS = 32767"
definition MAX_PATH_DEPTH :: nat where [wire_limits]: "MAX_PATH_DEPTH = 256"
definition MAX_RECORDS :: u32 where [wire_limits]: "MAX_RECORDS = 1024"
definition MAX_EVIDENCE_BYTES :: u32 where [wire_limits]: "MAX_EVIDENCE_BYTES = 524288"
definition MAX_TIMEOUT_MS :: u32 where [wire_limits]: "MAX_TIMEOUT_MS = 10000"
definition MAX_SHARED_ROOTS :: nat where [wire_limits]: "MAX_SHARED_ROOTS = 8"
definition MAX_SHARED_HANDOFFS :: nat where [wire_limits]: "MAX_SHARED_HANDOFFS = 1024"
definition MAX_SHARED_PENDING_RENAMES :: nat where
  [wire_limits]: "MAX_SHARED_PENDING_RENAMES = 1024"

datatype wire_error =
    InvalidMagic
  | UnsupportedVersion u16
  | UnknownKind u16
  | UnexpectedEnd
  | TrailingBytes
  | LengthExceeded
  | LengthOverflow
  | InvalidUtf8
  | InvalidUtf16
  | InvalidValue string
  | NameComparisonUnavailable

definition validate_identifier :: "str \<Rightarrow> nat \<Rightarrow> (wire_error, unit) result" where
  "validate_identifier s maximum =
     (if s = [] \<or> length s > maximum \<or> NUL \<in> set s then Inl (InvalidValue ''identifier'')
      else Inr ())"

definition validate_timeout :: "u32 \<Rightarrow> (wire_error, unit) result" where
  "validate_timeout timeout_ms =
     (if \<not> (1 \<le> timeout_ms \<and> timeout_ms \<le> MAX_TIMEOUT_MS)
      then Inl (InvalidValue ''timeout_ms'') else Inr ())"

text \<open>\<open>bytes.iter().all(|byte| *byte == 0)\<close>.\<close>

definition all_zero :: "bytes \<Rightarrow> bool" where
  "all_zero bs \<longleftrightarrow> list_all (\<lambda>b. b = 0) bs"

lemma validate_identifier_eq_Inr [wire_validate]:
  "validate_identifier s n = Inr () \<longleftrightarrow> s \<noteq> [] \<and> length s \<le> n \<and> NUL \<notin> set s"
  by (auto simp: validate_identifier_def)

lemma validate_timeout_eq_Inr [wire_validate]:
  "validate_timeout t = Inr () \<longleftrightarrow> 1 \<le> t \<and> t \<le> MAX_TIMEOUT_MS"
  by (auto simp: validate_timeout_def)

lemma protocol_magic_length [simp]: "length PROTOCOL_MAGIC = 8"
  by (simp add: PROTOCOL_MAGIC_def)

end
