(* ===== verification/Windows_Path.thy ===== *)
theory Windows_Path
  imports Wire_Limits
begin

text \<open>
  Windows paths as the broker accepts them (\<open>journal_broker/wire/path.rs\<close> and
  \<open>journal_broker/windows/name.rs\<close>): absolute UTF-16 paths are normalised to a drive and a list
  of components, and a path is placed under an authorised root component by component.

  \<open>CompareStringOrdinal\<close> is a function of the Windows API. It is the parameter \<open>compare\<close> of the
  definitions below: 0 stands for a failed call, 2 (\<open>CSTR_EQUAL\<close>) for equal names.
\<close>

section \<open>Names and components\<close>

datatype name_comparison_semantics = OrdinalCaseSensitive | WindowsOrdinalIgnoreCase

record path_component =
  pc_display :: str
  pc_utf16 :: "u16 list"

record normalized_windows_path =
  np_drive_key :: u8
  np_components :: "path_component list"

datatype root_relative_scope = ScopeRoot | ScopeRelative str

type_synonym ordinal_compare = "u16 list \<Rightarrow> u16 list \<Rightarrow> bool \<Rightarrow> int"

definition CSTR_EQUAL :: int where "CSTR_EQUAL = 2"

definition i32_try_from :: "nat \<Rightarrow> int option" where
  "i32_try_from n = (if n < 2 ^ 31 then Some (int n) else None)"

definition ordinal_equals ::
    "ordinal_compare \<Rightarrow> u16 list \<Rightarrow> u16 list \<Rightarrow> bool \<Rightarrow> (wire_error, bool) result" where
  "ordinal_equals compare left right ignore_case =
     bind_result (ok_or (i32_try_from (length left)) LengthOverflow) (\<lambda>_.
     bind_result (ok_or (i32_try_from (length right)) LengthOverflow) (\<lambda>_.
     let r = compare left right ignore_case in
     if r = 0 then Inl NameComparisonUnavailable else Inr (r = CSTR_EQUAL)))"

definition component_equals ::
    "ordinal_compare \<Rightarrow> u16 list \<Rightarrow> u16 list \<Rightarrow> name_comparison_semantics
      \<Rightarrow> (wire_error, bool) result" where
  "component_equals compare left right comparison = (case comparison of
     OrdinalCaseSensitive \<Rightarrow> Inr (left = right)
   | WindowsOrdinalIgnoreCase \<Rightarrow> ordinal_equals compare left right True)"

text \<open>\<open>eq_ignore_ascii_case\<close> on bytes and byte strings.\<close>

definition to_ascii_lowercase :: "u8 \<Rightarrow> u8" where
  "to_ascii_lowercase b = (if 0x41 \<le> b \<and> b \<le> 0x5A then b + 0x20 else b)"

definition to_ascii_uppercase :: "u8 \<Rightarrow> u8" where
  "to_ascii_uppercase b = (if 0x61 \<le> b \<and> b \<le> 0x7A then b - 0x20 else b)"

definition eq_ignore_ascii_case :: "bytes \<Rightarrow> bytes \<Rightarrow> bool" where
  "eq_ignore_ascii_case s t \<longleftrightarrow> map to_ascii_lowercase s = map to_ascii_lowercase t"

definition is_reserved_device_name :: "str \<Rightarrow> bool" where
  "is_reserved_device_name component =
     (let base = hd (split_on DOT component) in
      if list_ex (eq_ignore_ascii_case base) [lit ''CON'', lit ''PRN'', lit ''AUX'', lit ''NUL'']
      then True
      else length base = 4
        \<and> (eq_ignore_ascii_case (take 3 base) (lit ''COM'')
           \<or> eq_ignore_ascii_case (take 3 base) (lit ''LPT''))
        \<and> 0x31 \<le> base ! 3 \<and> base ! 3 \<le> 0x39)"

text \<open>The characters below space and the ones Windows forbids: less, greater, colon, quote, bar,
  question mark and asterisk.\<close>

definition forbidden_char :: "nat \<Rightarrow> bool" where
  "forbidden_char c \<longleftrightarrow> c < 0x20 \<or> c \<in> {0x3C, 0x3E, 0x3A, 0x22, 0x7C, 0x3F, 0x2A}"

definition validate_component :: "str \<Rightarrow> (wire_error, unit) result" where
  "validate_component component =
     (if component = []
         \<or> component = [DOT] \<or> component = [DOT, DOT]
         \<or> ends_with component SPACE \<or> ends_with component DOT
         \<or> list_ex forbidden_char (str_chars component)
         \<or> is_reserved_device_name component
      then Inl (InvalidValue ''path_component'') else Inr ())"

section \<open>Relative paths\<close>

text \<open>\<open>str::contains\<close> with a string pattern.\<close>

fun contains_str :: "'a list \<Rightarrow> 'a list \<Rightarrow> bool" where
  "contains_str p [] = (p = [])"
| "contains_str p (x # xs) = (starts_with (x # xs) p \<or> contains_str p xs)"

definition validate_relative_component :: "str \<Rightarrow> nat \<Rightarrow> (wire_error, nat) result" where
  "validate_relative_component component depth =
     bind_result (validate_component component) (\<lambda>_.
     bind_result (ok_or (checked_add depth 1) LengthOverflow) (\<lambda>depth'.
     if depth' > MAX_PATH_DEPTH then Inl LengthExceeded else Inr depth'))"

definition validate_relative_path :: "str \<Rightarrow> (wire_error, unit) result" where
  "validate_relative_path path =
     (if path = []
         \<or> length (encode_utf16 path) > MAX_PATH_UTF16_UNITS
         \<or> starts_with path [SLASH]
         \<or> ends_with path SLASH
         \<or> contains_str [SLASH, SLASH] path
         \<or> BACKSLASH \<in> set path
      then Inl (InvalidValue ''relative_path'')
      else bind_result (fold_result validate_relative_component (split_on SLASH path) 0)
             (\<lambda>_. Inr ()))"

section \<open>Absolute paths\<close>

definition is_ascii_alphabetic :: "u8 \<Rightarrow> bool" where
  "is_ascii_alphabetic b \<longleftrightarrow> 0x41 \<le> b \<and> b \<le> 0x5A \<or> 0x61 \<le> b \<and> b \<le> 0x7A"

definition path_component_of :: "str \<Rightarrow> path_component" where
  "path_component_of component = \<lparr>pc_display = component, pc_utf16 = encode_utf16 component\<rparr>"

fun normalize_components :: "str list \<Rightarrow> (wire_error, path_component list) result" where
  "normalize_components [] = Inr []"
| "normalize_components (component # raw) =
     bind_result (validate_component component) (\<lambda>_.
     bind_result (normalize_components raw) (\<lambda>components.
     Inr (path_component_of component # components)))"

text \<open>What follows the drive designator, split at the backslashes.\<close>

definition normalize_remainder :: "str \<Rightarrow> (wire_error, path_component list) result" where
  "normalize_remainder remainder =
     (if starts_with remainder [BACKSLASH] \<or> ends_with remainder BACKSLASH
      then Inl (InvalidValue ''absolute_path'')
      else if remainder = [] then Inr []
      else let raw = split_on BACKSLASH remainder in
        if list_ex (\<lambda>component. component = []) raw \<or> length raw > MAX_PATH_DEPTH
        then Inl (InvalidValue ''absolute_path'')
        else normalize_components raw)"

text \<open>The drive designator of the decoded path, then its components.\<close>

definition normalize_decoded_path :: "str \<Rightarrow> (wire_error, normalized_windows_path) result" where
  "normalize_decoded_path decoded = (case decoded of
     [] \<Rightarrow> Inl (InvalidValue ''drive_designator'')
   | drive # rest \<Rightarrow>
       if \<not> is_ascii_alphabetic drive then Inl (InvalidValue ''drive_designator'')
       else (case rest of
         colon # separator # remainder \<Rightarrow>
           if colon \<noteq> COLON \<or> separator \<noteq> BACKSLASH then Inl (InvalidValue ''absolute_path'')
           else bind_result (normalize_remainder remainder) (\<lambda>components.
             Inr \<lparr>np_drive_key = to_ascii_uppercase drive, np_components = components\<rparr>)
       | _ \<Rightarrow> Inl (InvalidValue ''absolute_path'')))"

definition normalize_absolute_path ::
    "u16 list \<Rightarrow> (wire_error, normalized_windows_path) result" where
  "normalize_absolute_path path =
     (if path = [] \<or> length path > MAX_PATH_UTF16_UNITS then Inl LengthExceeded
      else bind_result (ok_or (from_utf16 path) InvalidUtf16) (\<lambda>decoded.
      if NUL \<in> set decoded \<or> SLASH \<in> set decoded then Inl (InvalidValue ''absolute_path'')
      else normalize_decoded_path decoded))"

definition validate_root_path :: "u16 list \<Rightarrow> (wire_error, normalized_windows_path) result" where
  "validate_root_path path = normalize_absolute_path path"

definition normalize_backend_path ::
    "u16 list \<Rightarrow> (wire_error, normalized_windows_path) result" where
  "normalize_backend_path path = normalize_absolute_path path"

definition component_count :: "normalized_windows_path \<Rightarrow> nat" where
  "component_count path = length (np_components path)"

text \<open>The zipped loop of \<open>scope_under_root\<close>: whether every root component is matched.\<close>

fun root_components_match ::
    "ordinal_compare \<Rightarrow> path_component list \<Rightarrow> path_component list
      \<Rightarrow> name_comparison_semantics list \<Rightarrow> (wire_error, bool) result" where
  "root_components_match compare (candidate # cs) (root_component # rs) (comparison # ms) =
     bind_result (component_equals compare (pc_utf16 candidate) (pc_utf16 root_component) comparison)
       (\<lambda>equal. if \<not> equal then Inr False else root_components_match compare cs rs ms)"
| "root_components_match compare _ _ _ = Inr True"

definition scope_under_root ::
    "ordinal_compare \<Rightarrow> normalized_windows_path \<Rightarrow> normalized_windows_path
      \<Rightarrow> name_comparison_semantics list \<Rightarrow> (wire_error, root_relative_scope option) result" where
  "scope_under_root compare path root root_component_comparisons =
     (let n = length (np_components root) in
      if length root_component_comparisons \<noteq> n then Inl NameComparisonUnavailable
      else if np_drive_key path \<noteq> np_drive_key root \<or> length (np_components path) < n
      then Inr None
      else bind_result
        (root_components_match compare (np_components path) (np_components root)
           root_component_comparisons)
        (\<lambda>matches.
          if \<not> matches then Inr None
          else if length (np_components path) = n then Inr (Some ScopeRoot)
          else Inr (Some (ScopeRelative
                 (join_with SLASH (map pc_display (drop n (np_components path))))))))"

section \<open>What the validators accept\<close>

lemma split_on_Nil_piece:
  "contains_str [c, c] s \<or> ends_with s c \<Longrightarrow> [] \<in> set (tl (split_on c s))"
proof (induction s)
  case Nil
  then show ?case by (simp add: ends_with_def)
next
  case (Cons x xs)
  obtain p ps where sp: "split_on c xs = p # ps" by (cases "split_on c xs") auto
  consider (now) y where "x = c" "xs = c # y" | (last) "xs = []" "x = c"
    | (later) "contains_str [c, c] xs \<or> ends_with xs c"
    using Cons.prems by (auto simp: starts_with_def ends_with_def split: if_splits) (cases xs; auto)+
  then show ?case
    using Cons.IH sp by cases auto
qed

lemma split_on_starts: "starts_with s [c] \<Longrightarrow> [] \<in> set (split_on c s)"
  by (cases s) (auto simp: starts_with_def)

lemma validate_component_not_Nil: "validate_component p = Inr () \<Longrightarrow> p \<noteq> []"
  by (auto simp: validate_component_def)

lemma validate_relative_component_eq_Inr:
  "validate_relative_component p d = Inr d' \<longleftrightarrow>
     validate_component p = Inr () \<and> d' = Suc d \<and> d' \<le> MAX_PATH_DEPTH"
  by (auto simp: validate_relative_component_def bind_result_eq_Inr ok_or_eq_Inr wire_limits)

lemma fold_relative_components_eq_Inr:
  "fold_result validate_relative_component ps d = Inr d' \<longleftrightarrow>
     (\<forall>p \<in> set ps. validate_component p = Inr ()) \<and> d' = d + length ps
     \<and> (ps \<noteq> [] \<longrightarrow> d' \<le> MAX_PATH_DEPTH)"
proof (induction ps arbitrary: d)
  case Nil
  then show ?case by auto
next
  case (Cons p ps)
  then show ?case
    by (cases ps) (auto simp: bind_result_eq_Inr validate_relative_component_eq_Inr)
qed

lemma validate_relative_path_eq_Inr [wire_validate]:
  "validate_relative_path s = Inr () \<longleftrightarrow>
     length (encode_utf16 s) \<le> MAX_PATH_UTF16_UNITS \<and> BACKSLASH \<notin> set s
     \<and> length (split_on SLASH s) \<le> MAX_PATH_DEPTH
     \<and> (\<forall>p \<in> set (split_on SLASH s). validate_component p = Inr ())"
  (is "?lhs \<longleftrightarrow> ?rhs")
proof
  assume ?lhs
  then show ?rhs
    by (auto simp: validate_relative_path_def bind_result_eq_Inr fold_relative_components_eq_Inr
        split: if_splits)
next
  assume r: ?rhs
  then have ne: "[] \<notin> set (split_on SLASH s)" using validate_component_not_Nil by blast
  then have "[] \<notin> set (tl (split_on SLASH s))" by (cases "split_on SLASH s") auto
  with ne have "\<not> contains_str [SLASH, SLASH] s" "\<not> ends_with s SLASH" "\<not> starts_with s [SLASH]" "s \<noteq> []"
    using split_on_Nil_piece split_on_starts by fastforce+
  with r show ?lhs
    by (auto simp: validate_relative_path_def bind_result_eq_Inr fold_relative_components_eq_Inr)
qed

lemma relative_path_byte_length:
  assumes "validate_relative_path s = Inr ()" and "utf8_valid s"
  shows "length s \<le> MAX_PATH_UTF16_UNITS * 3"
  using assms utf8_length_le_utf16 [of s] by (simp add: validate_relative_path_eq_Inr)

lemma normalize_components_eq_Inr:
  "normalize_components raw = Inr cs \<longleftrightarrow>
     (\<forall>p \<in> set raw. validate_component p = Inr ()) \<and> cs = map path_component_of raw"
  by (induction raw arbitrary: cs) (auto simp: bind_result_eq_Inr)

lemma normalize_remainder_eq_Inr:
  "normalize_remainder s = Inr cs \<longleftrightarrow>
     (s = [] \<and> cs = []
      \<or> s \<noteq> [] \<and> length (split_on BACKSLASH s) \<le> MAX_PATH_DEPTH
        \<and> (\<forall>p \<in> set (split_on BACKSLASH s). validate_component p = Inr ())
        \<and> cs = map path_component_of (split_on BACKSLASH s))"
  (is "?lhs \<longleftrightarrow> ?rhs")
proof
  assume ?lhs
  then show ?rhs
    by (auto simp: normalize_remainder_def Let_def normalize_components_eq_Inr split: if_splits)
next
  assume r: ?rhs
  show ?lhs
  proof (cases "s = []")
    case True
    with r show ?thesis by (simp add: normalize_remainder_def starts_with_def ends_with_def)
  next
    case False
    with r have ne: "[] \<notin> set (split_on BACKSLASH s)" using validate_component_not_Nil by blast
    then have "[] \<notin> set (tl (split_on BACKSLASH s))" by (cases "split_on BACKSLASH s") auto
    with ne have "\<not> ends_with s BACKSLASH" "\<not> starts_with s [BACKSLASH]"
      using split_on_Nil_piece split_on_starts by fastforce+
    with r ne False show ?thesis
      by (auto simp: normalize_remainder_def Let_def normalize_components_eq_Inr list_ex_iff)
  qed
qed

lemma normalize_decoded_path_eq_Inr:
  "normalize_decoded_path s = Inr np \<longleftrightarrow>
     (\<exists>drive remainder. s = drive # COLON # BACKSLASH # remainder \<and> is_ascii_alphabetic drive
        \<and> np_drive_key np = to_ascii_uppercase drive
        \<and> normalize_remainder remainder = Inr (np_components np))"
  unfolding normalize_decoded_path_def
  by (cases np) (auto simp: bind_result_eq_Inr split: list.split)

lemma normalize_absolute_path_eq_Inr:
  "normalize_absolute_path path = Inr np \<longleftrightarrow>
     path \<noteq> [] \<and> length path \<le> MAX_PATH_UTF16_UNITS
     \<and> (\<exists>s. from_utf16 path = Some s \<and> NUL \<notin> set s \<and> SLASH \<notin> set s
          \<and> normalize_decoded_path s = Inr np)"
  unfolding normalize_absolute_path_def by (auto simp: bind_result_eq_Inr ok_or_eq_Inr)

section \<open>Properties\<close>

text \<open>What a normalised path keeps of the path it came from.\<close>

lemma normalized_path_components:
  assumes "normalize_absolute_path path = Inr np"
  shows "length (np_components np) \<le> MAX_PATH_DEPTH"
    and "\<And>c. c \<in> set (np_components np) \<Longrightarrow> c = path_component_of (pc_display c)
      \<and> validate_component (pc_display c) = Inr () \<and> utf8_valid (pc_display c)
      \<and> SLASH \<notin> set (pc_display c) \<and> BACKSLASH \<notin> set (pc_display c)"
    and "(\<Sum>c \<leftarrow> np_components np. length (pc_utf16 c) + 1) + 2 \<le> length path"
proof -
  from assms obtain s drive rest where s: "from_utf16 path = Some s" "SLASH \<notin> set s"
    "s = drive # COLON # BACKSLASH # rest" "is_ascii_alphabetic drive"
    and rest: "normalize_remainder rest = Inr (np_components np)"
    by (auto simp: normalize_absolute_path_eq_Inr normalize_decoded_path_eq_Inr)
  have drive: "drive < 0x80"
    using s(4) by (auto simp: is_ascii_alphabetic_def word_le_nat_alt word_less_nat_alt)
  have "utf8_valid s" using s(1) by (rule from_utf16_valid)
  with s(3) drive have vrest: "utf8_valid rest" by simp
  have "encode_utf16 s = path" using s(1) by (rule encode_utf16_from_utf16)
  with s(3) drive vrest have units: "length (encode_utf16 rest) + 3 = length path"
    by (auto simp: encode_utf16_ascii_Cons)
  show "length (np_components np) \<le> MAX_PATH_DEPTH"
    using rest by (auto simp: normalize_remainder_eq_Inr)
  show "c = path_component_of (pc_display c) \<and> validate_component (pc_display c) = Inr ()
      \<and> utf8_valid (pc_display c) \<and> SLASH \<notin> set (pc_display c) \<and> BACKSLASH \<notin> set (pc_display c)"
    if "c \<in> set (np_components np)" for c
  proof -
    from that rest obtain p where p: "p \<in> set (split_on BACKSLASH rest)" "c = path_component_of p"
      "validate_component p = Inr ()"
      by (auto simp: normalize_remainder_eq_Inr)
    moreover have "utf8_valid p" using utf8_valid_split_on [OF _ vrest p(1)] by simp
    ultimately show ?thesis
      using split_on_pieces [OF p(1)] s(2,3) by (auto simp: path_component_of_def)
  qed
  show "(\<Sum>c \<leftarrow> np_components np. length (pc_utf16 c) + 1) + 2 \<le> length path"
  proof (cases "rest = []")
    case True
    with rest units show ?thesis by (simp add: normalize_remainder_eq_Inr)
  next
    case False
    with rest have "np_components np = map path_component_of (split_on BACKSLASH rest)"
      by (simp add: normalize_remainder_eq_Inr)
    moreover have "length (encode_utf16 rest) + 1
        = (\<Sum>p \<leftarrow> split_on BACKSLASH rest. length (encode_utf16 p) + 1)"
    proof -
      have "\<forall>p \<in> set (split_on BACKSLASH rest). utf8_valid p"
        using utf8_valid_split_on [OF _ vrest, of BACKSLASH] by simp
      from encode_utf16_join_length [OF _ _ this, of BACKSLASH] show ?thesis by simp
    qed
    ultimately show ?thesis
      using units by (simp add: path_component_of_def o_def)
  qed
qed

lemma scope_under_root_relative:
  assumes "scope_under_root compare path root ms = Inr (Some (ScopeRelative rel))"
  shows "rel = join_with SLASH (map pc_display (drop (component_count root) (np_components path)))"
    and "component_count root < component_count path"
  using assms
  by (auto simp: scope_under_root_def component_count_def Let_def bind_result_eq_Inr split: if_splits)

lemma scope_relative_text:
  assumes "normalize_backend_path p = Inr path"
    and "scope_under_root compare path root ms = Inr (Some (ScopeRelative rel))"
  shows "validate_relative_path rel = Inr () \<and> utf8_valid rel
    \<and> split_on SLASH rel = map pc_display (drop (component_count root) (np_components path))
    \<and> length (encode_utf16 rel) < length p"
proof -
  define ps where "ps = map pc_display (drop (component_count root) (np_components path))"
  have rel: "rel = join_with SLASH ps" and ne: "ps \<noteq> []"
    using scope_under_root_relative [OF assms(2)] by (simp_all add: ps_def component_count_def)
  note np = normalized_path_components [OF assms(1) [unfolded normalize_backend_path_def]]
  have ps: "validate_component q = Inr () \<and> utf8_valid q \<and> SLASH \<notin> set q \<and> BACKSLASH \<notin> set q"
    if "q \<in> set ps" for q
    using that np(2) by (auto simp: ps_def dest!: in_set_dropD)
  have split: "split_on SLASH rel = ps"
    unfolding rel using ne ps by (intro split_join) auto
  have "length (encode_utf16 rel) + 1 = (\<Sum>q \<leftarrow> ps. length (encode_utf16 q) + 1)"
    unfolding rel using ne ps by (intro encode_utf16_join_length) auto
  also have "\<dots> = (\<Sum>c \<leftarrow> drop (component_count root) (np_components path). length (pc_utf16 c) + 1)"
    unfolding ps_def map_map
    using np(2) by (intro arg_cong [of _ _ sum_list] map_cong)
      (auto simp: path_component_of_def dest!: in_set_dropD, metis path_component.select_convs(2))
  also have "\<dots> \<le> (\<Sum>c \<leftarrow> np_components path. length (pc_utf16 c) + 1)"
    by (subst (2) append_take_drop_id [of "component_count root", symmetric]) (simp del: append_take_drop_id)
  finally have units: "length (encode_utf16 rel) < length p" using np(3) by simp
  moreover have "length (encode_utf16 rel) \<le> MAX_PATH_UTF16_UNITS"
    using units assms(1) by (auto simp: normalize_backend_path_def normalize_absolute_path_eq_Inr)
  moreover have "length ps \<le> MAX_PATH_DEPTH" using np(1) by (simp add: ps_def)
  moreover have "BACKSLASH \<notin> set rel"
    using ps set_join_with [of SLASH ps] unfolding rel by auto
  moreover have "utf8_valid rel"
    unfolding rel using ps by (intro utf8_valid_join) auto
  ultimately show ?thesis
    using ps split by (auto simp: validate_relative_path_eq_Inr ps_def)
qed

text \<open>
  C29. Every scope the broker derives for a backend path under an authorised root is a relative path
  that the protocol accepts, whatever the Windows name comparison answers: it is the path's
  components below the root joined by slashes, it is well-formed text, and it passes
  \<open>validate_relative_path\<close>.
\<close>

theorem scope_under_root_valid:
  assumes "normalize_backend_path p = Inr path"
    and "scope_under_root compare path root ms = Inr (Some (ScopeRelative rel))"
  shows "validate_relative_path rel = Inr () \<and> utf8_valid rel
    \<and> split_on SLASH rel = map pc_display (drop (component_count root) (np_components path))"
  using scope_relative_text [OF assms] by simp

definition example_root_units :: "u16 list" where
  "example_root_units = encode_utf16 (lit ''C:'' @ BACKSLASH # lit ''Photos'')"

definition example_path_units :: "u16 list" where
  "example_path_units = encode_utf16 (lit ''c:'' @ BACKSLASH # lit ''Photos'' @ BACKSLASH # lit ''a'' @ BACKSLASH # lit ''b.jpg'')"

definition example_path :: normalized_windows_path where
  "example_path = \<lparr>np_drive_key = 0x43,
     np_components = [path_component_of (lit ''Photos''), path_component_of (lit ''a''), path_component_of (lit ''b.jpg'')]\<rparr>"

definition example_root :: normalized_windows_path where
  "example_root = \<lparr>np_drive_key = 0x43, np_components = [path_component_of (lit ''Photos'')]\<rparr>"

lemma example_paths:
  "normalize_backend_path example_path_units = Inr example_path"
  "validate_root_path example_root_units = Inr example_root"
  by code_simp+

theorem scope_under_root_valid_witness:
  "validate_relative_path (lit ''a/b.jpg'') = Inr ()"
proof -
  have s: "scope_under_root (\<lambda>_ _ _. 0) example_path example_root [OrdinalCaseSensitive]
      = Inr (Some (ScopeRelative (lit ''a/b.jpg'')))" by code_simp
  show ?thesis using scope_under_root_valid [OF example_paths(1) s] by simp
qed

text \<open>
  C30. On volumes with case-sensitive names, the broker places a path under a root exactly when the
  drive letters agree and the root's components are the first components of the path, unit for
  unit; it never fails there and never reports a path outside the root.
\<close>

theorem scope_under_root_containment:
  assumes "length ms = component_count root" and "set ms \<subseteq> {OrdinalCaseSensitive}"
  shows "scope_under_root compare path root ms =
    Inr (if np_drive_key path = np_drive_key root \<and> component_count root \<le> component_count path
           \<and> map pc_utf16 (take (component_count root) (np_components path)) = map pc_utf16 (np_components root)
         then Some (if component_count path = component_count root then ScopeRoot
           else ScopeRelative (join_with SLASH (map pc_display (drop (component_count root) (np_components path)))))
         else None)"
proof -
  have match: "root_components_match compare cs rs ms =
      Inr (map pc_utf16 (take (length rs) cs) = map pc_utf16 rs)"
    if "length ms = length rs" "length rs \<le> length cs" "set ms \<subseteq> {OrdinalCaseSensitive}" for cs rs ms
    using that
    by (induction compare cs rs ms rule: root_components_match.induct)
      (auto simp: component_equals_def)
  show ?thesis
    using assms by (auto simp: scope_under_root_def component_count_def Let_def match)
qed

theorem scope_under_root_containment_witness:
  "scope_under_root (\<lambda>_ _ _. 0) example_path example_root [OrdinalCaseSensitive]
     = Inr (Some (ScopeRelative (lit ''a/b.jpg'')))"
  using scope_under_root_containment [of "[OrdinalCaseSensitive]" example_root "\<lambda>_ _ _. 0" example_path]
  by (simp add: example_root_def example_path_def component_count_def path_component_of_def lit_def)

end
