(* ===== verification/Wire_Types.thy ===== *)
theory Wire_Types
  imports Broker_Framing Windows_Path
begin

text \<open>
  The messages of the broker protocol and their validators (\<open>journal_broker/wire.rs\<close>). Structs
  are records; a fixed array \<open>[u8; n]\<close> is a byte list and a \<open>String\<close> is a byte list, with
  what Rust's types guarantee about them (the length, well-formed UTF-8) collected in the
  \<open>wf_\<close> predicates.
\<close>

section \<open>Requests\<close>

record caller_claim =
  cc_process_id :: u32
  cc_session_id :: u32
  cc_client_instance :: bytes

definition caller_claim_validate :: "caller_claim \<Rightarrow> (wire_error, unit) result" where
  "caller_claim_validate self =
     (if cc_process_id self = 0 \<or> all_zero (cc_client_instance self)
      then Inl (InvalidValue ''caller_claim'') else Inr ())"

record root_authorization =
  ra_root_id :: str
  ra_root_generation :: u64
  ra_volume_id :: str
  ra_root_identity :: bytes
  ra_canonical_root_utf16 :: "u16 list"

text \<open>\<open>matches!(len, 8 | 16)\<close>: the two widths of NTFS and ReFS file references.\<close>

definition is_reference_length :: "nat \<Rightarrow> bool" where
  "is_reference_length n \<longleftrightarrow> n = 8 \<or> n = 16"

definition root_authorization_validate :: "root_authorization \<Rightarrow> (wire_error, unit) result" where
  "root_authorization_validate self =
     bind_result (validate_identifier (ra_root_id self) MAX_ROOT_ID_BYTES) (\<lambda>_.
     bind_result (validate_identifier (ra_volume_id self) MAX_VOLUME_ID_BYTES) (\<lambda>_.
     if ra_root_generation self = 0 \<or> \<not> is_reference_length (length (ra_root_identity self))
     then Inl (InvalidValue ''root_authorization'')
     else bind_result (validate_root_path (ra_canonical_root_utf16 self)) (\<lambda>path.
     if component_count path = 0 then Inl (InvalidValue ''volume_root'') else Inr ())))"

datatype root_capability = RootCapability (capability_bytes: bytes)

definition root_capability_validate :: "root_capability \<Rightarrow> (wire_error, unit) result" where
  "root_capability_validate self =
     (if capability_bytes self = replicate 32 0 then Inl (InvalidValue ''root_capability'')
      else Inr ())"

record register_root_request =
  rg_caller :: caller_claim
  rg_root :: root_authorization
  rg_client_root_handle :: u64
  rg_timeout_ms :: u32

definition register_root_validate :: "register_root_request \<Rightarrow> (wire_error, unit) result" where
  "register_root_validate self =
     bind_result (caller_claim_validate (rg_caller self)) (\<lambda>_.
     bind_result (root_authorization_validate (rg_root self)) (\<lambda>_.
     if rg_client_root_handle self = 0 \<or> length (ra_root_identity (rg_root self)) \<noteq> 16
     then Inl (InvalidValue ''root_registration'')
     else validate_timeout (rg_timeout_ms self)))"

record query_journal_request =
  qj_caller :: caller_claim
  qj_root :: root_authorization
  qj_root_capability :: root_capability
  qj_timeout_ms :: u32

definition query_journal_validate :: "query_journal_request \<Rightarrow> (wire_error, unit) result" where
  "query_journal_validate self =
     bind_result (caller_claim_validate (qj_caller self)) (\<lambda>_.
     bind_result (root_authorization_validate (qj_root self)) (\<lambda>_.
     bind_result (root_capability_validate (qj_root_capability self)) (\<lambda>_.
     validate_timeout (qj_timeout_ms self))))"

text \<open>\<open>(1..=maximum).contains(&v)\<close> on \<open>u32\<close>.\<close>

definition in_1_to :: "u32 \<Rightarrow> u32 \<Rightarrow> bool" where
  "in_1_to maximum v \<longleftrightarrow> 1 \<le> v \<and> v \<le> maximum"

record read_journal_range_request =
  rj_caller :: caller_claim
  rj_root :: root_authorization
  rj_root_capability :: root_capability
  rj_journal_id :: u64
  rj_start_usn :: i64
  rj_end_usn :: i64
  rj_max_records :: u32
  rj_max_evidence_bytes :: u32
  rj_timeout_ms :: u32

definition read_journal_range_validate ::
    "read_journal_range_request \<Rightarrow> (wire_error, unit) result" where
  "read_journal_range_validate self =
     bind_result (caller_claim_validate (rj_caller self)) (\<lambda>_.
     bind_result (root_authorization_validate (rj_root self)) (\<lambda>_.
     bind_result (root_capability_validate (rj_root_capability self)) (\<lambda>_.
     if rj_journal_id self = 0 \<or> sint (rj_start_usn self) < 0
        \<or> sint (rj_end_usn self) \<le> sint (rj_start_usn self)
     then Inl (InvalidValue ''journal_range'')
     else if \<not> in_1_to MAX_RECORDS (rj_max_records self) then Inl (InvalidValue ''max_records'')
     else if \<not> in_1_to MAX_EVIDENCE_BYTES (rj_max_evidence_bytes self)
     then Inl (InvalidValue ''max_evidence_bytes'')
     else validate_timeout (rj_timeout_ms self))))"

record shared_journal_root_request =
  sr_root :: root_authorization
  sr_root_capability :: root_capability
  sr_start_usn :: i64

definition shared_journal_root_validate ::
    "shared_journal_root_request \<Rightarrow> (wire_error, unit) result" where
  "shared_journal_root_validate self =
     bind_result (root_authorization_validate (sr_root self)) (\<lambda>_.
     bind_result (root_capability_validate (sr_root_capability self)) (\<lambda>_.
     if sint (sr_start_usn self) < 0 then Inl (InvalidValue ''journal_start'') else Inr ()))"

record pending_rename_request =
  pr_carry_id :: str
  pr_source_range_id :: str
  pr_root :: root_authorization
  pr_root_capability :: "root_capability option"
  pr_file_reference :: bytes
  pr_old_usn :: i64
  pr_previous_relative_path :: str
  pr_is_directory :: bool

definition validate_option :: "('a \<Rightarrow> ('e, unit) result) \<Rightarrow> 'a option \<Rightarrow> ('e, unit) result" where
  "validate_option f v = (case v of None \<Rightarrow> Inr () | Some a \<Rightarrow> f a)"

definition pending_rename_request_validate ::
    "pending_rename_request \<Rightarrow> str \<Rightarrow> u64 \<Rightarrow> i64 \<Rightarrow> (wire_error, unit) result" where
  "pending_rename_request_validate self volume_id journal_id requested_end_usn =
     bind_result (validate_identifier (pr_carry_id self) 512) (\<lambda>_.
     bind_result (validate_identifier (pr_source_range_id self) 512) (\<lambda>_.
     bind_result (root_authorization_validate (pr_root self)) (\<lambda>_.
     bind_result (validate_option root_capability_validate (pr_root_capability self)) (\<lambda>_.
     bind_result (validate_relative_path (pr_previous_relative_path self)) (\<lambda>_.
     if ra_volume_id (pr_root self) \<noteq> volume_id
        \<or> journal_id = 0
        \<or> \<not> is_reference_length (length (pr_file_reference self))
        \<or> sint (pr_old_usn self) < 0
        \<or> sint requested_end_usn \<le> sint (pr_old_usn self)
     then Inl (InvalidValue ''shared_pending_rename'') else Inr ())))))"

record read_journal_volume_request =
  rv_caller :: caller_claim
  rv_roots :: "shared_journal_root_request list"
  rv_pending_renames :: "pending_rename_request list"
  rv_journal_id :: u64
  rv_end_usn :: i64
  rv_max_records :: u32
  rv_max_evidence_bytes :: u32
  rv_timeout_ms :: u32

text \<open>One turn of the loop over the roots; the state is the set \<open>identities\<close>.\<close>

definition shared_root_step ::
    "str \<Rightarrow> i64 \<Rightarrow> shared_journal_root_request \<Rightarrow> (str \<times> u64) set
      \<Rightarrow> (wire_error, (str \<times> u64) set) result" where
  "shared_root_step volume_id end_usn root identities =
     bind_result (shared_journal_root_validate root) (\<lambda>_.
     let key = (ra_root_id (sr_root root), ra_root_generation (sr_root root)) in
     if ra_volume_id (sr_root root) \<noteq> volume_id
        \<or> read_interval_new (sr_start_usn root) end_usn = None
        \<or> key \<in> identities
     then Inl (InvalidValue ''shared_root_set'') else Inr (insert key identities))"

definition shared_pending_step ::
    "str \<Rightarrow> u64 \<Rightarrow> i64 \<Rightarrow> pending_rename_request \<Rightarrow> str set \<Rightarrow> (wire_error, str set) result" where
  "shared_pending_step volume_id journal_id end_usn pending carry_ids =
     bind_result (pending_rename_request_validate pending volume_id journal_id end_usn) (\<lambda>_.
     if pr_carry_id pending \<in> carry_ids then Inl (InvalidValue ''shared_pending_rename_set'')
     else Inr (insert (pr_carry_id pending) carry_ids))"

definition read_journal_volume_validate ::
    "read_journal_volume_request \<Rightarrow> (wire_error, unit) result" where
  "read_journal_volume_validate self =
     bind_result (caller_claim_validate (rv_caller self)) (\<lambda>_.
     if rv_journal_id self = 0
        \<or> \<not> (1 \<le> length (rv_roots self) \<and> length (rv_roots self) \<le> MAX_SHARED_ROOTS)
        \<or> \<not> in_1_to MAX_RECORDS (rv_max_records self)
        \<or> \<not> in_1_to MAX_EVIDENCE_BYTES (rv_max_evidence_bytes self)
     then Inl (InvalidValue ''shared_journal_range'')
     else let volume_id = ra_volume_id (sr_root (hd (rv_roots self))) in
     bind_result (fold_result (shared_root_step volume_id (rv_end_usn self)) (rv_roots self) {})
       (\<lambda>_.
     if length (rv_pending_renames self) > MAX_SHARED_PENDING_RENAMES
     then Inl (InvalidValue ''shared_pending_rename_count'')
     else bind_result
       (fold_result (shared_pending_step volume_id (rv_journal_id self) (rv_end_usn self))
          (rv_pending_renames self) {}) (\<lambda>_.
     validate_timeout (rv_timeout_ms self))))"

text \<open>\<open>iter().min()\<close> with the panic of \<open>expect\<close> on no roots as \<open>None\<close>.\<close>

fun minimum_usn :: "i64 list \<Rightarrow> i64 option" where
  "minimum_usn [] = None"
| "minimum_usn (u # us) = (case minimum_usn us of
     None \<Rightarrow> Some u
   | Some v \<Rightarrow> Some (if sint u \<le> sint v then u else v))"

definition minimum_start_usn :: "read_journal_volume_request \<Rightarrow> i64 option" where
  "minimum_start_usn self = minimum_usn (map sr_start_usn (rv_roots self))"

datatype broker_request =
    RegisterRoot u64 register_root_request
  | QueryJournal u64 query_journal_request
  | ReadRange u64 read_journal_range_request
  | ReadVolume u64 read_journal_volume_request
  | Cancel u64 caller_claim u64

fun request_request_id :: "broker_request \<Rightarrow> u64" where
  "request_request_id (RegisterRoot request_id _) = request_id"
| "request_request_id (QueryJournal request_id _) = request_id"
| "request_request_id (ReadRange request_id _) = request_id"
| "request_request_id (ReadVolume request_id _) = request_id"
| "request_request_id (Cancel request_id _ _) = request_id"

section \<open>Responses\<close>

record response_binding =
  rb_client_instance :: bytes
  rb_root_id :: str
  rb_root_generation :: u64
  rb_volume_id :: str

definition binding_from_request :: "caller_claim \<Rightarrow> root_authorization \<Rightarrow> response_binding" where
  "binding_from_request caller root =
     \<lparr>rb_client_instance = cc_client_instance caller, rb_root_id = ra_root_id root,
      rb_root_generation = ra_root_generation root, rb_volume_id = ra_volume_id root\<rparr>"

definition response_binding_validate :: "response_binding \<Rightarrow> (wire_error, unit) result" where
  "response_binding_validate self =
     (if all_zero (rb_client_instance self) \<or> rb_root_generation self = 0
      then Inl (InvalidValue ''response_binding'')
      else bind_result (validate_identifier (rb_root_id self) MAX_ROOT_ID_BYTES) (\<lambda>_.
        validate_identifier (rb_volume_id self) MAX_VOLUME_ID_BYTES))"

datatype journal_capability = Supported | LiveOnly

datatype candidate_kind = Path | Subtree | Rename

datatype candidate_scope = RootScope | RelativePath str

definition candidate_scope_validate :: "candidate_scope \<Rightarrow> (wire_error, unit) result" where
  "candidate_scope_validate self = (case self of
     RootScope \<Rightarrow> Inr ()
   | RelativePath path \<Rightarrow> validate_relative_path path)"

definition scope_evidence_bytes :: "candidate_scope \<Rightarrow> nat option" where
  "scope_evidence_bytes self = (case self of
     RootScope \<Rightarrow> Some 1
   | RelativePath path \<Rightarrow> checked_mul (length (encode_utf16 path)) 2)"

record broker_candidate =
  bc_scope :: candidate_scope
  bc_previous_scope :: "candidate_scope option"
  bc_file_reference :: bytes
  bc_usn :: i64
  bc_kind :: candidate_kind
  bc_is_directory :: bool

definition previous_scope_validate :: "candidate_scope \<Rightarrow> (wire_error, unit) result" where
  "previous_scope_validate previous =
     bind_result (candidate_scope_validate previous) (\<lambda>_.
     if previous = RootScope then Inl (InvalidValue ''previous_root_candidate'') else Inr ())"

definition broker_candidate_validate :: "broker_candidate \<Rightarrow> (wire_error, unit) result" where
  "broker_candidate_validate self =
     bind_result (candidate_scope_validate (bc_scope self)) (\<lambda>_.
     bind_result (validate_option previous_scope_validate (bc_previous_scope self)) (\<lambda>_.
     let is_rename = (bc_kind self = Rename) in
     if \<not> is_reference_length (length (bc_file_reference self))
        \<or> sint (bc_usn self) < 0
        \<or> (bc_previous_scope self \<noteq> None) \<noteq> is_rename
        \<or> bc_kind self = Subtree \<and> \<not> bc_is_directory self
        \<or> bc_scope self = RootScope \<and> \<not> bc_is_directory self
     then Inl (InvalidValue ''candidate'')
     else if bc_scope self = RootScope \<and> bc_kind self \<noteq> Subtree
     then Inl (InvalidValue ''root_candidate'')
     else Inr ()))"

definition candidate_evidence_bytes :: "broker_candidate \<Rightarrow> nat option" where
  "candidate_evidence_bytes self =
     Option.bind (case bc_previous_scope self of
         Some scope \<Rightarrow> scope_evidence_bytes scope
       | None \<Rightarrow> Some 0) (\<lambda>previous_bytes.
     Option.bind (scope_evidence_bytes (bc_scope self)) (\<lambda>n.
     Option.bind (checked_add n previous_bytes) (\<lambda>n.
     checked_add n (length (bc_file_reference self)))))"

datatype broker_failure_code =
    ProtocolMismatch | MalformedFrame | RequestTooLarge | CallerRejected | RootUnauthorized
  | RootIdentityMismatch | VolumeMismatch | JournalUnavailable | JournalDiscontinuous
  | RecordUnsupported | EvidenceLimitExceeded | TimedOut | Cancelled | RequestNotActive
  | ActiveLimitExceeded | TerminalDeliveryBackpressure | BackendUnavailable | Internal

datatype broker_failure = BrokerFailure (failure_code_of: broker_failure_code)

record shared_journal_root_outcome =
  so_binding :: response_binding
  so_requested_start_usn :: i64
  so_covered_until_usn :: "i64 option"
  so_is_complete :: bool
  so_candidates :: "broker_candidate list"
  so_failure :: "broker_failure option"

text \<open>
  The loop over candidates shared by root outcomes and range responses: every candidate is valid,
  inside the covered interval and after the one before it. The state is \<open>last_usn\<close>.
\<close>

definition candidate_usn_step ::
    "i64 \<Rightarrow> i64 \<Rightarrow> broker_candidate \<Rightarrow> i64 option \<Rightarrow> (wire_error, i64 option) result" where
  "candidate_usn_step start_usn covered candidate last_usn =
     bind_result (broker_candidate_validate candidate) (\<lambda>_.
     if sint (bc_usn candidate) < sint start_usn
        \<or> sint covered \<le> sint (bc_usn candidate)
        \<or> (case last_usn of None \<Rightarrow> False | Some previous \<Rightarrow> sint (bc_usn candidate) \<le> sint previous)
     then Inl (InvalidValue ''candidate_usn'') else Inr (Some (bc_usn candidate)))"

definition root_outcome_validate ::
    "shared_journal_root_outcome \<Rightarrow> i64 \<Rightarrow> nat \<Rightarrow> (wire_error, unit) result" where
  "root_outcome_validate self requested_end_usn maximum_records =
     bind_result (response_binding_validate (so_binding self)) (\<lambda>_.
     bind_result (ok_or (read_interval_new (so_requested_start_usn self) requested_end_usn)
       (InvalidValue ''shared_root_range'')) (\<lambda>interval.
     case (so_covered_until_usn self, so_failure self) of
       (Some covered, None) \<Rightarrow>
         if \<not> admits_coverage interval covered (so_is_complete self)
            \<or> length (so_candidates self) > maximum_records
         then Inl (InvalidValue ''shared_root_proof'')
         else bind_result
           (fold_result (candidate_usn_step (so_requested_start_usn self) covered)
             (so_candidates self) None) (\<lambda>_. Inr ())
     | (None, Some _) \<Rightarrow>
         if \<not> so_is_complete self \<and> so_candidates self = [] then Inr ()
         else Inl (InvalidValue ''shared_root_outcome'')
     | _ \<Rightarrow> Inl (InvalidValue ''shared_root_outcome'')))"

record shared_journal_handoff =
  sh_previous_binding :: response_binding
  sh_current_binding :: response_binding
  sh_file_reference :: bytes
  sh_usn :: i64
  sh_previous_relative_path :: str
  sh_current_relative_path :: str
  sh_is_directory :: bool
  sh_previous_carry_id :: "str option"

definition handoff_validate ::
    "shared_journal_handoff \<Rightarrow> bytes \<Rightarrow> str \<Rightarrow> i64 \<Rightarrow> (wire_error, unit) result" where
  "handoff_validate self client_instance volume_id requested_end_usn =
     bind_result (response_binding_validate (sh_previous_binding self)) (\<lambda>_.
     bind_result (response_binding_validate (sh_current_binding self)) (\<lambda>_.
     bind_result (validate_relative_path (sh_previous_relative_path self)) (\<lambda>_.
     bind_result (validate_relative_path (sh_current_relative_path self)) (\<lambda>_.
     bind_result (validate_option (\<lambda>carry_id. validate_identifier carry_id 512)
       (sh_previous_carry_id self)) (\<lambda>_.
     let previous = sh_previous_binding self; current = sh_current_binding self in
     if rb_client_instance previous \<noteq> client_instance
        \<or> rb_client_instance current \<noteq> client_instance
        \<or> rb_volume_id previous \<noteq> volume_id
        \<or> rb_volume_id current \<noteq> volume_id
        \<or> (rb_root_id previous, rb_root_generation previous)
            = (rb_root_id current, rb_root_generation current)
        \<or> \<not> is_reference_length (length (sh_file_reference self))
        \<or> sint (sh_usn self) < 0
        \<or> sint requested_end_usn \<le> sint (sh_usn self)
     then Inl (InvalidValue ''shared_handoff'') else Inr ())))))"

definition handoff_evidence_bytes :: "shared_journal_handoff \<Rightarrow> nat option" where
  "handoff_evidence_bytes self =
     Option.bind (checked_mul (length (encode_utf16 (sh_previous_relative_path self))) 2) (\<lambda>previous.
     Option.bind (checked_mul (length (encode_utf16 (sh_current_relative_path self))) 2) (\<lambda>current.
     Option.bind (checked_add previous current) (\<lambda>n.
     Option.bind (checked_add n (length (sh_file_reference self))) (\<lambda>n.
     case sh_previous_carry_id self of
       None \<Rightarrow> Some n
     | Some carry_id \<Rightarrow> checked_add n (length carry_id)))))"

record shared_journal_pending_rename =
  sp_binding :: response_binding
  sp_file_reference :: bytes
  sp_old_usn :: i64
  sp_previous_relative_path :: str
  sp_is_directory :: bool

definition pending_rename_validate ::
    "shared_journal_pending_rename \<Rightarrow> bytes \<Rightarrow> str \<Rightarrow> i64 \<Rightarrow> (wire_error, unit) result" where
  "pending_rename_validate self client_instance volume_id requested_end_usn =
     bind_result (response_binding_validate (sp_binding self)) (\<lambda>_.
     bind_result (validate_relative_path (sp_previous_relative_path self)) (\<lambda>_.
     if rb_client_instance (sp_binding self) \<noteq> client_instance
        \<or> rb_volume_id (sp_binding self) \<noteq> volume_id
        \<or> \<not> is_reference_length (length (sp_file_reference self))
        \<or> sint (sp_old_usn self) < 0
        \<or> sint requested_end_usn \<le> sint (sp_old_usn self)
     then Inl (InvalidValue ''shared_pending_rename'') else Inr ()))"

definition pending_rename_evidence_bytes :: "shared_journal_pending_rename \<Rightarrow> nat option" where
  "pending_rename_evidence_bytes self =
     Option.bind (checked_mul (length (encode_utf16 (sp_previous_relative_path self))) 2) (\<lambda>n.
     checked_add n (length (sp_file_reference self)))"

text \<open>The fields of the larger response variants.\<close>

record journal_response =
  jr_binding :: response_binding
  jr_capability :: journal_capability
  jr_journal_id :: "u64 option"
  jr_first_usn :: "i64 option"
  jr_next_usn :: "i64 option"

record read_range_accepted =
  xa_binding :: response_binding
  xa_journal_id :: u64
  xa_requested_start_usn :: i64
  xa_requested_end_usn :: i64
  xa_max_records :: u32
  xa_max_evidence_bytes :: u32

record read_volume_accepted =
  va_client_instance :: bytes
  va_volume_id :: str
  va_journal_id :: u64
  va_requested_start_usn :: i64
  va_requested_end_usn :: i64
  va_root_count :: u8
  va_max_records :: u32
  va_max_evidence_bytes :: u32

record read_volume_response =
  vr_client_instance :: bytes
  vr_volume_id :: str
  vr_journal_id :: u64
  vr_requested_end_usn :: i64
  vr_max_records :: u32
  vr_max_evidence_bytes :: u32
  vr_outcomes :: "shared_journal_root_outcome list"
  vr_handoffs :: "shared_journal_handoff list"
  vr_pending_renames :: "shared_journal_pending_rename list"

record read_range_response =
  xr_binding :: response_binding
  xr_journal_id :: u64
  xr_requested_start_usn :: i64
  xr_requested_end_usn :: i64
  xr_max_records :: u32
  xr_max_evidence_bytes :: u32
  xr_covered_until_usn :: i64
  xr_is_complete :: bool
  xr_candidates :: "broker_candidate list"

datatype broker_response =
    RootRegistered u64 response_binding root_capability
  | JournalResponse u64 journal_response
  | ReadRangeAccepted u64 read_range_accepted
  | ReadVolumeAccepted u64 read_volume_accepted
  | ReadVolumeResponse u64 read_volume_response
  | ReadRangeResponse u64 read_range_response
  | CancelledResponse u64 bytes u64
  | FailureResponse u64 "bytes option" broker_failure

fun response_request_id :: "broker_response \<Rightarrow> u64" where
  "response_request_id (RootRegistered request_id _ _) = request_id"
| "response_request_id (JournalResponse request_id _) = request_id"
| "response_request_id (ReadRangeAccepted request_id _) = request_id"
| "response_request_id (ReadRangeResponse request_id _) = request_id"
| "response_request_id (ReadVolumeAccepted request_id _) = request_id"
| "response_request_id (ReadVolumeResponse request_id _) = request_id"
| "response_request_id (CancelledResponse request_id _ _) = request_id"
| "response_request_id (FailureResponse request_id _ _) = request_id"

record inspected_request_header =
  ih_request_id :: u64
  ih_version :: u16
  ih_is_current_magic :: bool

section \<open>What Rust's types guarantee\<close>

definition wf_caller :: "caller_claim \<Rightarrow> bool" where
  "wf_caller c \<longleftrightarrow> length (cc_client_instance c) = 16"

definition wf_root :: "root_authorization \<Rightarrow> bool" where
  "wf_root r \<longleftrightarrow> utf8_valid (ra_root_id r) \<and> utf8_valid (ra_volume_id r)"

definition wf_capability :: "root_capability \<Rightarrow> bool" where
  "wf_capability c \<longleftrightarrow> length (capability_bytes c) = 32"

definition wf_pending_request :: "pending_rename_request \<Rightarrow> bool" where
  "wf_pending_request p \<longleftrightarrow> utf8_valid (pr_carry_id p) \<and> utf8_valid (pr_source_range_id p)
     \<and> wf_root (pr_root p) \<and> all_some wf_capability (pr_root_capability p)
     \<and> utf8_valid (pr_previous_relative_path p)"

fun wf_request :: "broker_request \<Rightarrow> bool" where
  "wf_request (RegisterRoot _ r) \<longleftrightarrow> wf_caller (rg_caller r) \<and> wf_root (rg_root r)"
| "wf_request (QueryJournal _ r) \<longleftrightarrow>
     wf_caller (qj_caller r) \<and> wf_root (qj_root r) \<and> wf_capability (qj_root_capability r)"
| "wf_request (ReadRange _ r) \<longleftrightarrow>
     wf_caller (rj_caller r) \<and> wf_root (rj_root r) \<and> wf_capability (rj_root_capability r)"
| "wf_request (ReadVolume _ r) \<longleftrightarrow> wf_caller (rv_caller r)
     \<and> list_all (\<lambda>s. wf_root (sr_root s) \<and> wf_capability (sr_root_capability s)) (rv_roots r)
     \<and> list_all wf_pending_request (rv_pending_renames r)"
| "wf_request (Cancel _ c _) \<longleftrightarrow> wf_caller c"

definition wf_binding :: "response_binding \<Rightarrow> bool" where
  "wf_binding b \<longleftrightarrow> length (rb_client_instance b) = 16
     \<and> utf8_valid (rb_root_id b) \<and> utf8_valid (rb_volume_id b)"

fun wf_scope :: "candidate_scope \<Rightarrow> bool" where
  "wf_scope RootScope \<longleftrightarrow> True"
| "wf_scope (RelativePath path) \<longleftrightarrow> utf8_valid path"

definition wf_candidate :: "broker_candidate \<Rightarrow> bool" where
  "wf_candidate c \<longleftrightarrow> wf_scope (bc_scope c) \<and> all_some wf_scope (bc_previous_scope c)"

definition wf_outcome :: "shared_journal_root_outcome \<Rightarrow> bool" where
  "wf_outcome x \<longleftrightarrow> wf_binding (so_binding x) \<and> list_all wf_candidate (so_candidates x)"

definition wf_handoff :: "shared_journal_handoff \<Rightarrow> bool" where
  "wf_handoff h \<longleftrightarrow> wf_binding (sh_previous_binding h) \<and> wf_binding (sh_current_binding h)
     \<and> utf8_valid (sh_previous_relative_path h) \<and> utf8_valid (sh_current_relative_path h)
     \<and> all_some utf8_valid (sh_previous_carry_id h)"

definition wf_pending :: "shared_journal_pending_rename \<Rightarrow> bool" where
  "wf_pending p \<longleftrightarrow> wf_binding (sp_binding p) \<and> utf8_valid (sp_previous_relative_path p)"

fun wf_response :: "broker_response \<Rightarrow> bool" where
  "wf_response (RootRegistered _ b c) \<longleftrightarrow> wf_binding b \<and> wf_capability c"
| "wf_response (JournalResponse _ r) \<longleftrightarrow> wf_binding (jr_binding r)"
| "wf_response (ReadRangeAccepted _ r) \<longleftrightarrow> wf_binding (xa_binding r)"
| "wf_response (ReadVolumeAccepted _ r) \<longleftrightarrow>
     length (va_client_instance r) = 16 \<and> utf8_valid (va_volume_id r)"
| "wf_response (ReadVolumeResponse _ r) \<longleftrightarrow>
     length (vr_client_instance r) = 16 \<and> utf8_valid (vr_volume_id r)
     \<and> list_all wf_outcome (vr_outcomes r) \<and> list_all wf_handoff (vr_handoffs r)
     \<and> list_all wf_pending (vr_pending_renames r)"
| "wf_response (ReadRangeResponse _ r) \<longleftrightarrow>
     wf_binding (xr_binding r) \<and> list_all wf_candidate (xr_candidates r)"
| "wf_response (CancelledResponse _ i _) \<longleftrightarrow> length i = 16"
| "wf_response (FailureResponse _ i _) \<longleftrightarrow> all_some (\<lambda>i. length i = 16) i"

section \<open>What the validators accept\<close>

lemma all_zero_iff: "all_zero bs \<longleftrightarrow> (\<forall>b \<in> set bs. b = 0)"
  by (simp add: all_zero_def list_all_iff)

lemma validate_option_eq_Inr [wire_validate]:
  "validate_option f v = Inr () \<longleftrightarrow> (\<forall>a. v = Some a \<longrightarrow> f a = Inr ())"
  by (cases v) (auto simp: validate_option_def)

lemma caller_claim_validate_eq_Inr [wire_validate]:
  "caller_claim_validate c = Inr () \<longleftrightarrow> cc_process_id c \<noteq> 0 \<and> \<not> all_zero (cc_client_instance c)"
  by (auto simp: caller_claim_validate_def)

lemma root_authorization_validate_eq_Inr [wire_validate]:
  "root_authorization_validate r = Inr () \<longleftrightarrow>
     validate_identifier (ra_root_id r) MAX_ROOT_ID_BYTES = Inr ()
     \<and> validate_identifier (ra_volume_id r) MAX_VOLUME_ID_BYTES = Inr ()
     \<and> ra_root_generation r \<noteq> 0 \<and> is_reference_length (length (ra_root_identity r))
     \<and> (\<exists>p. validate_root_path (ra_canonical_root_utf16 r) = Inr p \<and> component_count p \<noteq> 0)"
  by (auto simp: root_authorization_validate_def bind_result_eq_Inr)

lemma root_capability_validate_eq_Inr [wire_validate]:
  "root_capability_validate c = Inr () \<longleftrightarrow> capability_bytes c \<noteq> replicate 32 0"
  by (auto simp: root_capability_validate_def)

lemma register_root_validate_eq_Inr [wire_validate]:
  "register_root_validate r = Inr () \<longleftrightarrow>
     caller_claim_validate (rg_caller r) = Inr () \<and> root_authorization_validate (rg_root r) = Inr ()
     \<and> rg_client_root_handle r \<noteq> 0 \<and> length (ra_root_identity (rg_root r)) = 16
     \<and> validate_timeout (rg_timeout_ms r) = Inr ()"
  by (auto simp: register_root_validate_def bind_result_eq_Inr)

lemma query_journal_validate_eq_Inr [wire_validate]:
  "query_journal_validate r = Inr () \<longleftrightarrow>
     caller_claim_validate (qj_caller r) = Inr () \<and> root_authorization_validate (qj_root r) = Inr ()
     \<and> root_capability_validate (qj_root_capability r) = Inr ()
     \<and> validate_timeout (qj_timeout_ms r) = Inr ()"
  by (auto simp: query_journal_validate_def bind_result_eq_Inr)

lemma read_journal_range_validate_eq_Inr [wire_validate]:
  "read_journal_range_validate r = Inr () \<longleftrightarrow>
     caller_claim_validate (rj_caller r) = Inr () \<and> root_authorization_validate (rj_root r) = Inr ()
     \<and> root_capability_validate (rj_root_capability r) = Inr ()
     \<and> rj_journal_id r \<noteq> 0 \<and> 0 \<le> sint (rj_start_usn r) \<and> sint (rj_start_usn r) < sint (rj_end_usn r)
     \<and> in_1_to MAX_RECORDS (rj_max_records r) \<and> in_1_to MAX_EVIDENCE_BYTES (rj_max_evidence_bytes r)
     \<and> validate_timeout (rj_timeout_ms r) = Inr ()"
  by (auto simp: read_journal_range_validate_def bind_result_eq_Inr)

lemma shared_journal_root_validate_eq_Inr [wire_validate]:
  "shared_journal_root_validate r = Inr () \<longleftrightarrow>
     root_authorization_validate (sr_root r) = Inr ()
     \<and> root_capability_validate (sr_root_capability r) = Inr () \<and> 0 \<le> sint (sr_start_usn r)"
  by (auto simp: shared_journal_root_validate_def bind_result_eq_Inr)

lemma pending_rename_request_validate_eq_Inr [wire_validate]:
  "pending_rename_request_validate p v j e = Inr () \<longleftrightarrow>
     validate_identifier (pr_carry_id p) 512 = Inr ()
     \<and> validate_identifier (pr_source_range_id p) 512 = Inr ()
     \<and> root_authorization_validate (pr_root p) = Inr ()
     \<and> validate_option root_capability_validate (pr_root_capability p) = Inr ()
     \<and> validate_relative_path (pr_previous_relative_path p) = Inr ()
     \<and> ra_volume_id (pr_root p) = v \<and> j \<noteq> 0 \<and> is_reference_length (length (pr_file_reference p))
     \<and> 0 \<le> sint (pr_old_usn p) \<and> sint (pr_old_usn p) < sint e"
  by (auto simp: pending_rename_request_validate_def bind_result_eq_Inr)

lemma shared_roots_fold:
  "fold_result (shared_root_step v e) roots S = Inr S' \<longleftrightarrow>
     (\<forall>r \<in> set roots. shared_journal_root_validate r = Inr () \<and> ra_volume_id (sr_root r) = v
        \<and> read_interval_new (sr_start_usn r) e \<noteq> None)
     \<and> distinct (map (\<lambda>r. (ra_root_id (sr_root r), ra_root_generation (sr_root r))) roots)
     \<and> (\<lambda>r. (ra_root_id (sr_root r), ra_root_generation (sr_root r))) ` set roots \<inter> S = {}
     \<and> S' = (\<lambda>r. (ra_root_id (sr_root r), ra_root_generation (sr_root r))) ` set roots \<union> S"
  by (rule fold_result_distinct) (auto simp: shared_root_step_def bind_result_eq_Inr Let_def)

lemma shared_pendings_fold:
  "fold_result (shared_pending_step v j e) ps S = Inr S' \<longleftrightarrow>
     (\<forall>p \<in> set ps. pending_rename_request_validate p v j e = Inr ())
     \<and> distinct (map pr_carry_id ps) \<and> pr_carry_id ` set ps \<inter> S = {}
     \<and> S' = pr_carry_id ` set ps \<union> S"
  by (rule fold_result_distinct) (auto simp: shared_pending_step_def bind_result_eq_Inr)

lemma read_journal_volume_validate_eq_Inr [wire_validate]:
  "read_journal_volume_validate r = Inr () \<longleftrightarrow>
     caller_claim_validate (rv_caller r) = Inr () \<and> rv_journal_id r \<noteq> 0
     \<and> 1 \<le> length (rv_roots r) \<and> length (rv_roots r) \<le> MAX_SHARED_ROOTS
     \<and> in_1_to MAX_RECORDS (rv_max_records r) \<and> in_1_to MAX_EVIDENCE_BYTES (rv_max_evidence_bytes r)
     \<and> (\<forall>s \<in> set (rv_roots r). shared_journal_root_validate s = Inr ()
          \<and> ra_volume_id (sr_root s) = ra_volume_id (sr_root (hd (rv_roots r)))
          \<and> read_interval_new (sr_start_usn s) (rv_end_usn r) \<noteq> None)
     \<and> distinct (map (\<lambda>s. (ra_root_id (sr_root s), ra_root_generation (sr_root s))) (rv_roots r))
     \<and> length (rv_pending_renames r) \<le> MAX_SHARED_PENDING_RENAMES
     \<and> (\<forall>p \<in> set (rv_pending_renames r). pending_rename_request_validate p
          (ra_volume_id (sr_root (hd (rv_roots r)))) (rv_journal_id r) (rv_end_usn r) = Inr ())
     \<and> distinct (map pr_carry_id (rv_pending_renames r))
     \<and> validate_timeout (rv_timeout_ms r) = Inr ()"
  by (simp add: read_journal_volume_validate_def bind_result_eq_Inr Let_def
      shared_roots_fold shared_pendings_fold not_less) blast

lemma response_binding_validate_eq_Inr [wire_validate]:
  "response_binding_validate b = Inr () \<longleftrightarrow>
     \<not> all_zero (rb_client_instance b) \<and> rb_root_generation b \<noteq> 0
     \<and> validate_identifier (rb_root_id b) MAX_ROOT_ID_BYTES = Inr ()
     \<and> validate_identifier (rb_volume_id b) MAX_VOLUME_ID_BYTES = Inr ()"
  by (auto simp: response_binding_validate_def bind_result_eq_Inr)

lemma candidate_scope_validate_eq_Inr [wire_validate]:
  "candidate_scope_validate s = Inr () \<longleftrightarrow>
     (\<forall>path. s = RelativePath path \<longrightarrow> validate_relative_path path = Inr ())"
  by (cases s) (auto simp: candidate_scope_validate_def)

lemma broker_candidate_validate_eq_Inr [wire_validate]:
  "broker_candidate_validate c = Inr () \<longleftrightarrow>
     candidate_scope_validate (bc_scope c) = Inr ()
     \<and> (case bc_previous_scope c of
          None \<Rightarrow> bc_kind c \<noteq> Rename
        | Some s \<Rightarrow> bc_kind c = Rename \<and> candidate_scope_validate s = Inr () \<and> s \<noteq> RootScope)
     \<and> is_reference_length (length (bc_file_reference c)) \<and> 0 \<le> sint (bc_usn c)
     \<and> (bc_kind c = Subtree \<longrightarrow> bc_is_directory c)
     \<and> (bc_scope c = RootScope \<longrightarrow> bc_is_directory c \<and> bc_kind c = Subtree)"
  by (auto simp: broker_candidate_validate_def previous_scope_validate_def validate_option_def
      bind_result_eq_Inr Let_def split: option.splits)

lemma handoff_validate_eq_Inr [wire_validate]:
  "handoff_validate h i v e = Inr () \<longleftrightarrow>
     response_binding_validate (sh_previous_binding h) = Inr ()
     \<and> response_binding_validate (sh_current_binding h) = Inr ()
     \<and> validate_relative_path (sh_previous_relative_path h) = Inr ()
     \<and> validate_relative_path (sh_current_relative_path h) = Inr ()
     \<and> validate_option (\<lambda>c. validate_identifier c 512) (sh_previous_carry_id h) = Inr ()
     \<and> rb_client_instance (sh_previous_binding h) = i \<and> rb_client_instance (sh_current_binding h) = i
     \<and> rb_volume_id (sh_previous_binding h) = v \<and> rb_volume_id (sh_current_binding h) = v
     \<and> (rb_root_id (sh_previous_binding h), rb_root_generation (sh_previous_binding h))
         \<noteq> (rb_root_id (sh_current_binding h), rb_root_generation (sh_current_binding h))
     \<and> is_reference_length (length (sh_file_reference h))
     \<and> 0 \<le> sint (sh_usn h) \<and> sint (sh_usn h) < sint e"
  by (auto simp: handoff_validate_def bind_result_eq_Inr Let_def)

lemma pending_rename_validate_eq_Inr [wire_validate]:
  "pending_rename_validate p i v e = Inr () \<longleftrightarrow>
     response_binding_validate (sp_binding p) = Inr ()
     \<and> validate_relative_path (sp_previous_relative_path p) = Inr ()
     \<and> rb_client_instance (sp_binding p) = i \<and> rb_volume_id (sp_binding p) = v
     \<and> is_reference_length (length (sp_file_reference p))
     \<and> 0 \<le> sint (sp_old_usn p) \<and> sint (sp_old_usn p) < sint e"
  by (auto simp: pending_rename_validate_def bind_result_eq_Inr)

lemma candidate_usns_fold:
  "fold_result (candidate_usn_step s c) cs prev = Inr l \<longleftrightarrow>
     (\<forall>x \<in> set cs. broker_candidate_validate x = Inr ()
        \<and> sint s \<le> sint (bc_usn x) \<and> sint (bc_usn x) < sint c
        \<and> (\<forall>p. prev = Some p \<longrightarrow> sint p < sint (bc_usn x)))
     \<and> sorted_wrt (\<lambda>a b. sint (bc_usn a) < sint (bc_usn b)) cs
     \<and> l = (if cs = [] then prev else Some (bc_usn (last cs)))"
proof (induction cs arbitrary: prev)
  case Nil
  then show ?case by auto
next
  case (Cons x cs)
  have step: "candidate_usn_step s c x prev = Inr l' \<longleftrightarrow> broker_candidate_validate x = Inr ()
      \<and> sint s \<le> sint (bc_usn x) \<and> sint (bc_usn x) < sint c
      \<and> (\<forall>p. prev = Some p \<longrightarrow> sint p < sint (bc_usn x)) \<and> l' = Some (bc_usn x)" for l'
    by (auto simp: candidate_usn_step_def bind_result_eq_Inr split: option.splits)
  show ?case
    by (simp add: bind_result_eq_Inr step Cons.IH) (auto intro: less_trans)
qed

lemma root_outcome_validate_eq_Inr [wire_validate]:
  "root_outcome_validate x e n = Inr () \<longleftrightarrow>
     response_binding_validate (so_binding x) = Inr ()
     \<and> (\<exists>iv. read_interval_new (so_requested_start_usn x) e = Some iv
          \<and> ((\<exists>c l. so_covered_until_usn x = Some c \<and> so_failure x = None
                \<and> admits_coverage iv c (so_is_complete x) \<and> length (so_candidates x) \<le> n
                \<and> fold_result (candidate_usn_step (so_requested_start_usn x) c)
                    (so_candidates x) None = Inr l)
             \<or> so_covered_until_usn x = None \<and> so_failure x \<noteq> None
                \<and> \<not> so_is_complete x \<and> so_candidates x = []))"
  by (cases "so_covered_until_usn x"; cases "so_failure x")
    (auto simp: root_outcome_validate_def bind_result_eq_Inr ok_or_eq_Inr not_less)

lemma minimum_usn_eq_Some:
  "us \<noteq> [] \<Longrightarrow> \<exists>m. minimum_usn us = Some m \<and> m \<in> set us \<and> (\<forall>u \<in> set us. sint m \<le> sint u)"
  by (induction us rule: list_nonempty_induct) (auto split: option.splits)


section \<open>Properties\<close>

text \<open>Concrete messages for the examples below.\<close>

definition example_caller :: caller_claim where
  "example_caller = \<lparr>cc_process_id = 41, cc_session_id = 2, cc_client_instance = replicate 16 3\<rparr>"

definition example_authorization :: root_authorization where
  "example_authorization = \<lparr>ra_root_id = lit ''root-a'', ra_root_generation = 7,
     ra_volume_id = lit ''volume-a'', ra_root_identity = replicate 16 4,
     ra_canonical_root_utf16 = example_root_units\<rparr>"

definition example_shared_root :: "str \<Rightarrow> i64 \<Rightarrow> shared_journal_root_request" where
  "example_shared_root root_id start_usn =
     \<lparr>sr_root = example_authorization\<lparr>ra_root_id := root_id\<rparr>,
      sr_root_capability = RootCapability (replicate 32 8), sr_start_usn = start_usn\<rparr>"

definition example_pending_request :: pending_rename_request where
  "example_pending_request = \<lparr>pr_carry_id = lit ''carry-1'', pr_source_range_id = lit ''range-1'',
     pr_root = example_authorization, pr_root_capability = None,
     pr_file_reference = replicate 16 9, pr_old_usn = 5,
     pr_previous_relative_path = lit ''a/b.jpg'', pr_is_directory = False\<rparr>"

definition example_volume_request :: read_journal_volume_request where
  "example_volume_request = \<lparr>rv_caller = example_caller,
     rv_roots = [example_shared_root (lit ''root-a'') 12, example_shared_root (lit ''root-b'') 10],
     rv_pending_renames = [example_pending_request], rv_journal_id = 77, rv_end_usn = 20,
     rv_max_records = 32, rv_max_evidence_bytes = 4096, rv_timeout_ms = 1000\<rparr>"

lemma example_volume_request_valid: "read_journal_volume_validate example_volume_request = Inr ()"
  by code_simp

lemma minimum_start_usn_bounds:
  assumes "read_journal_volume_validate r = Inr ()"
  shows "\<exists>m. minimum_start_usn r = Some m \<and> m \<in> sr_start_usn ` set (rv_roots r)
    \<and> (\<forall>s \<in> set (rv_roots r). sint m \<le> sint (sr_start_usn s))
    \<and> 0 \<le> sint m \<and> sint m \<le> sint (rv_end_usn r)"
proof -
  from assms have "rv_roots r \<noteq> []" and
    iv: "\<forall>s \<in> set (rv_roots r). read_interval_new (sr_start_usn s) (rv_end_usn r) \<noteq> None"
    by (auto simp: read_journal_volume_validate_eq_Inr)
  then obtain m where "minimum_start_usn r = Some m" "m \<in> sr_start_usn ` set (rv_roots r)"
    "\<forall>s \<in> set (rv_roots r). sint m \<le> sint (sr_start_usn s)"
    using minimum_usn_eq_Some [of "map sr_start_usn (rv_roots r)"]
    by (auto simp: minimum_start_usn_def)
  moreover with iv have "0 \<le> sint m \<and> sint m \<le> sint (rv_end_usn r)"
    by (auto simp: read_interval_new_def split: if_splits)
  ultimately show ?thesis by blast
qed

text \<open>
  C33. A volume read that passes validation starts at the lowest checkpoint of its roots: the start
  \<open>minimum_start_usn\<close> is defined (the \<open>expect\<close> cannot panic), is the start of one of the roots,
  is at or below every other root's start, and lies between 0 and the requested end.
\<close>

theorem minimum_start_usn_lowest:
  assumes "read_journal_volume_validate r = Inr ()"
  shows "\<exists>m. minimum_start_usn r = Some m \<and> m \<in> sr_start_usn ` set (rv_roots r)
    \<and> (\<forall>s \<in> set (rv_roots r). sint m \<le> sint (sr_start_usn s))
    \<and> 0 \<le> sint m \<and> sint m \<le> sint (rv_end_usn r)"
  by (rule minimum_start_usn_bounds [OF assms])

theorem minimum_start_usn_lowest_witness:
  "\<exists>m. minimum_start_usn example_volume_request = Some m \<and> 0 \<le> sint m \<and> sint m \<le> 20"
  using minimum_start_usn_lowest [OF example_volume_request_valid]
  by (auto simp: example_volume_request_def)

text \<open>
  C32. A root outcome that passes validation is a proof of coverage: either it is a failure with no
  candidates and no claim of coverage, or its candidates are valid, strictly increasing in USN and
  all inside the interval from the requested start up to the covered USN, which itself does not pass
  the requested end and reaches it exactly when the outcome says it is complete.
\<close>

theorem root_outcome_proves_coverage:
  assumes "root_outcome_validate x e n = Inr ()"
  shows "(case so_covered_until_usn x of
      None \<Rightarrow> so_failure x \<noteq> None \<and> so_candidates x = [] \<and> \<not> so_is_complete x
    | Some c \<Rightarrow> so_failure x = None \<and> sint (so_requested_start_usn x) \<le> sint c \<and> sint c \<le> sint e
        \<and> so_is_complete x = (c = e) \<and> length (so_candidates x) \<le> n
        \<and> sorted_wrt (\<lambda>a b. sint (bc_usn a) < sint (bc_usn b)) (so_candidates x)
        \<and> (\<forall>k \<in> set (so_candidates x). broker_candidate_validate k = Inr ()
             \<and> sint (so_requested_start_usn x) \<le> sint (bc_usn k) \<and> sint (bc_usn k) < sint c))"
  using assms
  by (auto simp: root_outcome_validate_eq_Inr candidate_usns_fold admits_coverage_iff)

definition example_binding :: "str \<Rightarrow> response_binding" where
  "example_binding root_id = \<lparr>rb_client_instance = replicate 16 3, rb_root_id = root_id,
     rb_root_generation = 7, rb_volume_id = lit ''volume-a''\<rparr>"

definition example_candidate :: "i64 \<Rightarrow> broker_candidate" where
  "example_candidate usn = \<lparr>bc_scope = RelativePath (lit ''a/b.jpg''), bc_previous_scope = None,
     bc_file_reference = replicate 8 1, bc_usn = usn, bc_kind = Path, bc_is_directory = False\<rparr>"

definition example_outcome :: "str \<Rightarrow> shared_journal_root_outcome" where
  "example_outcome root_id = \<lparr>so_binding = example_binding root_id, so_requested_start_usn = 10,
     so_covered_until_usn = Some 20, so_is_complete = True,
     so_candidates = [example_candidate 11, example_candidate 13], so_failure = None\<rparr>"

theorem root_outcome_proves_coverage_witness:
  "root_outcome_validate (example_outcome (lit ''root-a'')) 20 8 = Inr ()
   \<and> sorted_wrt (\<lambda>a b. sint (bc_usn a) < sint (bc_usn b)) (so_candidates (example_outcome (lit ''root-a'')))"
proof -
  have v: "root_outcome_validate (example_outcome (lit ''root-a'')) 20 8 = Inr ()" by code_simp
  show ?thesis using v root_outcome_proves_coverage [OF v] by (simp add: example_outcome_def)
qed

end
