(* ===== verification/Active_Registry.thy ===== *)
theory Active_Registry
  imports Wire_Types "HOL-Library.AList" "HOL-Library.Multiset"
begin

text \<open>
  The registry of active requests of the broker service (\<open>journal_broker/service/active.rs\<close>):
  which connections are open, which requests each of them has in flight, how many control requests
  run, and which terminals wait for delivery.

  Every public method locks the registry for its whole body, so the interleavings of the service's
  threads are the sequences of these operations. A method that returns an error may still have
  changed the registry; operations therefore give the new state and the result. Lock poisoning is
  left out. A \<open>HashMap\<close> is an association list with distinct keys; the order in which it is
  iterated is the parameter \<open>order\<close> of the one operation that iterates. An \<open>Instant\<close> is a
  natural number, and \<open>Instant::now()\<close> inside a method is an argument.
\<close>

section \<open>State\<close>

definition MAX_ACTIVE_REQUESTS_PER_CONNECTION :: nat where
  "MAX_ACTIVE_REQUESTS_PER_CONNECTION = 8"

definition MAX_CONTROL_REQUESTS_PER_CONNECTION :: nat where
  "MAX_CONTROL_REQUESTS_PER_CONNECTION = 2"

definition MAX_RECORDED_TERMINALS_PER_CONNECTION :: nat where
  "MAX_RECORDED_TERMINALS_PER_CONNECTION = 16"

record active_request_key =
  ak_connection_id :: bytes
  ak_connection_generation :: u64
  ak_authentication_namespace :: bytes
  ak_client_instance :: bytes
  ak_request_id :: u64

record request_namespace =
  rn_authentication_namespace :: bytes
  rn_client_instance :: bytes
  rn_request_id :: u64

definition namespace_of :: "active_request_key \<Rightarrow> request_namespace" where
  "namespace_of key = \<lparr>rn_authentication_namespace = ak_authentication_namespace key,
     rn_client_instance = ak_client_instance key, rn_request_id = ak_request_id key\<rparr>"

datatype active_request_error =
    AlreadyActive | LimitExceeded | NotActive | ConnectionNotOpen | ConnectionGenerationMismatch
  | TerminalDeliveryBackpressure | RequestCancelled | RequestTimedOut

datatype request_terminal =
    TerminalCompleted | TerminalCancelled | TerminalTimedOut | TerminalAborted

record recorded_terminal =
  rt_key :: active_request_key
  rt_terminal :: request_terminal

record terminal_drain =
  td_terminals :: "recorded_terminal list"
  td_must_close :: bool

datatype accepted_journal_read =
    AcceptedRoot read_journal_range_request
  | AcceptedVolume read_journal_volume_request

record accepted_read =
  ar_request :: accepted_journal_read
  ar_deadline :: nat

record active_request =
  aq_deadline :: nat
  aq_is_cancelled :: bool
  aq_accepted_read :: "accepted_journal_read option"

type_synonym request_table = "(request_namespace \<times> active_request) list"

record connection_lifecycle =
  cl_generation :: u64
  cl_requests :: request_table
  cl_active_controls :: nat
  cl_recorded_terminals :: "recorded_terminal list"
  cl_must_close :: bool

record registry_state =
  rs_connections :: "(bytes \<times> connection_lifecycle) list"

definition registry_default :: registry_state where
  "registry_default = \<lparr>rs_connections = []\<rparr>"

definition connection_new :: "u64 \<Rightarrow> connection_lifecycle" where
  "connection_new generation = \<lparr>cl_generation = generation, cl_requests = [],
     cl_active_controls = 0, cl_recorded_terminals = [], cl_must_close = False\<rparr>"

section \<open>Operations\<close>

text \<open>\<open>ConnectionLifecycle::record\<close>; the flag says whether it succeeded.\<close>

definition record_terminal ::
    "active_request_key \<Rightarrow> request_terminal \<Rightarrow> connection_lifecycle \<Rightarrow> connection_lifecycle \<times> bool" where
  "record_terminal key terminal c =
     (if length (cl_recorded_terminals c) = MAX_RECORDED_TERMINALS_PER_CONNECTION
      then (c\<lparr>cl_must_close := True\<rparr>, False)
      else let c = c\<lparr>cl_recorded_terminals :=
               cl_recorded_terminals c @ [\<lparr>rt_key = key, rt_terminal = terminal\<rparr>]\<rparr> in
        (if length (cl_recorded_terminals c) = MAX_RECORDED_TERMINALS_PER_CONNECTION
         then c\<lparr>cl_must_close := True\<rparr> else c, True))"

definition connection_ref ::
    "registry_state \<Rightarrow> active_request_key \<Rightarrow> (active_request_error, connection_lifecycle) result" where
  "connection_ref s key = (case map_of (rs_connections s) (ak_connection_id key) of
     None \<Rightarrow> Inl ConnectionNotOpen
   | Some c \<Rightarrow> if cl_generation c \<noteq> ak_connection_generation key
       then Inl ConnectionGenerationMismatch else Inr c)"

text \<open>\<open>connection_mut\<close> followed by a body that updates the connection it found.\<close>

definition with_connection ::
    "active_request_key
      \<Rightarrow> (connection_lifecycle \<Rightarrow> connection_lifecycle \<times> (active_request_error, 'a) result)
      \<Rightarrow> registry_state \<Rightarrow> registry_state \<times> (active_request_error, 'a) result" where
  "with_connection key body s = (case connection_ref s key of
     Inl e \<Rightarrow> (s, Inl e)
   | Inr c \<Rightarrow> let (c', r) = body c in
       (s\<lparr>rs_connections := AList.update (ak_connection_id key) c' (rs_connections s)\<rparr>, r))"

definition open_connection ::
    "bytes \<Rightarrow> u64 \<Rightarrow> registry_state \<Rightarrow> registry_state \<times> (active_request_error, unit) result" where
  "open_connection connection_id generation s =
     (if connection_id = replicate 16 0 \<or> generation = 0 then (s, Inl ConnectionNotOpen)
      else (case map_of (rs_connections s) connection_id of
        Some c \<Rightarrow> if cl_generation c = generation then (s, Inr ())
          else (s, Inl ConnectionGenerationMismatch)
      | None \<Rightarrow> (s\<lparr>rs_connections :=
          AList.update connection_id (connection_new generation) (rs_connections s)\<rparr>, Inr ())))"

text \<open>The terminal of a request that was accepted but not started, if it is due.\<close>

definition stale_terminal :: "nat \<Rightarrow> active_request \<Rightarrow> request_terminal option" where
  "stale_terminal now request =
     (if aq_accepted_read request = None then None
      else if aq_is_cancelled request then Some TerminalCancelled
      else if now \<ge> aq_deadline request then Some TerminalTimedOut
      else None)"

fun stale_requests :: "nat \<Rightarrow> request_table \<Rightarrow> (request_namespace \<times> request_terminal) list" where
  "stale_requests now [] = []"
| "stale_requests now ((namespace, request) # rest) = (case stale_terminal now request of
     None \<Rightarrow> stale_requests now rest
   | Some terminal \<Rightarrow> (namespace, terminal) # stale_requests now rest)"

definition key_of :: "bytes \<Rightarrow> u64 \<Rightarrow> request_namespace \<Rightarrow> active_request_key" where
  "key_of connection_id connection_generation namespace =
     \<lparr>ak_connection_id = connection_id, ak_connection_generation = connection_generation,
      ak_authentication_namespace = rn_authentication_namespace namespace,
      ak_client_instance = rn_client_instance namespace, ak_request_id = rn_request_id namespace\<rparr>"

fun record_stale ::
    "bytes \<Rightarrow> u64 \<Rightarrow> (request_namespace \<times> request_terminal) list \<Rightarrow> connection_lifecycle
      \<Rightarrow> connection_lifecycle \<times> recorded_terminal list" where
  "record_stale connection_id generation [] c = (c, [])"
| "record_stale connection_id generation ((namespace, terminal) # stale) c =
     (let key = key_of connection_id generation namespace; (c, recorded) = record_terminal key terminal c in
      if \<not> recorded then (c, [])
      else let c = c\<lparr>cl_requests := AList.delete namespace (cl_requests c)\<rparr>;
               (c, rest) = record_stale connection_id generation stale c in
        (c, \<lparr>rt_key = key, rt_terminal = terminal\<rparr> # rest))"

definition reap_accepted_locked ::
    "(request_table \<Rightarrow> request_table) \<Rightarrow> bytes \<Rightarrow> u64 \<Rightarrow> nat \<Rightarrow> connection_lifecycle
      \<Rightarrow> connection_lifecycle \<times> recorded_terminal list" where
  "reap_accepted_locked order connection_id generation now c =
     record_stale connection_id generation (stale_requests now (order (cl_requests c))) c"

definition register_locked ::
    "(request_table \<Rightarrow> request_table) \<Rightarrow> active_request_key \<Rightarrow> nat \<Rightarrow> accepted_journal_read option
      \<Rightarrow> nat \<Rightarrow> connection_lifecycle \<Rightarrow> connection_lifecycle \<times> (active_request_error, unit) result" where
  "register_locked order key deadline accepted_read now c =
     (let (c, _) = reap_accepted_locked order (ak_connection_id key) (ak_connection_generation key) now c in
      if cl_must_close c then (c, Inl TerminalDeliveryBackpressure)
      else if map_of (cl_requests c) (namespace_of key) \<noteq> None then (c, Inl AlreadyActive)
      else if length (cl_requests c) \<ge> MAX_ACTIVE_REQUESTS_PER_CONNECTION then (c, Inl LimitExceeded)
      else (c\<lparr>cl_requests := AList.update (namespace_of key)
               \<lparr>aq_deadline = deadline, aq_is_cancelled = False, aq_accepted_read = accepted_read\<rparr>
               (cl_requests c)\<rparr>, Inr ()))"

definition register ::
    "(request_table \<Rightarrow> request_table) \<Rightarrow> active_request_key \<Rightarrow> nat \<Rightarrow> accepted_journal_read option
      \<Rightarrow> nat \<Rightarrow> registry_state \<Rightarrow> registry_state \<times> (active_request_error, unit) result" where
  "register order key deadline accepted_read now =
     with_connection key (register_locked order key deadline accepted_read now)"

definition begin_query where
  "begin_query order key deadline now = register order key deadline None now"

definition accept_read where
  "accept_read order key deadline request now =
     register order key deadline (Some (AcceptedRoot request)) now"

definition accept_volume_read where
  "accept_volume_read order key deadline request now =
     register order key deadline (Some (AcceptedVolume request)) now"

record active_control_guard =
  cg_connection_id :: bytes
  cg_connection_generation :: u64
  cg_is_armed :: bool

definition begin_control ::
    "active_request_key \<Rightarrow> registry_state
      \<Rightarrow> registry_state \<times> (active_request_error, active_control_guard) result" where
  "begin_control key = with_connection key (\<lambda>c.
     if cl_active_controls c \<ge> MAX_CONTROL_REQUESTS_PER_CONNECTION then (c, Inl LimitExceeded)
     else (c\<lparr>cl_active_controls := cl_active_controls c + 1\<rparr>,
       Inr \<lparr>cg_connection_id = ak_connection_id key,
         cg_connection_generation = ak_connection_generation key, cg_is_armed = True\<rparr>))"

definition finish_control :: "bytes \<Rightarrow> u64 \<Rightarrow> registry_state \<Rightarrow> registry_state" where
  "finish_control connection_id generation s = (case map_of (rs_connections s) connection_id of
     None \<Rightarrow> s
   | Some c \<Rightarrow> if cl_generation c = generation
       then s\<lparr>rs_connections := AList.update connection_id
         (c\<lparr>cl_active_controls := cl_active_controls c - 1\<rparr>) (rs_connections s)\<rparr>
       else s)"

definition drop_control_guard ::
    "active_control_guard \<Rightarrow> registry_state \<Rightarrow> registry_state \<times> active_control_guard" where
  "drop_control_guard guard s =
     (if cg_is_armed guard
      then (finish_control (cg_connection_id guard) (cg_connection_generation guard) s,
            guard\<lparr>cg_is_armed := False\<rparr>)
      else (s, guard))"

definition begin_execution ::
    "active_request_key \<Rightarrow> nat \<Rightarrow> registry_state
      \<Rightarrow> registry_state \<times> (active_request_error, accepted_read) result" where
  "begin_execution key now = with_connection key (\<lambda>c.
     let namespace = namespace_of key in
     case map_of (cl_requests c) namespace of
       None \<Rightarrow> (c, Inl NotActive)
     | Some request \<Rightarrow>
         if aq_is_cancelled request
         then (c\<lparr>cl_requests := AList.delete namespace (cl_requests c)\<rparr>, Inl RequestCancelled)
         else if now \<ge> aq_deadline request
         then (c\<lparr>cl_requests := AList.delete namespace (cl_requests c)\<rparr>, Inl RequestTimedOut)
         else (case aq_accepted_read request of
             None \<Rightarrow> (c, Inl NotActive)
           | Some accepted \<Rightarrow>
               (c\<lparr>cl_requests := AList.update namespace
                  (request\<lparr>aq_accepted_read := None\<rparr>) (cl_requests c)\<rparr>,
                Inr \<lparr>ar_request = accepted, ar_deadline = aq_deadline request\<rparr>)))"

definition abort_accepted ::
    "active_request_key \<Rightarrow> nat \<Rightarrow> registry_state
      \<Rightarrow> registry_state \<times> (active_request_error, recorded_terminal) result" where
  "abort_accepted key now = with_connection key (\<lambda>c.
     let namespace = namespace_of key in
     case map_of (cl_requests c) namespace of
       None \<Rightarrow> (c, Inl NotActive)
     | Some request \<Rightarrow>
         if aq_accepted_read request = None then (c, Inl NotActive)
         else let terminal = (if aq_is_cancelled request then TerminalCancelled
             else if now \<ge> aq_deadline request then TerminalTimedOut else TerminalAborted) in
           (c\<lparr>cl_requests := AList.delete namespace (cl_requests c)\<rparr>,
            Inr \<lparr>rt_key = key, rt_terminal = terminal\<rparr>))"

definition reap_accepted ::
    "(request_table \<Rightarrow> request_table) \<Rightarrow> bytes \<Rightarrow> u64 \<Rightarrow> nat \<Rightarrow> registry_state
      \<Rightarrow> registry_state \<times> (active_request_error, terminal_drain) result" where
  "reap_accepted order connection_id generation now =
     (let key = \<lparr>ak_connection_id = connection_id, ak_connection_generation = generation,
        ak_authentication_namespace = replicate 32 0, ak_client_instance = replicate 16 0,
        ak_request_id = 0\<rparr> in
      with_connection key (\<lambda>c.
        let (c, _) = reap_accepted_locked order connection_id generation now c;
            terminals = cl_recorded_terminals c;
            c = c\<lparr>cl_recorded_terminals := []\<rparr> in
        (c, Inr \<lparr>td_terminals = terminals, td_must_close = cl_must_close c\<rparr>)))"

definition cancel_request ::
    "active_request_key \<Rightarrow> registry_state \<Rightarrow> registry_state \<times> (active_request_error, unit) result" where
  "cancel_request key = with_connection key (\<lambda>c.
     case map_of (cl_requests c) (namespace_of key) of
       None \<Rightarrow> (c, Inl NotActive)
     | Some request \<Rightarrow> (c\<lparr>cl_requests := AList.update (namespace_of key)
         (request\<lparr>aq_is_cancelled := True\<rparr>) (cl_requests c)\<rparr>, Inr ()))"

definition check_request ::
    "active_request_key \<Rightarrow> nat \<Rightarrow> registry_state \<Rightarrow> (active_request_error, unit) result" where
  "check_request key now s = bind_result (connection_ref s key) (\<lambda>c.
     case map_of (cl_requests c) (namespace_of key) of
       None \<Rightarrow> Inl NotActive
     | Some request \<Rightarrow> if aq_is_cancelled request then Inl RequestCancelled
         else if now \<ge> aq_deadline request then Inl RequestTimedOut else Inr ())"

definition finish_request ::
    "active_request_key \<Rightarrow> nat \<Rightarrow> registry_state
      \<Rightarrow> registry_state \<times> (active_request_error, request_terminal) result" where
  "finish_request key now = with_connection key (\<lambda>c.
     case map_of (cl_requests c) (namespace_of key) of
       None \<Rightarrow> (c, Inl NotActive)
     | Some request \<Rightarrow> (c\<lparr>cl_requests := AList.delete (namespace_of key) (cl_requests c)\<rparr>,
         Inr (if aq_is_cancelled request then TerminalCancelled
              else if now \<ge> aq_deadline request then TerminalTimedOut else TerminalCompleted)))"

definition disconnect :: "bytes \<Rightarrow> u64 \<Rightarrow> registry_state \<Rightarrow> registry_state" where
  "disconnect connection_id generation s = (case map_of (rs_connections s) connection_id of
     None \<Rightarrow> s
   | Some c \<Rightarrow> if cl_generation c = generation
       then s\<lparr>rs_connections := AList.delete connection_id (rs_connections s)\<rparr> else s)"

section \<open>Interleavings\<close>

text \<open>
  One locked operation of any thread. Reads of the registry (\<open>check\<close>) do not change it and are not
  steps.
\<close>

inductive registry_step :: "(request_table \<Rightarrow> request_table) \<Rightarrow> registry_state \<Rightarrow> registry_state \<Rightarrow> bool"
  for order where
  step_open: "registry_step order s (fst (open_connection i g s))"
| step_register: "registry_step order s (fst (register order key deadline accepted now s))"
| step_begin_control: "registry_step order s (fst (begin_control key s))"
| step_drop_control: "registry_step order s (fst (drop_control_guard guard s))"
| step_begin_execution: "registry_step order s (fst (begin_execution key now s))"
| step_abort: "registry_step order s (fst (abort_accepted key now s))"
| step_reap: "registry_step order s (fst (reap_accepted order i g now s))"
| step_cancel: "registry_step order s (fst (cancel_request key s))"
| step_finish: "registry_step order s (fst (finish_request key now s))"
| step_disconnect: "registry_step order s (disconnect i g s)"

inductive_cases registry_stepE: "registry_step order s s'"

definition reachable_registry :: "(request_table \<Rightarrow> request_table) \<Rightarrow> registry_state \<Rightarrow> bool" where
  "reachable_registry order s \<longleftrightarrow> (registry_step order)\<^sup>*\<^sup>* registry_default s"

section \<open>The table contract\<close>

text \<open>What the registry relies on of a \<open>HashMap\<close>, kept by association lists with distinct keys.\<close>

locale hash_table =
  fixes get :: "'m \<Rightarrow> 'k \<Rightarrow> 'v option" and insert_at :: "'k \<Rightarrow> 'v \<Rightarrow> 'm \<Rightarrow> 'm"
    and remove_at :: "'k \<Rightarrow> 'm \<Rightarrow> 'm" and wf :: "'m \<Rightarrow> bool" and count :: "'m \<Rightarrow> nat"
  assumes get_insert: "get (insert_at k v m) k' = (if k' = k then Some v else get m k')"
    and get_remove: "get (remove_at k m) k' = (if k' = k then None else get m k')"
    and wf_insert: "wf m \<Longrightarrow> wf (insert_at k v m)"
    and wf_remove: "wf m \<Longrightarrow> wf (remove_at k m)"
    and count_insert: "count (insert_at k v m) = (if get m k = None then Suc (count m) else count m)"
    and count_remove: "count (remove_at k m) \<le> count m"
begin

lemma get_insert_same [simp]: "get (insert_at k v m) k = Some v"
  by (simp add: get_insert)

lemma get_insert_other: "k' \<noteq> k \<Longrightarrow> get (insert_at k v m) k' = get m k'"
  by (simp add: get_insert)

lemma replace_keeps_count: "get m k \<noteq> None \<Longrightarrow> count (insert_at k v m) = count m"
  by (simp add: count_insert)

end

lemma length_alist_update:
  "length (AList.update k v al) = (if map_of al k = None then Suc (length al) else length al)"
  by (induction al) (auto split: if_splits)

lemma alist_hash_table:
  "hash_table map_of AList.update AList.delete (\<lambda>m. distinct (map fst m)) length"
  by unfold_locales
    (auto simp: update_conv' delete_conv' distinct_update distinct_delete length_alist_update
      length_delete_le)

interpretation requests: hash_table
  "map_of :: request_table \<Rightarrow> _" AList.update AList.delete "\<lambda>m. distinct (map fst m)" length
  by (rule alist_hash_table)

interpretation connections: hash_table
  "map_of :: (bytes \<times> connection_lifecycle) list \<Rightarrow> _" AList.update AList.delete
  "\<lambda>m. distinct (map fst m)" length
  by (rule alist_hash_table)

section \<open>The invariant\<close>

definition connection_inv :: "connection_lifecycle \<Rightarrow> bool" where
  "connection_inv c \<longleftrightarrow> distinct (map fst (cl_requests c))
     \<and> length (cl_requests c) \<le> MAX_ACTIVE_REQUESTS_PER_CONNECTION
     \<and> cl_active_controls c \<le> MAX_CONTROL_REQUESTS_PER_CONNECTION
     \<and> length (cl_recorded_terminals c) \<le> MAX_RECORDED_TERMINALS_PER_CONNECTION
     \<and> (length (cl_recorded_terminals c) = MAX_RECORDED_TERMINALS_PER_CONNECTION
        \<longrightarrow> cl_must_close c)
     \<and> cl_generation c \<noteq> 0"

definition registry_inv :: "registry_state \<Rightarrow> bool" where
  "registry_inv s \<longleftrightarrow> distinct (map fst (rs_connections s))
     \<and> (\<forall>i c. map_of (rs_connections s) i = Some c \<longrightarrow> i \<noteq> replicate 16 0 \<and> connection_inv c)"

lemma record_terminal_inv:
  "connection_inv c \<Longrightarrow> connection_inv (fst (record_terminal key t c))"
  by (auto simp: record_terminal_def connection_inv_def Let_def
      MAX_RECORDED_TERMINALS_PER_CONNECTION_def)

lemma connection_inv_remove:
  "connection_inv c \<Longrightarrow> connection_inv (c\<lparr>cl_requests := AList.delete n (cl_requests c)\<rparr>)"
  using requests.count_remove [of n "cl_requests c"]
  by (simp add: connection_inv_def distinct_delete)

lemma connection_inv_replace:
  "connection_inv c \<Longrightarrow> map_of (cl_requests c) n = Some q \<Longrightarrow>
   connection_inv (c\<lparr>cl_requests := AList.update n q' (cl_requests c)\<rparr>)"
  by (simp add: connection_inv_def distinct_update length_alist_update)

lemma record_stale_inv:
  "connection_inv c \<Longrightarrow> connection_inv (fst (record_stale i g stale c))"
proof (induction stale arbitrary: c)
  case Nil
  then show ?case by simp
next
  case (Cons e stale)
  obtain n t where e: "e = (n, t)" by (cases e)
  obtain c1 b where rt: "record_terminal (key_of i g n) t c = (c1, b)" by fastforce
  with Cons.prems have c1: "connection_inv c1" using record_terminal_inv by (metis fst_conv)
  obtain c2 r where rs: "record_stale i g stale (c1\<lparr>cl_requests := AList.delete n (cl_requests c1)\<rparr>) = (c2, r)"
    by fastforce
  with Cons.IH [OF connection_inv_remove [OF c1]] have "connection_inv c2" by (metis fst_conv)
  with c1 e rt rs show ?case by (simp add: Let_def)
qed

lemma reap_accepted_locked_inv:
  "connection_inv c \<Longrightarrow> connection_inv (fst (reap_accepted_locked order i g now c))"
  by (simp add: reap_accepted_locked_def record_stale_inv)

lemma registry_invD:
  "registry_inv s \<Longrightarrow> map_of (rs_connections s) i = Some c \<Longrightarrow> i \<noteq> replicate 16 0 \<and> connection_inv c"
  by (simp add: registry_inv_def del: map_of_eq_Some_iff)

lemma registry_inv_put:
  assumes "registry_inv s" and "i \<noteq> replicate 16 0" and "connection_inv c"
  shows "registry_inv (s\<lparr>rs_connections := AList.update i c (rs_connections s)\<rparr>)"
  using assms
  by (simp add: registry_inv_def connections.wf_insert connections.get_insert
      del: map_of_eq_Some_iff)

lemma registry_inv_drop:
  "registry_inv s \<Longrightarrow> registry_inv (s\<lparr>rs_connections := AList.delete i (rs_connections s)\<rparr>)"
  by (simp add: registry_inv_def connections.wf_remove connections.get_remove
      del: map_of_eq_Some_iff)

lemma with_connection_inv:
  assumes "registry_inv s" and "\<And>c. connection_inv c \<Longrightarrow> connection_inv (fst (body c))"
  shows "registry_inv (fst (with_connection key body s))"
proof (cases "connection_ref s key")
  case (Inl e)
  with assms(1) show ?thesis by (simp add: with_connection_def)
next
  case (Inr c)
  then have c: "map_of (rs_connections s) (ak_connection_id key) = Some c"
    by (auto simp: connection_ref_def split: option.splits if_splits)
  obtain c' r where b: "body c = (c', r)" by fastforce
  with assms c have "connection_inv c'" by (metis fst_conv registry_invD)
  with assms(1) Inr b c show ?thesis
    by (auto simp: with_connection_def intro!: registry_inv_put dest: registry_invD)
qed

lemma register_locked_inv:
  assumes "connection_inv c"
  shows "connection_inv (fst (register_locked order key d a now c))"
proof -
  obtain c1 r where r: "reap_accepted_locked order (ak_connection_id key)
      (ak_connection_generation key) now c = (c1, r)" by fastforce
  with assms have "connection_inv c1" using reap_accepted_locked_inv by (metis fst_conv)
  then show ?thesis
    by (auto simp: register_locked_def r connection_inv_def distinct_update length_alist_update)
qed

text \<open>Every operation keeps the invariant.\<close>

lemma open_connection_inv: "registry_inv s \<Longrightarrow> registry_inv (fst (open_connection i g s))"
  by (auto simp: open_connection_def connection_new_def connection_inv_def
      MAX_RECORDED_TERMINALS_PER_CONNECTION_def split: option.splits intro!: registry_inv_put)

lemma register_inv: "registry_inv s \<Longrightarrow> registry_inv (fst (register order key d a now s))"
  by (simp add: register_def with_connection_inv register_locked_inv)

lemma begin_control_inv: "registry_inv s \<Longrightarrow> registry_inv (fst (begin_control key s))"
  unfolding begin_control_def
  by (rule with_connection_inv) (auto simp: connection_inv_def)

lemma connection_inv_control_ends:
  "connection_inv c \<Longrightarrow> connection_inv (c\<lparr>cl_active_controls := cl_active_controls c - Suc 0\<rparr>)"
  by (auto simp: connection_inv_def)

lemma finish_control_inv: "registry_inv s \<Longrightarrow> registry_inv (finish_control i g s)"
  by (auto simp: finish_control_def split: option.splits
      intro!: registry_inv_put connection_inv_control_ends dest: registry_invD)

lemma drop_control_guard_inv: "registry_inv s \<Longrightarrow> registry_inv (fst (drop_control_guard guard s))"
  by (simp add: drop_control_guard_def finish_control_inv)

lemma begin_execution_inv: "registry_inv s \<Longrightarrow> registry_inv (fst (begin_execution key now s))"
  unfolding begin_execution_def
  by (rule with_connection_inv)
    (auto simp: Let_def split: option.splits intro: connection_inv_remove connection_inv_replace)

lemma abort_accepted_inv: "registry_inv s \<Longrightarrow> registry_inv (fst (abort_accepted key now s))"
  unfolding abort_accepted_def
  by (rule with_connection_inv) (auto simp: Let_def split: option.splits intro: connection_inv_remove)

lemma reap_accepted_inv: "registry_inv s \<Longrightarrow> registry_inv (fst (reap_accepted order i g now s))"
  unfolding reap_accepted_def Let_def
proof (rule with_connection_inv)
  fix c
  assume "connection_inv c"
  then have "connection_inv (fst (reap_accepted_locked order i g now c))"
    by (rule reap_accepted_locked_inv)
  then show "connection_inv (fst (case reap_accepted_locked order i g now c of (c, _) \<Rightarrow>
      (c\<lparr>cl_recorded_terminals := []\<rparr>, Inr \<lparr>td_terminals = cl_recorded_terminals c,
        td_must_close = cl_must_close (c\<lparr>cl_recorded_terminals := []\<rparr>)\<rparr>)))"
    by (auto simp: connection_inv_def MAX_RECORDED_TERMINALS_PER_CONNECTION_def split: prod.splits)
qed simp

lemma cancel_request_inv: "registry_inv s \<Longrightarrow> registry_inv (fst (cancel_request key s))"
  unfolding cancel_request_def
  by (rule with_connection_inv) (auto split: option.splits intro: connection_inv_replace)

lemma finish_request_inv: "registry_inv s \<Longrightarrow> registry_inv (fst (finish_request key now s))"
  unfolding finish_request_def
  by (rule with_connection_inv) (auto split: option.splits intro: connection_inv_remove)

lemma disconnect_inv: "registry_inv s \<Longrightarrow> registry_inv (disconnect i g s)"
  by (auto simp: disconnect_def split: option.splits intro: registry_inv_drop)

lemma registry_step_inv: "registry_step order s s' \<Longrightarrow> registry_inv s \<Longrightarrow> registry_inv s'"
  by (induction rule: registry_step.induct)
    (simp_all add: open_connection_inv register_inv begin_control_inv drop_control_guard_inv
      begin_execution_inv abort_accepted_inv reap_accepted_inv cancel_request_inv
      finish_request_inv disconnect_inv)

lemma reachable_registry_inv:
  assumes "reachable_registry order s"
  shows "registry_inv s"
  using assms unfolding reachable_registry_def
proof (induction rule: rtranclp_induct)
  case base
  then show ?case by (simp add: registry_inv_def registry_default_def)
next
  case (step s s')
  then show ?case by (blast intro: registry_step_inv)
qed

section \<open>Reaping\<close>

lemma namespace_of_key_of [simp]: "namespace_of (key_of i g n) = n"
  by (simp add: namespace_of_def key_of_def)

lemma stale_requests_eq:
  "stale_requests now xs = map (\<lambda>(n, q). (n, the (stale_terminal now q)))
     (filter (\<lambda>(n, q). stale_terminal now q \<noteq> None) xs)"
  by (induction now xs rule: stale_requests.induct) (auto split: option.splits)

text \<open>What a reaping pass records, it removes; it stops only when the terminal queue is full.\<close>

lemma record_stale_effect:
  assumes "record_stale i g stale c = (c', recorded)"
    and "length (cl_recorded_terminals c) \<le> MAX_RECORDED_TERMINALS_PER_CONNECTION"
  shows "\<exists>k \<le> length stale.
      recorded = map (\<lambda>(n, t). \<lparr>rt_key = key_of i g n, rt_terminal = t\<rparr>) (take k stale)
    \<and> cl_requests c' = filter (\<lambda>(n, q). n \<notin> fst ` set (take k stale)) (cl_requests c)
    \<and> cl_recorded_terminals c' = cl_recorded_terminals c @ recorded
    \<and> cl_generation c' = cl_generation c \<and> cl_active_controls c' = cl_active_controls c
    \<and> (k < length stale \<longrightarrow> cl_must_close c')
    \<and> (cl_must_close c \<longrightarrow> cl_must_close c')"
  using assms
proof (induction stale arbitrary: c recorded)
  case Nil
  then show ?case by (auto simp: filter_id_conv)
next
  case (Cons e stale)
  obtain n t where e: "e = (n, t)" by (cases e)
  show ?case
  proof (cases "length (cl_recorded_terminals c) = MAX_RECORDED_TERMINALS_PER_CONNECTION")
    case True
    with Cons.prems(1) e have "c' = c\<lparr>cl_must_close := True\<rparr>" "recorded = []"
      by (simp_all add: record_terminal_def)
    then show ?thesis by (intro exI [of _ 0]) (simp add: filter_id_conv split_def)
  next
    case False
    define c1 where "c1 = fst (record_terminal (key_of i g n) t c)"
    have c1: "record_terminal (key_of i g n) t c = (c1, True)"
      "cl_requests c1 = cl_requests c" "cl_generation c1 = cl_generation c"
      "cl_active_controls c1 = cl_active_controls c"
      "cl_recorded_terminals c1 = cl_recorded_terminals c @ [\<lparr>rt_key = key_of i g n, rt_terminal = t\<rparr>]"
      "cl_must_close c \<longrightarrow> cl_must_close c1"
      using False by (auto simp: c1_def record_terminal_def Let_def)
    define c2 where "c2 = c1\<lparr>cl_requests := AList.delete n (cl_requests c)\<rparr>"
    obtain rest where r: "record_stale i g stale c2 = (c', rest)"
      "recorded = \<lparr>rt_key = key_of i g n, rt_terminal = t\<rparr> # rest"
      using Cons.prems(1) e c1(1,2) by (auto simp: Let_def c2_def split: prod.splits)
    have "length (cl_recorded_terminals c2) \<le> MAX_RECORDED_TERMINALS_PER_CONNECTION"
      using Cons.prems(2) False c1(5) by (simp add: c2_def)
    from Cons.IH [OF r(1) this] obtain k where k: "k \<le> length stale"
      "rest = map (\<lambda>(n, t). \<lparr>rt_key = key_of i g n, rt_terminal = t\<rparr>) (take k stale)"
      "cl_requests c' = filter (\<lambda>(n, q). n \<notin> fst ` set (take k stale)) (cl_requests c2)"
      "cl_recorded_terminals c' = cl_recorded_terminals c2 @ rest"
      "cl_generation c' = cl_generation c2" "cl_active_controls c' = cl_active_controls c2"
      "k < length stale \<longrightarrow> cl_must_close c'" "cl_must_close c2 \<longrightarrow> cl_must_close c'"
      by blast
    have "cl_requests c' = filter (\<lambda>(n', q). n' \<notin> fst ` set (take (Suc k) (e # stale))) (cl_requests c)"
      using k(3) by (auto simp: c2_def AList.delete_eq e split_def intro!: filter_cong)
    then show ?thesis
      using k r(2) c1 e by (intro exI [of _ "Suc k"]) (simp add: c2_def)
  qed
qed

lemma stale_requests_names:
  "map fst (stale_requests now xs) = map fst (filter (\<lambda>(n, q). stale_terminal now q \<noteq> None) xs)"
  by (simp add: stale_requests_eq split_def comp_def)

lemma stale_requests_iff:
  assumes "distinct (map fst xs)"
  shows "(n, t) \<in> set (stale_requests now xs) \<longleftrightarrow>
    (\<exists>q. map_of xs n = Some q \<and> stale_terminal now q = Some t)"
  using assms by (force simp: stale_requests_eq)

lemma map_of_filter_keys:
  "map_of (filter (\<lambda>(n, q). n \<notin> A) xs) n = (if n \<in> A then None else map_of xs n)"
  by (induction xs) auto

lemma mset_filter_keys:
  assumes "distinct (map fst xs)" and "distinct ns" and "set ns \<subseteq> fst ` set xs"
  shows "mset (map fst xs) = mset (map fst (filter (\<lambda>(n, q). n \<notin> set ns) xs)) + mset ns"
proof -
  have "mset (map fst (filter (\<lambda>(n, q). n \<notin> set ns) xs) @ ns) = mset (map fst xs)"
  proof (rule iffD1 [OF set_eq_iff_mset_eq_distinct])
    show "distinct (map fst (filter (\<lambda>(n, q). n \<notin> set ns) xs) @ ns)"
      using assms by (auto intro: distinct_map_filter)
    show "distinct (map fst xs)" by (rule assms(1))
    show "set (map fst (filter (\<lambda>(n, q). n \<notin> set ns) xs) @ ns) = set (map fst xs)"
      using assms(3) by force
  qed
  then show ?thesis by simp
qed

text \<open>A reaping pass as a whole, in whatever order the table is iterated.\<close>

lemma reap_locked_removes:
  assumes "connection_inv c" and "\<And>xs. mset (order xs) = mset xs"
    and "reap_accepted_locked order i g now c = (c', recorded)"
  obtains stale k where "distinct (map fst stale)" and "k \<le> length stale"
    and "\<forall>n t. (n, t) \<in> set stale \<longleftrightarrow>
      (\<exists>q. map_of (cl_requests c) n = Some q \<and> stale_terminal now q = Some t)"
    and "recorded = map (\<lambda>(n, t). \<lparr>rt_key = key_of i g n, rt_terminal = t\<rparr>) (take k stale)"
    and "cl_requests c' = filter (\<lambda>(n, q). n \<notin> set (map fst (take k stale))) (cl_requests c)"
    and "cl_recorded_terminals c' = cl_recorded_terminals c @ recorded"
    and "cl_generation c' = cl_generation c" and "k < length stale \<longrightarrow> cl_must_close c'"
proof -
  let ?xs = "order (cl_requests c)"
  have perm: "mset ?xs = mset (cl_requests c)" by (rule assms(2))
  have dist: "distinct (map fst (cl_requests c))" using assms(1) by (simp add: connection_inv_def)
  have "mset (map fst ?xs) = mset (map fst (cl_requests c))" using perm by simp
  with dist have dist': "distinct (map fst ?xs)" by (metis mset_eq_imp_distinct_iff)
  have get: "map_of ?xs n = map_of (cl_requests c) n" for n
    using dist dist' perm by (metis (no_types, lifting) map_of_inject_set set_mset_mset)
  have ds: "distinct (map fst (stale_requests now ?xs))"
    unfolding stale_requests_names using dist' by (rule distinct_map_filter)
  have "record_stale i g (stale_requests now ?xs) c = (c', recorded)"
    "length (cl_recorded_terminals c) \<le> MAX_RECORDED_TERMINALS_PER_CONNECTION"
    using assms(1,3) by (simp_all add: reap_accepted_locked_def connection_inv_def)
  from record_stale_effect [OF this] stale_requests_iff [OF dist', unfolded get] ds show ?thesis
    by (elim exE conjE) (rule that, auto)
qed

lemma reap_locked_accounts:
  assumes "connection_inv c" and "\<And>xs. mset (order xs) = mset xs"
    and "reap_accepted_locked order i g now c = (c', recorded)"
  shows "mset (map fst (cl_requests c)) =
      mset (map fst (cl_requests c')) + mset (map (namespace_of \<circ> rt_key) recorded)"
    and "\<And>t. t \<in> set recorded \<Longrightarrow> \<exists>q. map_of (cl_requests c) (namespace_of (rt_key t)) = Some q
      \<and> stale_terminal now q = Some (rt_terminal t)"
proof -
  obtain stale k where st: "distinct (map fst stale)" "k \<le> length stale"
    "\<forall>n t. (n, t) \<in> set stale \<longleftrightarrow>
      (\<exists>q. map_of (cl_requests c) n = Some q \<and> stale_terminal now q = Some t)"
    "recorded = map (\<lambda>(n, t). \<lparr>rt_key = key_of i g n, rt_terminal = t\<rparr>) (take k stale)"
    "cl_requests c' = filter (\<lambda>(n, q). n \<notin> set (map fst (take k stale))) (cl_requests c)"
    "cl_recorded_terminals c' = cl_recorded_terminals c @ recorded"
    "cl_generation c' = cl_generation c" "k < length stale \<longrightarrow> cl_must_close c'"
    by (rule reap_locked_removes [OF assms])
  have names: "map (namespace_of \<circ> rt_key) recorded = map fst (take k stale)"
    by (simp add: st(4) split_def comp_def)
  have "set (map fst (take k stale)) \<subseteq> fst ` set (cl_requests c)"
    using st(3) by (force dest!: in_set_takeD map_of_SomeD)
  moreover have "distinct (map fst (cl_requests c))" using assms(1) by (simp add: connection_inv_def)
  moreover have "distinct (map fst (take k stale))" using st(1) by (simp add: take_map [symmetric])
  ultimately show "mset (map fst (cl_requests c)) =
      mset (map fst (cl_requests c')) + mset (map (namespace_of \<circ> rt_key) recorded)"
    unfolding names st(5) by (intro mset_filter_keys)
  show "\<exists>q. map_of (cl_requests c) (namespace_of (rt_key t)) = Some q
      \<and> stale_terminal now q = Some (rt_terminal t)" if "t \<in> set recorded" for t
    using that st(3) unfolding st(4) by (force dest: in_set_takeD)
qed

lemma reap_locked_keeps:
  assumes "connection_inv c" and "\<And>xs. mset (order xs) = mset xs"
    and "reap_accepted_locked order i g now c = (c', recorded)"
  shows "map_of (cl_requests c') n = Some q \<Longrightarrow> map_of (cl_requests c) n = Some q"
    and "map_of (cl_requests c) n = Some q \<Longrightarrow> stale_terminal now q = None \<Longrightarrow>
      map_of (cl_requests c') n = Some q"
    and "\<not> cl_must_close c' \<Longrightarrow> map_of (cl_requests c') n = Some q \<Longrightarrow> stale_terminal now q = None"
    and "cl_recorded_terminals c' = cl_recorded_terminals c @ recorded"
    and "cl_generation c' = cl_generation c"
proof -
  obtain stale k where st: "distinct (map fst stale)" "k \<le> length stale"
    "\<forall>n t. (n, t) \<in> set stale \<longleftrightarrow>
      (\<exists>q. map_of (cl_requests c) n = Some q \<and> stale_terminal now q = Some t)"
    "recorded = map (\<lambda>(n, t). \<lparr>rt_key = key_of i g n, rt_terminal = t\<rparr>) (take k stale)"
    "cl_requests c' = filter (\<lambda>(n, q). n \<notin> set (map fst (take k stale))) (cl_requests c)"
    "cl_recorded_terminals c' = cl_recorded_terminals c @ recorded"
    "cl_generation c' = cl_generation c" "k < length stale \<longrightarrow> cl_must_close c'"
    by (rule reap_locked_removes [OF assms])
  from st(6,7) show "cl_recorded_terminals c' = cl_recorded_terminals c @ recorded"
    "cl_generation c' = cl_generation c" .
  have get: "map_of (cl_requests c') n =
      (if n \<in> set (map fst (take k stale)) then None else map_of (cl_requests c) n)" for n
    unfolding st(5) by (rule map_of_filter_keys)
  show "map_of (cl_requests c') n = Some q \<Longrightarrow> map_of (cl_requests c) n = Some q"
    by (simp add: get split: if_splits)
  show "map_of (cl_requests c') n = Some q"
    if "map_of (cl_requests c) n = Some q" "stale_terminal now q = None"
    using that st(3) by (force simp: get dest!: in_set_takeD)
  show "stale_terminal now q = None" if "\<not> cl_must_close c'" "map_of (cl_requests c') n = Some q"
  proof -
    have "k = length stale" using that(1) st(2,8) by fastforce
    with that(2) have "map_of (cl_requests c) n = Some q" "n \<notin> fst ` set stale"
      by (simp_all add: get split: if_splits)
    with st(3) show ?thesis by (metis fst_conv image_eqI not_Some_eq)
  qed
qed

section \<open>The life of one request\<close>

definition request_at :: "registry_state \<Rightarrow> active_request_key \<Rightarrow> active_request option" where
  "request_at s key = (case connection_ref s key of
     Inl e \<Rightarrow> None | Inr c \<Rightarrow> map_of (cl_requests c) (namespace_of key))"

text \<open>A step of any thread after which the request is still registered.\<close>

definition kept_step ::
    "(request_table \<Rightarrow> request_table) \<Rightarrow> active_request_key \<Rightarrow> registry_state \<Rightarrow> registry_state \<Rightarrow> bool" where
  "kept_step order key s s' \<longleftrightarrow> registry_step order s s' \<and> request_at s' key \<noteq> None"

text \<open>How a request that has started may change while it stays registered.\<close>

definition started_after :: "active_request \<Rightarrow> active_request \<Rightarrow> bool" where
  "started_after q q' \<longleftrightarrow> aq_accepted_read q' = None \<and> aq_deadline q' = aq_deadline q
     \<and> (aq_is_cancelled q \<longrightarrow> aq_is_cancelled q')"

lemma request_at_eq:
  "request_at s key = (case map_of (rs_connections s) (ak_connection_id key) of
     None \<Rightarrow> None
   | Some c \<Rightarrow> if cl_generation c = ak_connection_generation key
       then map_of (cl_requests c) (namespace_of key) else None)"
  by (simp add: request_at_def connection_ref_def split: option.splits)

lemma request_at_Some:
  "request_at s key = Some q \<longleftrightarrow> (\<exists>c. map_of (rs_connections s) (ak_connection_id key) = Some c
     \<and> cl_generation c = ak_connection_generation key
     \<and> map_of (cl_requests c) (namespace_of key) = Some q)"
  by (auto simp: request_at_eq split: option.splits if_splits)

lemma request_at_update:
  "request_at (s\<lparr>rs_connections := AList.update i c (rs_connections s)\<rparr>) key =
    (if i = ak_connection_id key
     then if cl_generation c = ak_connection_generation key
          then map_of (cl_requests c) (namespace_of key) else None
     else request_at s key)"
  by (auto simp: request_at_eq update_conv')

lemma request_at_delete:
  "request_at (s\<lparr>rs_connections := AList.delete i (rs_connections s)\<rparr>) key =
    (if i = ak_connection_id key then None else request_at s key)"
  by (auto simp: request_at_eq delete_conv')

lemma finish_control_request_at: "request_at (finish_control i g s) key = request_at s key"
  by (auto simp: finish_control_def request_at_eq update_conv' split: option.splits)

lemma connection_ref_Inr:
  "connection_ref s key = Inr c \<longleftrightarrow> map_of (rs_connections s) (ak_connection_id key) = Some c
     \<and> cl_generation c = ak_connection_generation key"
  by (auto simp: connection_ref_def split: option.splits if_splits)

text \<open>What an operation on one connection does to a started request follows from its body.\<close>

definition body_keeps_started ::
    "request_namespace \<Rightarrow> (connection_lifecycle \<Rightarrow> connection_lifecycle \<times> 'r) \<Rightarrow> bool" where
  "body_keeps_started n body \<longleftrightarrow> (\<forall>c q q'. connection_inv c \<longrightarrow>
     map_of (cl_requests c) n = Some q \<longrightarrow> aq_accepted_read q = None \<longrightarrow>
     map_of (cl_requests (fst (body c))) n = Some q' \<longrightarrow> started_after q q')"

lemma with_connection_started:
  assumes "registry_inv s" and "body_keeps_started (namespace_of key) body"
    and "request_at s key = Some q" and "aq_accepted_read q = None"
    and "request_at (fst (with_connection k body s)) key = Some q'"
  shows "started_after q q'"
proof (cases "connection_ref s k")
  case (Inl e)
  with assms(3-5) show ?thesis by (simp add: with_connection_def started_after_def)
next
  case (Inr ck)
  obtain c' r where b: "body ck = (c', r)" by fastforce
  show ?thesis
  proof (cases "ak_connection_id k = ak_connection_id key")
    case True
    with assms(3) Inr have q: "map_of (cl_requests ck) (namespace_of key) = Some q"
      and inv: "connection_inv ck"
      using registry_invD [OF assms(1)] by (auto simp: request_at_Some connection_ref_Inr)
    from assms(5) Inr b True have "map_of (cl_requests c') (namespace_of key) = Some q'"
      by (auto simp: with_connection_def request_at_update split: if_splits)
    with assms(2,4) q inv b show ?thesis by (metis body_keeps_started_def fst_conv)
  next
    case False
    with assms(3-5) Inr b show ?thesis
      by (simp add: with_connection_def request_at_update started_after_def)
  qed
qed

lemma started_not_stale: "aq_accepted_read q = None \<Longrightarrow> stale_terminal now q = None"
  by (simp add: stale_terminal_def)

lemma register_keeps_started:
  assumes "\<And>xs. mset (order xs) = mset xs"
  shows "body_keeps_started n (register_locked order key d a now)"
  unfolding body_keeps_started_def
proof (intro allI impI)
  fix c q q'
  assume inv: "connection_inv c" and q: "map_of (cl_requests c) n = Some q" "aq_accepted_read q = None"
    and q': "map_of (cl_requests (fst (register_locked order key d a now c))) n = Some q'"
  obtain c1 r where r: "reap_accepted_locked order (ak_connection_id key)
      (ak_connection_generation key) now c = (c1, r)" by fastforce
  have "map_of (cl_requests c1) n = Some q"
    using reap_locked_keeps(2) [OF inv assms r q(1) started_not_stale [OF q(2)]] .
  with q' q(2) show "started_after q q'"
    by (auto simp: register_locked_def r started_after_def update_conv'
        simp del: map_of_eq_Some_iff split: if_splits)
qed

lemma reap_keeps_started:
  assumes "\<And>xs. mset (order xs) = mset xs"
  shows "body_keeps_started n (\<lambda>c. let (c, _) = reap_accepted_locked order i g now c;
      terminals = cl_recorded_terminals c; c = c\<lparr>cl_recorded_terminals := []\<rparr> in
    (c, Inr \<lparr>td_terminals = terminals, td_must_close = cl_must_close c\<rparr>))"
  unfolding body_keeps_started_def
proof (intro allI impI, goal_cases)
  case (1 c q q')
  obtain c1 r where r: "reap_accepted_locked order i g now c = (c1, r)" by fastforce
  from reap_locked_keeps(1) [OF 1(1) assms r, of n q'] 1 r show ?case
    by (simp add: started_after_def Let_def)
qed

lemma registry_step_started:
  assumes perm: "\<And>xs. mset (order xs) = mset xs" and "registry_step order s s'"
    and inv: "registry_inv s" and q: "request_at s key = Some q" "aq_accepted_read q = None"
    and q': "request_at s' key = Some q'"
  shows "started_after q q'"
  using assms(2)
proof (cases rule: registry_step.cases)
  case (step_open i g)
  show ?thesis
  proof (cases "map_of (rs_connections s) i")
    case None
    with q have "i \<noteq> ak_connection_id key" by (auto simp: request_at_Some)
    with None q q' step_open show ?thesis
      by (auto simp: open_connection_def request_at_update started_after_def split: if_splits)
  next
    case (Some c)
    with q q' step_open show ?thesis
      by (auto simp: open_connection_def started_after_def split: if_splits)
  qed
next
  case (step_register k d a now)
  show ?thesis
    by (rule with_connection_started [OF inv register_keeps_started [OF perm] q
          q' [unfolded step_register register_def]])
next
  case (step_begin_control k)
  show ?thesis
    by (rule with_connection_started [OF inv _ q q' [unfolded step_begin_control begin_control_def]])
      (auto simp: body_keeps_started_def started_after_def update_conv' delete_conv' Let_def
        simp del: map_of_eq_Some_iff split: option.splits if_splits)
next
  case (step_drop_control guard)
  with q q' show ?thesis
    by (auto simp: drop_control_guard_def finish_control_request_at started_after_def split: if_splits)
next
  case (step_begin_execution k now)
  show ?thesis
    by (rule with_connection_started [OF inv _ q q' [unfolded step_begin_execution begin_execution_def]])
      (auto simp: body_keeps_started_def started_after_def update_conv' delete_conv' Let_def
        simp del: map_of_eq_Some_iff split: option.splits if_splits)
next
  case (step_abort k now)
  show ?thesis
    by (rule with_connection_started [OF inv _ q q' [unfolded step_abort abort_accepted_def]])
      (auto simp: body_keeps_started_def started_after_def update_conv' delete_conv' Let_def
        simp del: map_of_eq_Some_iff split: option.splits if_splits)
next
  case (step_reap i g now)
  show ?thesis
    by (rule with_connection_started [OF inv reap_keeps_started [OF perm] q
          q' [unfolded step_reap reap_accepted_def Let_def [of "\<lparr>ak_connection_id = i,
            ak_connection_generation = g, ak_authentication_namespace = replicate 32 0,
            ak_client_instance = replicate 16 0, ak_request_id = 0\<rparr>"]]])
next
  case (step_cancel k)
  show ?thesis
    by (rule with_connection_started [OF inv _ q q' [unfolded step_cancel cancel_request_def]])
      (auto simp: body_keeps_started_def started_after_def update_conv' delete_conv' Let_def
        simp del: map_of_eq_Some_iff split: option.splits if_splits)
next
  case (step_finish k now)
  show ?thesis
    by (rule with_connection_started [OF inv _ q q' [unfolded step_finish finish_request_def]])
      (auto simp: body_keeps_started_def started_after_def update_conv' delete_conv' Let_def
        simp del: map_of_eq_Some_iff split: option.splits if_splits)
next
  case (step_disconnect i g)
  with q q' show ?thesis
    by (auto simp: disconnect_def request_at_delete started_after_def split: if_splits option.splits)
qed

lemma kept_steps_started:
  assumes perm: "\<And>xs. mset (order xs) = mset xs" and "(kept_step order key)\<^sup>*\<^sup>* s s'"
    and "registry_inv s" and "request_at s key = Some q" and "aq_accepted_read q = None"
  shows "registry_inv s' \<and> (\<exists>q'. request_at s' key = Some q' \<and> started_after q q')"
  using assms(2)
proof (induction rule: rtranclp_induct)
  case base
  with assms(3-5) show ?case by (simp add: started_after_def)
next
  case (step s1 s2)
  then obtain q1 q2 where q1: "request_at s1 key = Some q1" "started_after q q1"
    and q2: "request_at s2 key = Some q2" and st: "registry_step order s1 s2" and inv: "registry_inv s1"
    by (auto simp: kept_step_def)
  from q1(2) have "aq_accepted_read q1 = None" by (simp add: started_after_def)
  with registry_step_started [OF perm st inv q1(1) _ q2] have "started_after q1 q2" by simp
  with q1(2) q2 registry_step_inv [OF st inv] show ?case by (auto simp: started_after_def)
qed

lemma begin_execution_started:
  assumes "begin_execution key now s = (s', Inr a)"
  shows "\<exists>q. request_at s' key = Some q \<and> aq_accepted_read q = None"
  using assms
  by (auto simp: begin_execution_def with_connection_def connection_ref_Inr request_at_update
      Let_def update_conv' split: sum.splits option.splits if_splits)

lemma cancel_request_at:
  assumes "cancel_request key s = (s', Inr ())"
  shows "\<exists>q. request_at s key = Some q
    \<and> request_at s' key = Some (q\<lparr>aq_is_cancelled := True\<rparr>)"
  using assms
  by (auto simp: cancel_request_def with_connection_def connection_ref_Inr request_at_update
      request_at_Some update_conv' split: sum.splits option.splits if_splits)

section \<open>Properties\<close>

text \<open>
  C20. However the operations of the service's threads interleave, no connection ever has more than
  eight requests in flight, two control requests, or sixteen undelivered terminals; no request is
  registered twice, and a connection whose terminal queue is full is marked for closing.
\<close>

theorem registry_limits:
  assumes "reachable_registry order s" and "map_of (rs_connections s) i = Some c"
  shows "length (cl_requests c) \<le> 8 \<and> cl_active_controls c \<le> 2
    \<and> length (cl_recorded_terminals c) \<le> 16 \<and> distinct (map fst (cl_requests c))
    \<and> (length (cl_recorded_terminals c) = 16 \<longrightarrow> cl_must_close c)"
  using registry_invD [OF reachable_registry_inv [OF assms(1)] assms(2)]
  by (simp add: connection_inv_def MAX_ACTIVE_REQUESTS_PER_CONNECTION_def
      MAX_CONTROL_REQUESTS_PER_CONNECTION_def MAX_RECORDED_TERMINALS_PER_CONNECTION_def)

text \<open>
  C26. Reaping accounts for every request: whatever the order in which the table is iterated, each
  request of the connection is afterwards either still registered or reported exactly once, with
  the terminal it is due; only requests that were accepted and not started, and are cancelled or
  past their deadline, are reported, and unless the connection must close none of those is left.
\<close>

theorem reap_accounts_for_requests:
  assumes "reachable_registry order s" and "\<And>xs. mset (order xs) = mset xs"
    and "reap_accepted order i g now s = (s', Inr drain)" and "map_of (rs_connections s) i = Some c"
  shows "\<exists>c' recorded. map_of (rs_connections s') i = Some c'
    \<and> td_terminals drain = cl_recorded_terminals c @ recorded
    \<and> mset (map fst (cl_requests c)) =
        mset (map fst (cl_requests c')) + mset (map (namespace_of \<circ> rt_key) recorded)
    \<and> (\<forall>t \<in> set recorded. \<exists>q. map_of (cl_requests c) (namespace_of (rt_key t)) = Some q
         \<and> stale_terminal now q = Some (rt_terminal t))
    \<and> (\<not> td_must_close drain \<longrightarrow>
         (\<forall>n q. map_of (cl_requests c') n = Some q \<longrightarrow> stale_terminal now q = None))"
proof -
  have inv: "connection_inv c"
    using registry_invD [OF reachable_registry_inv [OF assms(1)] assms(4)] by simp
  obtain c1 recorded where r: "reap_accepted_locked order i g now c = (c1, recorded)" by fastforce
  from assms(3,4) r have s': "map_of (rs_connections s') i = Some (c1\<lparr>cl_recorded_terminals := []\<rparr>)"
    and d: "td_terminals drain = cl_recorded_terminals c1" "td_must_close drain = cl_must_close c1"
    by (auto simp: reap_accepted_def with_connection_def connection_ref_def Let_def update_conv'
        split: if_splits)
  show ?thesis
    using s' d reap_locked_accounts [OF inv assms(2) r] reap_locked_keeps(3,4) [OF inv assms(2) r]
    by (intro exI [of _ "c1\<lparr>cl_recorded_terminals := []\<rparr>"] exI [of _ recorded]) simp
qed

text \<open>
  C24. A read is executed at most once: once \<open>begin_execution\<close> has handed out an accepted read, no
  interleaving of operations during which the request stays registered lets \<open>begin_execution\<close>
  succeed for it again.
\<close>

theorem execution_starts_once:
  assumes "\<And>xs. mset (order xs) = mset xs" and "reachable_registry order s"
    and "begin_execution key now s = (s1, Inr a)" and "(kept_step order key)\<^sup>*\<^sup>* s1 s2"
  shows "\<exists>e. snd (begin_execution key now' s2) = Inl e"
proof -
  have "registry_inv s1"
    using registry_step_inv [OF step_begin_execution reachable_registry_inv [OF assms(2)]] assms(3)
    by (metis fst_conv)
  moreover obtain q where "request_at s1 key = Some q" "aq_accepted_read q = None"
    using begin_execution_started [OF assms(3)] by blast
  ultimately obtain q' where "request_at s2 key = Some q'" "aq_accepted_read q' = None"
    using kept_steps_started [OF assms(1) assms(4)] by (auto simp: started_after_def)
  then show ?thesis
    by (auto simp: begin_execution_def with_connection_def connection_ref_def request_at_Some Let_def)
qed



section \<open>Witnesses\<close>

definition example_key :: active_request_key where
  "example_key = \<lparr>ak_connection_id = replicate 16 1, ak_connection_generation = 4,
     ak_authentication_namespace = replicate 32 2, ak_client_instance = replicate 16 3,
     ak_request_id = 9\<rparr>"

definition example_registry :: registry_state where
  "example_registry = fst (accept_volume_read rev example_key 100 example_volume_request 0
     (fst (open_connection (replicate 16 1) 4 registry_default)))"

definition example_connection :: connection_lifecycle where
  "example_connection = \<lparr>cl_generation = 4,
     cl_requests = [(namespace_of example_key, \<lparr>aq_deadline = 100, aq_is_cancelled = False,
       aq_accepted_read = Some (AcceptedVolume example_volume_request)\<rparr>)],
     cl_active_controls = 0, cl_recorded_terminals = [], cl_must_close = False\<rparr>"

lemma example_registry_eq:
  "example_registry = \<lparr>rs_connections = [(replicate 16 1, example_connection)]\<rparr>"
  by (simp add: example_registry_def example_connection_def accept_volume_read_def register_def
      with_connection_def connection_ref_def open_connection_def registry_default_def
      connection_new_def register_locked_def reap_accepted_locked_def example_key_def
      MAX_ACTIVE_REQUESTS_PER_CONNECTION_def)

lemma example_lookup:
  "map_of (rs_connections example_registry) (replicate 16 1) = Some example_connection"
  "cl_recorded_terminals example_connection = []"
  by (simp_all add: example_registry_eq example_connection_def)

lemma example_registry_reachable: "reachable_registry rev example_registry"
  unfolding reachable_registry_def example_registry_def accept_volume_read_def
  by (rule rtranclp.rtrancl_into_rtrancl [OF r_into_rtranclp [of "registry_step rev"]])
    (rule registry_step.intros)+

lemma example_begin_execution:
  "begin_execution example_key 5 example_registry =
    (\<lparr>rs_connections = [(replicate 16 1, example_connection\<lparr>cl_requests :=
        [(namespace_of example_key, \<lparr>aq_deadline = 100, aq_is_cancelled = False,
          aq_accepted_read = None\<rparr>)]\<rparr>)]\<rparr>,
     Inr \<lparr>ar_request = AcceptedVolume example_volume_request, ar_deadline = 100\<rparr>)"
  by (simp add: example_registry_eq example_connection_def begin_execution_def with_connection_def
      connection_ref_def example_key_def)

theorem registry_limits_witness:
  "length (cl_requests example_connection) \<le> 8"
  using registry_limits [OF example_registry_reachable example_lookup(1)] by simp

theorem reap_accounts_for_requests_witness:
  "\<exists>s' drain (c' :: connection_lifecycle). reap_accepted rev (replicate 16 1) 4 200 example_registry = (s', Inr drain)
    \<and> {#namespace_of example_key#} = mset (map fst (cl_requests c'))
        + mset (map (namespace_of \<circ> rt_key) (td_terminals drain))"
proof -
  obtain s' drain where r: "reap_accepted rev (replicate 16 1) 4 200 example_registry = (s', Inr drain)"
    by (auto simp: reap_accepted_def example_registry_eq with_connection_def connection_ref_def
        example_connection_def reap_accepted_locked_def stale_terminal_def record_terminal_def
        MAX_RECORDED_TERMINALS_PER_CONNECTION_def Let_def)
  obtain c' :: connection_lifecycle and recorded :: "recorded_terminal list"
    where "td_terminals drain = cl_recorded_terminals example_connection @ recorded"
    and m: "mset (map fst (cl_requests example_connection)) = mset (map fst (cl_requests c'))
      + mset (map (namespace_of \<circ> rt_key) recorded)"
    using reap_accounts_for_requests [OF example_registry_reachable mset_rev r example_lookup(1)]
    by blast
  then have "td_terminals drain = recorded" by (simp add: example_lookup)
  with m have "{#namespace_of example_key#} = mset (map fst (cl_requests c'))
      + mset (map (namespace_of \<circ> rt_key) (td_terminals drain))"
    by (simp add: example_connection_def)
  with r show ?thesis by blast
qed

theorem execution_starts_once_witness:
  "\<exists>e. snd (begin_execution example_key 6 (fst (begin_execution example_key 5 example_registry))) = Inl e"
  using execution_starts_once [OF mset_rev example_registry_reachable example_begin_execution
      rtranclp.rtrancl_refl] by (simp add: example_begin_execution)



end
