(* ===== verification/Registry_Refinement.thy ===== *)
theory Registry_Refinement
  imports Active_Registry
begin

text \<open>
  What the registry of active requests promises its callers, without connections, tables and
  delivery queues: a partial map from request keys to requests. \<open>request_at\<close> is the abstraction
  function, and each operation of \<open>journal_broker/service/active.rs\<close> is shown to act on the map as
  the specification says, for every key at once.
\<close>

type_synonym request_map = "active_request_key \<Rightarrow> active_request option"

section \<open>The specification\<close>

definition spec_cancel :: "active_request_key \<Rightarrow> request_map \<Rightarrow> request_map" where
  "spec_cancel key m = m(key := map_option (\<lambda>q. q\<lparr>aq_is_cancelled := True\<rparr>) (m key))"

definition spec_finish :: "active_request_key \<Rightarrow> request_map \<Rightarrow> request_map" where
  "spec_finish key m = m(key := None)"

text \<open>Starting a request takes its read; a request that is cancelled or late is removed instead.\<close>

definition spec_begin :: "active_request_key \<Rightarrow> nat \<Rightarrow> request_map \<Rightarrow> request_map" where
  "spec_begin key now m = m(key := (case m key of None \<Rightarrow> None
     | Some q \<Rightarrow> if aq_is_cancelled q \<or> now \<ge> aq_deadline q then None
         else Some (q\<lparr>aq_accepted_read := None\<rparr>)))"

definition spec_abort :: "active_request_key \<Rightarrow> request_map \<Rightarrow> request_map" where
  "spec_abort key m = m(key := (case m key of None \<Rightarrow> None
     | Some q \<Rightarrow> if aq_accepted_read q = None then Some q else None))"

definition same_connection :: "bytes \<Rightarrow> u64 \<Rightarrow> active_request_key \<Rightarrow> bool" where
  "same_connection i g key \<longleftrightarrow> ak_connection_id key = i \<and> ak_connection_generation key = g"

definition spec_disconnect :: "bytes \<Rightarrow> u64 \<Rightarrow> request_map \<Rightarrow> request_map" where
  "spec_disconnect i g m = (\<lambda>key. if same_connection i g key then None else m key)"

text \<open>Reaping removes from one connection the requests that have a terminal due.\<close>

definition spec_reap :: "bytes \<Rightarrow> u64 \<Rightarrow> nat \<Rightarrow> request_map \<Rightarrow> request_map" where
  "spec_reap i g now m = (\<lambda>key. case m key of None \<Rightarrow> None
     | Some q \<Rightarrow> if same_connection i g key \<and> stale_terminal now q \<noteq> None then None else Some q)"

definition spec_register ::
    "active_request_key \<Rightarrow> nat \<Rightarrow> accepted_journal_read option \<Rightarrow> nat \<Rightarrow> request_map \<Rightarrow> request_map" where
  "spec_register key deadline accepted now m =
     (spec_reap (ak_connection_id key) (ak_connection_generation key) now m)
       (key \<mapsto> \<lparr>aq_deadline = deadline, aq_is_cancelled = False, aq_accepted_read = accepted\<rparr>)"

section \<open>Operations on one connection\<close>

lemma key_eqI:
  "ak_connection_id a = ak_connection_id b \<Longrightarrow> ak_connection_generation a = ak_connection_generation b
   \<Longrightarrow> namespace_of a = namespace_of b \<Longrightarrow> (a :: active_request_key) = b"
  by (simp add: namespace_of_def)

lemma request_at_with_connection:
  assumes "connection_ref s key = Inr c" and "body c = (c', r)" and "cl_generation c' = cl_generation c"
  shows "request_at (fst (with_connection key body s)) k =
    (if same_connection (ak_connection_id key) (ak_connection_generation key) k
     then map_of (cl_requests c') (namespace_of k) else request_at s k)"
proof -
  have "fst (with_connection key body s) =
      s\<lparr>rs_connections := AList.update (ak_connection_id key) c' (rs_connections s)\<rparr>"
    using assms(1,2) by (simp add: with_connection_def)
  with assms(1,3) show ?thesis
    by (auto simp: connection_ref_Inr same_connection_def request_at_eq update_conv')
qed

lemma request_at_refused:
  "connection_ref s key = Inl e \<Longrightarrow> request_at s key = None"
  by (simp add: request_at_def)

lemma request_at_same:
  "connection_ref s key = Inr c \<Longrightarrow>
   same_connection (ak_connection_id key) (ak_connection_generation key) k \<Longrightarrow>
   request_at s k = map_of (cl_requests c) (namespace_of k)"
  by (simp add: connection_ref_Inr request_at_eq same_connection_def)

text \<open>
  An operation that changes its own entry of the table only implements a pointwise update of the
  map.
\<close>

lemma with_connection_pointwise:
  assumes "\<And>c. cl_generation (fst (body c)) = cl_generation c"
    and "\<And>c n. map_of (cl_requests (fst (body c))) n =
      (if n = namespace_of key then f (map_of (cl_requests c) n) else map_of (cl_requests c) n)"
    and "f None = None"
  shows "request_at (fst (with_connection key body s)) = (request_at s)(key := f (request_at s key))"
proof (rule ext)
  fix k
  show "request_at (fst (with_connection key body s)) k =
      ((request_at s)(key := f (request_at s key))) k"
  proof (cases "connection_ref s key")
    case (Inl e)
    with assms(3) show ?thesis by (simp add: with_connection_def request_at_refused)
  next
    case (Inr c)
    obtain c' r where b: "body c = (c', r)" by fastforce
    with assms(1) [of c] have g: "cl_generation c' = cl_generation c" by simp
    show ?thesis
      using request_at_with_connection [of s key c body c' r k] Inr b g assms(2) [of c "namespace_of k"]
        request_at_same [OF Inr, of k] key_eqI [of k key]
      by (auto simp: same_connection_def)
  qed
qed

lemma reap_locked_refines:
  assumes "registry_inv s" and "\<And>xs. mset (order xs) = mset xs" and "connection_ref s key = Inr c"
    and "reap_accepted_locked order (ak_connection_id key) (ak_connection_generation key) now c = (c', r)"
    and "\<not> cl_must_close c'"
    and "same_connection (ak_connection_id key) (ak_connection_generation key) k"
  shows "map_of (cl_requests c') (namespace_of k) =
    spec_reap (ak_connection_id key) (ak_connection_generation key) now (request_at s) k"
proof -
  have inv: "connection_inv c"
    using registry_invD [OF assms(1)] assms(3) by (auto simp: connection_ref_Inr)
  note keeps = reap_locked_keeps [OF inv assms(2,4)]
  show ?thesis
  proof (cases "map_of (cl_requests c) (namespace_of k)")
    case None
    with keeps(1) have "map_of (cl_requests c') (namespace_of k) = None" by (metis not_None_eq)
    with None show ?thesis by (simp add: spec_reap_def request_at_same [OF assms(3,6)])
  next
    case (Some q)
    show ?thesis
    proof (cases "stale_terminal now q")
      case None
      with Some keeps(2) show ?thesis by (simp add: spec_reap_def request_at_same [OF assms(3,6)])
    next
      case stale: (Some t)
      have "map_of (cl_requests c') (namespace_of k) = None"
        using Some stale keeps(1,3) assms(5) by (metis not_None_eq option.inject)
      with Some stale assms(6) show ?thesis
        by (simp add: spec_reap_def request_at_same [OF assms(3,6)])
    qed
  qed
qed

section \<open>Properties\<close>

text \<open>
  C22. The operations on a single request implement the map: cancelling marks the request, finishing
  removes it, starting takes its read or removes it when it is cancelled or late, aborting removes
  it unless it has started, and disconnecting removes all requests of the connection; no other
  request of any connection changes.
\<close>

theorem registry_refines_map:
  "request_at (fst (cancel_request key s)) = spec_cancel key (request_at s)
   \<and> request_at (fst (finish_request key now s)) = spec_finish key (request_at s)
   \<and> request_at (fst (begin_execution key now s)) = spec_begin key now (request_at s)
   \<and> request_at (fst (abort_accepted key now s)) = spec_abort key (request_at s)
   \<and> request_at (disconnect i g s) = spec_disconnect i g (request_at s)"
proof (intro conjI)
  show "request_at (fst (cancel_request key s)) = spec_cancel key (request_at s)"
    unfolding cancel_request_def spec_cancel_def
    by (rule with_connection_pointwise) (auto simp: update_conv' split: option.splits)
  show "request_at (fst (finish_request key now s)) = spec_finish key (request_at s)"
    unfolding finish_request_def spec_finish_def
    by (rule with_connection_pointwise [where f = "\<lambda>_. None"])
      (auto simp: delete_conv' split: option.splits)
  show "request_at (fst (begin_execution key now s)) = spec_begin key now (request_at s)"
    unfolding begin_execution_def spec_begin_def
    by (rule with_connection_pointwise)
      (auto simp: Let_def update_conv' delete_conv' split: option.splits)
  show "request_at (fst (abort_accepted key now s)) = spec_abort key (request_at s)"
    unfolding abort_accepted_def spec_abort_def
    by (rule with_connection_pointwise)
      (auto simp: Let_def delete_conv' split: option.splits)
  show "request_at (disconnect i g s) = spec_disconnect i g (request_at s)"
    by (rule ext) (auto simp: disconnect_def spec_disconnect_def same_connection_def
        request_at_eq delete_conv' simp del: map_of_eq_Some_iff split: option.splits)
qed

text \<open>
  C23. Registering a request implements the map in every reachable registry, whatever the order in
  which the table is iterated: when it succeeds, the requests of the connection that had a terminal
  due are gone, the new request is there with its deadline, and nothing else has changed; it never
  replaces a request that is neither cancelled nor late.
\<close>

theorem register_refines_map:
  assumes "reachable_registry order s" and "\<And>xs. mset (order xs) = mset xs"
    and "register order key deadline accepted now s = (s', Inr ())"
  shows "request_at s' = spec_register key deadline accepted now (request_at s)
    \<and> spec_reap (ak_connection_id key) (ak_connection_generation key) now (request_at s) key = None"
proof -
  obtain c where c: "connection_ref s key = Inr c"
    using assms(3) by (auto simp: register_def with_connection_def split: sum.splits)
  obtain c1 r where r: "reap_accepted_locked order (ak_connection_id key)
      (ak_connection_generation key) now c = (c1, r)" by fastforce
  let ?q = "\<lparr>aq_deadline = deadline, aq_is_cancelled = False, aq_accepted_read = accepted\<rparr>"
  let ?c' = "c1\<lparr>cl_requests := AList.update (namespace_of key) ?q (cl_requests c1)\<rparr>"
  have reg: "register_locked order key deadline accepted now c = (?c', Inr ())"
    and open1: "\<not> cl_must_close c1" and free: "map_of (cl_requests c1) (namespace_of key) = None"
    using assms(3) c r
    by (auto simp: register_def with_connection_def register_locked_def Let_def split: if_splits)
  have inv: "registry_inv s" by (rule reachable_registry_inv [OF assms(1)])
  note reap = reap_locked_refines [OF inv assms(2) c r open1]
  have gen: "cl_generation ?c' = cl_generation c"
    using reap_locked_keeps(5) [OF _ assms(2) r] registry_invD [OF inv] c
    by (auto simp: connection_ref_Inr)
  have "request_at s' k = spec_register key deadline accepted now (request_at s) k" for k
  proof -
    have "request_at s' k =
        (if same_connection (ak_connection_id key) (ak_connection_generation key) k
         then map_of (cl_requests ?c') (namespace_of k) else request_at s k)"
      using request_at_with_connection [where body = "register_locked order key deadline accepted now",
          OF c reg gen] assms(3) by (simp add: register_def)
    also have "\<dots> = spec_register key deadline accepted now (request_at s) k"
      using reap [of k] key_eqI [of k key]
      by (auto simp: spec_register_def update_conv' same_connection_def spec_reap_def
          split: option.splits)
    finally show ?thesis .
  qed
  moreover have "spec_reap (ak_connection_id key) (ak_connection_generation key) now (request_at s) key = None"
    using reap [of key] free by (simp add: same_connection_def)
  ultimately show ?thesis by auto
qed

theorem register_refines_map_witness:
  "request_at (fst (register rev (example_key\<lparr>ak_request_id := 10\<rparr>) 50 None 7 example_registry)) =
     spec_register (example_key\<lparr>ak_request_id := 10\<rparr>) 50 None 7 (request_at example_registry)"
proof -
  let ?key = "example_key\<lparr>ak_request_id := 10\<rparr>"
  have "snd (register rev ?key 50 None 7 example_registry) = Inr ()"
    by (simp add: register_def with_connection_def connection_ref_def example_registry_eq
        example_connection_def register_locked_def reap_accepted_locked_def stale_terminal_def
        example_key_def namespace_of_def MAX_ACTIVE_REQUESTS_PER_CONNECTION_def)
  then obtain s' where r: "register rev ?key 50 None 7 example_registry = (s', Inr ())"
    by (metis prod.collapse)
  from register_refines_map [OF example_registry_reachable mset_rev r] r show ?thesis by simp
qed

end
