(* ===== verification/Wire_Buffer.thy ===== *)
theory Wire_Buffer
  imports Wire_Types
begin

text \<open>
  The writer and the reader of the broker protocol (the \<open>Writer\<close> and \<open>Reader\<close> of
  \<open>journal_broker/wire/codec.rs\<close>), from single bytes to the structs that occur in several
  messages, and the contract the two sides keep.

  The contract is the locale \<open>codec\<close>: a writer method, the reader method for the same type, the
  values \<open>ok\<close> that the reader can give, and the bytes of a value. Its laws say that the writer
  appends exactly those bytes, that the reader gives the value back when it finds them, and that
  whatever the reader gives is a value whose bytes it found. Every pair of methods below is an
  instance of the contract, so the exactness of the message codecs is proved from the laws alone.
\<close>

section \<open>The writer\<close>

record writer =
  wr_bytes :: bytes

type_synonym writes = "(writer, wire_error, unit) action"

definition writer_new :: writer where
  "writer_new = \<lparr>wr_bytes = []\<rparr>"

definition writer_bytes :: "bytes \<Rightarrow> writes" where
  "writer_bytes v = (\<lambda>w. Inr ((), w\<lparr>wr_bytes := wr_bytes w @ v\<rparr>))"

definition writer_u8 :: "u8 \<Rightarrow> writes" where
  "writer_u8 v = (\<lambda>w. Inr ((), w\<lparr>wr_bytes := wr_bytes w @ [v]\<rparr>))"

definition writer_u16 :: "u16 \<Rightarrow> writes" where
  "writer_u16 v = (\<lambda>w. Inr ((), w\<lparr>wr_bytes := wr_bytes w @ le_bytes 2 v\<rparr>))"

definition writer_u32 :: "u32 \<Rightarrow> writes" where
  "writer_u32 v = (\<lambda>w. Inr ((), w\<lparr>wr_bytes := wr_bytes w @ le_bytes 4 v\<rparr>))"

definition writer_u64 :: "u64 \<Rightarrow> writes" where
  "writer_u64 v = (\<lambda>w. Inr ((), w\<lparr>wr_bytes := wr_bytes w @ le_bytes 8 v\<rparr>))"

definition writer_i64 :: "i64 \<Rightarrow> writes" where
  "writer_i64 v = (\<lambda>w. Inr ((), w\<lparr>wr_bytes := wr_bytes w @ le_bytes 8 v\<rparr>))"

definition writer_boolean :: "bool \<Rightarrow> writes" where
  "writer_boolean v = writer_u8 (if v then 1 else 0)"

text \<open>A length as \<open>u32\<close>: \<open>u32::try_from(len).map_err(|_| LengthOverflow)\<close>.\<close>

definition writer_length :: "nat \<Rightarrow> writes" where
  "writer_length n = bind_action (lift_result (ok_or (u32_try_from n) LengthOverflow)) writer_u32"

definition writer_byte_vec :: "bytes \<Rightarrow> writes" where
  "writer_byte_vec v = bind_action (writer_length (length v)) (\<lambda>_. writer_bytes v)"

definition writer_string :: "str \<Rightarrow> writes" where
  "writer_string v = writer_byte_vec v"

definition writer_utf16 :: "u16 list \<Rightarrow> writes" where
  "writer_utf16 v = bind_action (writer_length (length v)) (\<lambda>_. each_action writer_u16 v)"

text \<open>\<open>boolean(v.is_some())\<close>, then the value if there is one.\<close>

definition writer_option :: "('a \<Rightarrow> writes) \<Rightarrow> 'a option \<Rightarrow> writes" where
  "writer_option put v = bind_action (writer_boolean (v \<noteq> None)) (\<lambda>_.
     case v of None \<Rightarrow> return_action () | Some a \<Rightarrow> put a)"

definition writer_optional_u64 :: "u64 option \<Rightarrow> writes" where
  "writer_optional_u64 = writer_option writer_u64"

definition writer_optional_i64 :: "i64 option \<Rightarrow> writes" where
  "writer_optional_i64 = writer_option writer_i64"

definition writer_header :: "u16 \<Rightarrow> u64 \<Rightarrow> writes" where
  "writer_header kind request_id =
     bind_action (writer_bytes PROTOCOL_MAGIC) (\<lambda>_.
     bind_action (writer_u16 PROTOCOL_VERSION) (\<lambda>_.
     bind_action (writer_u16 kind) (\<lambda>_.
     writer_u64 request_id)))"

definition writer_caller :: "caller_claim \<Rightarrow> writes" where
  "writer_caller caller =
     bind_action (writer_u32 (cc_process_id caller)) (\<lambda>_.
     bind_action (writer_u32 (cc_session_id caller)) (\<lambda>_.
     writer_bytes (cc_client_instance caller)))"

definition writer_root :: "root_authorization \<Rightarrow> writes" where
  "writer_root root =
     bind_action (writer_string (ra_root_id root)) (\<lambda>_.
     bind_action (writer_u64 (ra_root_generation root)) (\<lambda>_.
     bind_action (writer_string (ra_volume_id root)) (\<lambda>_.
     bind_action (writer_byte_vec (ra_root_identity root)) (\<lambda>_.
     writer_utf16 (ra_canonical_root_utf16 root)))))"

definition writer_binding :: "response_binding \<Rightarrow> writes" where
  "writer_binding binding =
     bind_action (writer_bytes (rb_client_instance binding)) (\<lambda>_.
     bind_action (writer_string (rb_root_id binding)) (\<lambda>_.
     bind_action (writer_u64 (rb_root_generation binding)) (\<lambda>_.
     writer_string (rb_volume_id binding))))"

definition writer_root_capability :: "root_capability \<Rightarrow> writes" where
  "writer_root_capability capability = writer_bytes (capability_bytes capability)"

definition writer_scope :: "candidate_scope \<Rightarrow> writes" where
  "writer_scope scope = (case scope of
     RootScope \<Rightarrow> writer_u8 0
   | RelativePath path \<Rightarrow> bind_action (writer_u8 1) (\<lambda>_. writer_string path))"

fun candidate_kind_code :: "candidate_kind \<Rightarrow> u8" where
  "candidate_kind_code Path = 1"
| "candidate_kind_code Subtree = 2"
| "candidate_kind_code Rename = 3"

definition writer_candidate :: "broker_candidate \<Rightarrow> writes" where
  "writer_candidate candidate =
     bind_action (writer_scope (bc_scope candidate)) (\<lambda>_.
     bind_action (writer_option writer_scope (bc_previous_scope candidate)) (\<lambda>_.
     bind_action (writer_byte_vec (bc_file_reference candidate)) (\<lambda>_.
     bind_action (writer_i64 (bc_usn candidate)) (\<lambda>_.
     bind_action (writer_u8 (candidate_kind_code (bc_kind candidate))) (\<lambda>_.
     writer_boolean (bc_is_directory candidate))))))"

definition writer_finish :: "writer \<Rightarrow> bytes" where
  "writer_finish w = wr_bytes w"

section \<open>The reader\<close>

record reader =
  rd_payload :: bytes
  rd_cursor :: nat
  rd_kind :: u16

type_synonym 'a reads = "(reader, wire_error, 'a) action"

definition read_u16_at :: "bytes \<Rightarrow> nat \<Rightarrow> (wire_error, u16) result" where
  "read_u16_at payload offset =
     bind_result (ok_or (slice_get payload offset (offset + 2)) UnexpectedEnd)
       (\<lambda>bs. Inr (from_le_bytes bs))"

definition read_u64_at :: "bytes \<Rightarrow> nat \<Rightarrow> (wire_error, u64) result" where
  "read_u64_at payload offset =
     bind_result (ok_or (slice_get payload offset (offset + 8)) UnexpectedEnd)
       (\<lambda>bs. Inr (from_le_bytes bs))"

definition reader_after_header :: "bytes \<Rightarrow> (wire_error, reader) result" where
  "reader_after_header payload = bind_result (read_u16_at payload 10) (\<lambda>kind.
     Inr \<lparr>rd_payload = payload, rd_cursor = 20, rd_kind = kind\<rparr>)"

definition reader_take :: "nat \<Rightarrow> bytes reads" where
  "reader_take n = (\<lambda>r.
     bind_result (ok_or (checked_add (rd_cursor r) n) LengthOverflow) (\<lambda>stop.
     bind_result (ok_or (slice_get (rd_payload r) (rd_cursor r) stop) UnexpectedEnd) (\<lambda>v.
     Inr (v, r\<lparr>rd_cursor := stop\<rparr>))))"

definition reader_finish :: "reader \<Rightarrow> (wire_error, unit) result" where
  "reader_finish r = (if rd_cursor r = length (rd_payload r) then Inr () else Inl TrailingBytes)"

definition reader_u8 :: "u8 reads" where
  "reader_u8 = bind_action (reader_take 1) (\<lambda>bs. return_action (bs ! 0))"

definition reader_u16 :: "u16 reads" where
  "reader_u16 = bind_action (reader_take 2) (\<lambda>bs. return_action (from_le_bytes bs))"

definition reader_u32 :: "u32 reads" where
  "reader_u32 = bind_action (reader_take 4) (\<lambda>bs. return_action (from_le_bytes bs))"

definition reader_u64 :: "u64 reads" where
  "reader_u64 = bind_action (reader_take 8) (\<lambda>bs. return_action (from_le_bytes bs))"

definition reader_i64 :: "i64 reads" where
  "reader_i64 = bind_action (reader_take 8) (\<lambda>bs. return_action (from_le_bytes bs))"

definition reader_array_16 :: "bytes reads" where
  "reader_array_16 = reader_take 16"

definition reader_array_32 :: "bytes reads" where
  "reader_array_32 = reader_take 32"

definition reader_boolean :: "bool reads" where
  "reader_boolean = bind_action reader_u8 (\<lambda>v.
     if v = 0 then return_action False
     else if v = 1 then return_action True
     else fail_action (InvalidValue ''boolean''))"

text \<open>A \<open>u32\<close> read as a length; \<open>usize::try_from\<close> cannot fail on a 64-bit target.\<close>

definition reader_length :: "nat reads" where
  "reader_length = bind_action reader_u32 (\<lambda>v. return_action (unat v))"

definition reader_byte_vec :: "nat \<Rightarrow> bytes reads" where
  "reader_byte_vec maximum = bind_action reader_length (\<lambda>n.
     if n > maximum then fail_action LengthExceeded else reader_take n)"

definition reader_string :: "nat \<Rightarrow> str reads" where
  "reader_string maximum = bind_action (reader_byte_vec maximum) (\<lambda>v.
     if utf8_valid v then return_action v else fail_action InvalidUtf8)"

text \<open>\<open>chunks_exact(2)\<close>, each chunk a little-endian unit.\<close>

fun utf16_units :: "bytes \<Rightarrow> u16 list" where
  "utf16_units (a # b # bs) = from_le_bytes [a, b] # utf16_units bs"
| "utf16_units _ = []"

definition reader_utf16 :: "nat \<Rightarrow> u16 list reads" where
  "reader_utf16 maximum = bind_action reader_length (\<lambda>n.
     if n > maximum then fail_action LengthExceeded
     else bind_action (lift_result (ok_or (checked_mul n 2) LengthOverflow)) (\<lambda>byte_length.
     bind_action (reader_take byte_length) (\<lambda>bs. return_action (utf16_units bs))))"

text \<open>\<open>boolean()?.then(|| get()).transpose()?\<close>.\<close>

definition reader_option :: "'a reads \<Rightarrow> 'a option reads" where
  "reader_option get = bind_action reader_boolean (\<lambda>present.
     if present then bind_action get (\<lambda>a. return_action (Some a)) else return_action None)"

definition reader_optional_u64 :: "u64 option reads" where
  "reader_optional_u64 = reader_option reader_u64"

definition reader_optional_i64 :: "i64 option reads" where
  "reader_optional_i64 = reader_option reader_i64"

definition reader_caller :: "caller_claim reads" where
  "reader_caller =
     bind_action reader_u32 (\<lambda>process_id.
     bind_action reader_u32 (\<lambda>session_id.
     bind_action reader_array_16 (\<lambda>client_instance.
     return_action \<lparr>cc_process_id = process_id, cc_session_id = session_id,
       cc_client_instance = client_instance\<rparr>)))"

definition reader_root :: "root_authorization reads" where
  "reader_root =
     bind_action (reader_string MAX_ROOT_ID_BYTES) (\<lambda>root_id.
     bind_action reader_u64 (\<lambda>root_generation.
     bind_action (reader_string MAX_VOLUME_ID_BYTES) (\<lambda>volume_id.
     bind_action (reader_byte_vec 16) (\<lambda>root_identity.
     bind_action (reader_utf16 MAX_PATH_UTF16_UNITS) (\<lambda>canonical_root_utf16.
     return_action \<lparr>ra_root_id = root_id, ra_root_generation = root_generation,
       ra_volume_id = volume_id, ra_root_identity = root_identity,
       ra_canonical_root_utf16 = canonical_root_utf16\<rparr>)))))"

definition reader_binding :: "response_binding reads" where
  "reader_binding =
     bind_action reader_array_16 (\<lambda>client_instance.
     bind_action (reader_string MAX_ROOT_ID_BYTES) (\<lambda>root_id.
     bind_action reader_u64 (\<lambda>root_generation.
     bind_action (reader_string MAX_VOLUME_ID_BYTES) (\<lambda>volume_id.
     return_action \<lparr>rb_client_instance = client_instance, rb_root_id = root_id,
       rb_root_generation = root_generation, rb_volume_id = volume_id\<rparr>))))"

definition reader_root_capability :: "root_capability reads" where
  "reader_root_capability = bind_action reader_array_32 (\<lambda>bs. return_action (RootCapability bs))"

definition reader_scope :: "candidate_scope reads" where
  "reader_scope = bind_action reader_u8 (\<lambda>tag.
     if tag = 0 then return_action RootScope
     else if tag = 1 then bind_action (reader_string (MAX_PATH_UTF16_UNITS * 3))
       (\<lambda>path. return_action (RelativePath path))
     else fail_action (InvalidValue ''candidate_scope''))"

definition decode_candidate_kind :: "u8 \<Rightarrow> (wire_error, candidate_kind) result" where
  "decode_candidate_kind v =
     (if v = 1 then Inr Path else if v = 2 then Inr Subtree else if v = 3 then Inr Rename
      else Inl (InvalidValue ''candidate_kind''))"

definition reader_candidate :: "broker_candidate reads" where
  "reader_candidate =
     bind_action reader_scope (\<lambda>scope.
     bind_action (reader_option reader_scope) (\<lambda>previous_scope.
     bind_action (reader_byte_vec 16) (\<lambda>file_reference.
     bind_action reader_i64 (\<lambda>usn.
     bind_action (bind_action reader_u8 (\<lambda>v. lift_result (decode_candidate_kind v))) (\<lambda>kind.
     bind_action reader_boolean (\<lambda>is_directory.
     return_action \<lparr>bc_scope = scope, bc_previous_scope = previous_scope,
       bc_file_reference = file_reference, bc_usn = usn, bc_kind = kind,
       bc_is_directory = is_directory\<rparr>))))))"

section \<open>The contract of a writer and a reader\<close>

text \<open>The writer after some bytes, and a reader between the bytes it has read and the rest.\<close>

definition emit :: "bytes \<Rightarrow> writer \<Rightarrow> writer" where
  "emit bs w = w\<lparr>wr_bytes := wr_bytes w @ bs\<rparr>"

definition reader_at :: "bytes \<Rightarrow> bytes \<Rightarrow> u16 \<Rightarrow> reader" where
  "reader_at pre post kind = \<lparr>rd_payload = pre @ post, rd_cursor = length pre, rd_kind = kind\<rparr>"

text \<open>A payload whose length is a \<open>usize\<close>, as every slice in memory is.\<close>

definition fits :: "bytes \<Rightarrow> bool" where
  "fits bs \<longleftrightarrow> length bs < 2 ^ 64"

locale codec =
  fixes put :: "'a \<Rightarrow> writes" and get :: "'a reads" and ok :: "'a \<Rightarrow> bool" and enc :: "'a \<Rightarrow> bytes"
  assumes put_enc: "ok a \<Longrightarrow> put a w = Inr ((), emit (enc a) w)"
    and get_enc: "ok a \<Longrightarrow> fits (pre @ enc a @ post) \<Longrightarrow>
      get (reader_at pre (enc a @ post) kind) = Inr (a, reader_at (pre @ enc a) post kind)"
    and get_sound: "get (reader_at pre post kind) = Inr (a, r) \<Longrightarrow>
      ok a \<and> (\<exists>rest. post = enc a @ rest \<and> r = reader_at (pre @ enc a) rest kind)"
begin

lemma get_all:
  "ok a \<Longrightarrow> fits (pre @ enc a) \<Longrightarrow>
   get (reader_at pre (enc a) kind) = Inr (a, reader_at (pre @ enc a) [] kind)"
  using get_enc [of a pre "[]"] by simp

lemma put_list:
  "list_all ok xs \<Longrightarrow> each_action put xs w = Inr ((), emit (concat (map enc xs)) w)"
  by (induction xs arbitrary: w) (simp_all add: bind_action_apply put_enc emit_def)

lemma get_list:
  "list_all ok xs \<Longrightarrow> fits (pre @ concat (map enc xs) @ post) \<Longrightarrow>
   repeat_action (length xs) get (reader_at pre (concat (map enc xs) @ post) kind)
     = Inr (xs, reader_at (pre @ concat (map enc xs)) post kind)"
  by (induction xs arbitrary: pre) (simp_all add: bind_action_apply get_enc)

lemma get_list_sound:
  "repeat_action n get (reader_at pre post kind) = Inr (xs, r) \<Longrightarrow>
   length xs = n \<and> list_all ok xs
   \<and> (\<exists>rest. post = concat (map enc xs) @ rest
        \<and> r = reader_at (pre @ concat (map enc xs)) rest kind)"
  by (induction n arbitrary: pre post xs r)
    (fastforce simp: bind_action_eq_Inr dest!: get_sound)+

end

section \<open>The bytes of each type\<close>

definition wire_u8 :: "u8 \<Rightarrow> bytes" where "wire_u8 v = [v]"

definition wire_u16 :: "u16 \<Rightarrow> bytes" where "wire_u16 v = le_bytes 2 v"

definition wire_u32 :: "u32 \<Rightarrow> bytes" where "wire_u32 v = le_bytes 4 v"

definition wire_u64 :: "u64 \<Rightarrow> bytes" where "wire_u64 v = le_bytes 8 v"

definition wire_boolean :: "bool \<Rightarrow> bytes" where
  "wire_boolean v = wire_u8 (if v then 1 else 0)"

definition wire_length :: "nat \<Rightarrow> bytes" where
  "wire_length n = wire_u32 (of_nat n)"

definition wire_byte_vec :: "bytes \<Rightarrow> bytes" where
  "wire_byte_vec v = wire_length (length v) @ v"

definition wire_utf16 :: "u16 list \<Rightarrow> bytes" where
  "wire_utf16 v = wire_length (length v) @ concat (map wire_u16 v)"

fun wire_option :: "('a \<Rightarrow> bytes) \<Rightarrow> 'a option \<Rightarrow> bytes" where
  "wire_option enc None = wire_boolean False"
| "wire_option enc (Some a) = wire_boolean True @ enc a"

definition wire_caller :: "caller_claim \<Rightarrow> bytes" where
  "wire_caller c = wire_u32 (cc_process_id c) @ wire_u32 (cc_session_id c) @ cc_client_instance c"

definition wire_root :: "root_authorization \<Rightarrow> bytes" where
  "wire_root r = wire_byte_vec (ra_root_id r) @ wire_u64 (ra_root_generation r)
     @ wire_byte_vec (ra_volume_id r) @ wire_byte_vec (ra_root_identity r)
     @ wire_utf16 (ra_canonical_root_utf16 r)"

definition wire_binding :: "response_binding \<Rightarrow> bytes" where
  "wire_binding b = rb_client_instance b @ wire_byte_vec (rb_root_id b)
     @ wire_u64 (rb_root_generation b) @ wire_byte_vec (rb_volume_id b)"

fun wire_scope :: "candidate_scope \<Rightarrow> bytes" where
  "wire_scope RootScope = wire_u8 0"
| "wire_scope (RelativePath path) = wire_u8 1 @ wire_byte_vec path"

definition wire_candidate :: "broker_candidate \<Rightarrow> bytes" where
  "wire_candidate c = wire_scope (bc_scope c) @ wire_option wire_scope (bc_previous_scope c)
     @ wire_byte_vec (bc_file_reference c) @ wire_u64 (bc_usn c)
     @ wire_u8 (candidate_kind_code (bc_kind c)) @ wire_boolean (bc_is_directory c)"

text \<open>Which values each reader can give.\<close>

definition ok_byte_vec :: "nat \<Rightarrow> bytes \<Rightarrow> bool" where
  "ok_byte_vec maximum v \<longleftrightarrow> length v \<le> maximum \<and> length v < 2 ^ 32"

definition ok_string :: "nat \<Rightarrow> str \<Rightarrow> bool" where
  "ok_string maximum v \<longleftrightarrow> ok_byte_vec maximum v \<and> utf8_valid v"

definition ok_utf16 :: "nat \<Rightarrow> u16 list \<Rightarrow> bool" where
  "ok_utf16 maximum v \<longleftrightarrow> length v \<le> maximum \<and> length v < 2 ^ 32"

definition ok_root :: "root_authorization \<Rightarrow> bool" where
  "ok_root r \<longleftrightarrow> ok_string MAX_ROOT_ID_BYTES (ra_root_id r)
     \<and> ok_string MAX_VOLUME_ID_BYTES (ra_volume_id r) \<and> ok_byte_vec 16 (ra_root_identity r)
     \<and> ok_utf16 MAX_PATH_UTF16_UNITS (ra_canonical_root_utf16 r)"

definition ok_binding :: "response_binding \<Rightarrow> bool" where
  "ok_binding b \<longleftrightarrow> length (rb_client_instance b) = 16
     \<and> ok_string MAX_ROOT_ID_BYTES (rb_root_id b) \<and> ok_string MAX_VOLUME_ID_BYTES (rb_volume_id b)"

fun ok_scope :: "candidate_scope \<Rightarrow> bool" where
  "ok_scope RootScope \<longleftrightarrow> True"
| "ok_scope (RelativePath path) \<longleftrightarrow> ok_string (MAX_PATH_UTF16_UNITS * 3) path"

definition ok_candidate :: "broker_candidate \<Rightarrow> bool" where
  "ok_candidate c \<longleftrightarrow> ok_scope (bc_scope c) \<and> all_some ok_scope (bc_previous_scope c)
     \<and> ok_byte_vec 16 (bc_file_reference c)"

section \<open>Every pair of methods keeps the contract\<close>

lemma emit_emit [simp]: "emit bs (emit as w) = emit (as @ bs) w"
  by (simp add: emit_def)

lemma reader_finish_at: "reader_finish (reader_at pre post kind) = Inr () \<longleftrightarrow> post = []"
  by (auto simp: reader_finish_def reader_at_def)

lemma reader_finish_end [simp]: "reader_finish (reader_at pre [] kind) = Inr ()"
  by (simp add: reader_finish_at)

lemma reader_at_kind [simp]: "rd_kind (reader_at pre post kind) = kind"
  by (simp add: reader_at_def)

lemma wr_bytes_emit [simp]: "wr_bytes (emit bs w) = wr_bytes w @ bs"
  by (simp add: emit_def)

lemma reader_take_at:
  "length bs = n \<Longrightarrow> fits (pre @ bs @ post) \<Longrightarrow>
   reader_take n (reader_at pre (bs @ post) kind) = Inr (bs, reader_at (pre @ bs) post kind)"
  by (simp add: reader_take_def reader_at_def fits_def checked_add_def ok_or_def
      flip: length_append) (simp add: slice_get_def)

lemma reader_take_sound:
  assumes "reader_take n (reader_at pre post kind) = Inr (bs, r)"
  shows "length bs = n \<and> (\<exists>rest. post = bs @ rest \<and> r = reader_at (pre @ bs) rest kind)"
proof -
  from assms have s: "slice_get (pre @ post) (length pre) (length pre + n) = Some bs"
    and r: "r = (reader_at pre post kind)\<lparr>rd_cursor := length pre + n\<rparr>"
    by (auto simp: reader_take_def reader_at_def bind_result_eq_Inr ok_or_eq_Inr)
  from s have bs: "n \<le> length post" "bs = take n post"
    by (auto simp: slice_get_def split: if_splits)
  then have "post = bs @ drop n post" "length bs = n" by simp_all
  then show ?thesis using r by (metis append_assoc length_append reader_at_def reader.update_convs(2))
qed

interpretation cu8: codec writer_u8 reader_u8 "\<lambda>_. True" wire_u8
  by unfold_locales
    (auto simp: writer_u8_def emit_def wire_u8_def reader_u8_def bind_action_apply
      bind_result_eq_Inr reader_take_at [of "[_]", simplified] length_Suc_conv
      dest!: reader_take_sound)

interpretation cu16: codec writer_u16 reader_u16 "\<lambda>_. True" wire_u16
  by unfold_locales
    (auto simp: writer_u16_def emit_def wire_u16_def reader_u16_def bind_action_apply
      bind_result_eq_Inr reader_take_at from_le_bytes_le_bytes le_bytes_from_le_bytes
      dest!: reader_take_sound)

interpretation cu32: codec writer_u32 reader_u32 "\<lambda>_. True" wire_u32
  by unfold_locales
    (auto simp: writer_u32_def emit_def wire_u32_def reader_u32_def bind_action_apply
      bind_result_eq_Inr reader_take_at from_le_bytes_le_bytes le_bytes_from_le_bytes
      dest!: reader_take_sound)

interpretation cu64: codec writer_u64 reader_u64 "\<lambda>_. True" wire_u64
  by unfold_locales
    (auto simp: writer_u64_def emit_def wire_u64_def reader_u64_def bind_action_apply
      bind_result_eq_Inr reader_take_at from_le_bytes_le_bytes le_bytes_from_le_bytes
      dest!: reader_take_sound)

interpretation ci64: codec writer_i64 reader_i64 "\<lambda>_. True" wire_u64
  by unfold_locales
    (auto simp: writer_i64_def emit_def wire_u64_def reader_i64_def bind_action_apply
      bind_result_eq_Inr reader_take_at from_le_bytes_le_bytes le_bytes_from_le_bytes
      dest!: reader_take_sound)

interpretation carray16: codec writer_bytes reader_array_16 "\<lambda>v. length v = 16" "\<lambda>v. v"
  by unfold_locales
    (auto simp: writer_bytes_def emit_def reader_array_16_def reader_take_at
      dest!: reader_take_sound)

interpretation carray32: codec writer_bytes reader_array_32 "\<lambda>v. length v = 32" "\<lambda>v. v"
  by unfold_locales
    (auto simp: writer_bytes_def emit_def reader_array_32_def reader_take_at
      dest!: reader_take_sound)

interpretation cboolean: codec writer_boolean reader_boolean "\<lambda>_. True" wire_boolean
  by unfold_locales
    (auto simp: writer_boolean_def wire_boolean_def reader_boolean_def bind_action_apply
      cu8.put_enc cu8.get_enc bind_result_eq_Inr split: if_splits dest!: cu8.get_sound)

interpretation clength: codec writer_length reader_length "\<lambda>n. n < 2 ^ 32" wire_length
proof
  show "writer_length n w = Inr ((), emit (wire_length n) w)" if "n < 2 ^ 32" for n w
    using that by (simp add: writer_length_def bind_action_apply u32_try_from_def wire_length_def
        cu32.put_enc)
  show "reader_length (reader_at pre (wire_length n @ post) kind)
      = Inr (n, reader_at (pre @ wire_length n) post kind)"
    if "n < 2 ^ 32" "fits (pre @ wire_length n @ post)" for n pre post kind
    using that by (simp add: reader_length_def bind_action_apply wire_length_def cu32.get_enc
        unat_of_nat)
  show "n < 2 ^ 32 \<and> (\<exists>rest. post = wire_length n @ rest \<and> r = reader_at (pre @ wire_length n) rest kind)"
    if read: "reader_length (reader_at pre post kind) = Inr (n, r)" for pre post kind n r
  proof -
    from read obtain v where v: "reader_u32 (reader_at pre post kind) = Inr (v, r)" "n = unat v"
      by (auto simp: reader_length_def bind_action_eq_Inr)
    have "unat v < 2 ^ 32" using unsigned_less [of v] by simp
    moreover have "wire_length n = wire_u32 v" using v(2) by (simp add: wire_length_def)
    ultimately show ?thesis using cu32.get_sound [OF v(1)] v(2) by simp
  qed
qed

interpretation cbyte_vec: codec writer_byte_vec "reader_byte_vec maximum" "ok_byte_vec maximum" wire_byte_vec
  for maximum
  by unfold_locales
    (auto simp: writer_byte_vec_def reader_byte_vec_def wire_byte_vec_def ok_byte_vec_def
      bind_action_apply clength.put_enc clength.get_enc writer_bytes_def reader_take_at
      bind_result_eq_Inr simp flip: emit_def split: if_splits
      dest!: clength.get_sound reader_take_sound)

interpretation cstring: codec writer_string "reader_string maximum" "ok_string maximum" wire_byte_vec
  for maximum
  by unfold_locales
    (auto simp: writer_string_def reader_string_def ok_string_def bind_action_apply
      cbyte_vec.put_enc cbyte_vec.get_enc bind_result_eq_Inr split: if_splits
      dest!: cbyte_vec.get_sound)

context codec
begin

lemma option_codec:
  "codec (writer_option put) (reader_option get) (all_some ok) (wire_option enc)"
proof
  show "writer_option put v w = Inr ((), emit (wire_option enc v) w)" if "all_some ok v" for v w
    using that by (cases v)
      (simp_all add: writer_option_def bind_action_apply cboolean.put_enc put_enc)
  show "reader_option get (reader_at pre (wire_option enc v @ post) kind)
      = Inr (v, reader_at (pre @ wire_option enc v) post kind)"
    if "all_some ok v" "fits (pre @ wire_option enc v @ post)" for v pre post kind
    using that by (cases v)
      (simp_all add: reader_option_def bind_action_apply cboolean.get_enc get_enc)
  show "all_some ok v \<and> (\<exists>rest. post = wire_option enc v @ rest
      \<and> r = reader_at (pre @ wire_option enc v) rest kind)"
    if "reader_option get (reader_at pre post kind) = Inr (v, r)" for pre post kind v r
    using that
    by (auto simp: reader_option_def bind_action_eq_Inr split: if_splits
        dest!: cboolean.get_sound get_sound)
qed

end

interpretation coptional_u64: codec writer_optional_u64 reader_optional_u64
  "all_some (\<lambda>_. True)" "wire_option wire_u64"
  unfolding writer_optional_u64_def reader_optional_u64_def by (rule cu64.option_codec)

interpretation coptional_i64: codec writer_optional_i64 reader_optional_i64
  "all_some (\<lambda>_. True)" "wire_option wire_u64"
  unfolding writer_optional_i64_def reader_optional_i64_def by (rule ci64.option_codec)

lemma utf16_units_concat: "utf16_units (concat (map wire_u16 v)) = v"
proof (induction v)
  case Nil
  then show ?case by simp
next
  case (Cons u v)
  obtain a b where ab: "wire_u16 u = [a, b]"
    by (auto simp: wire_u16_def le_bytes_def upt_rec)
  then have "from_le_bytes [a, b] = u"
    using from_le_bytes_le_bytes [of 2 u] by (simp add: wire_u16_def del: from_le_bytes.simps)
  with ab Cons show ?case by (simp del: from_le_bytes.simps)
qed

lemma concat_utf16_units:
  "length bs = 2 * n \<Longrightarrow> concat (map wire_u16 (utf16_units bs)) = bs \<and> length (utf16_units bs) = n"
proof (induction n arbitrary: bs)
  case 0
  then show ?case by simp
next
  case (Suc n)
  then obtain a b bs' where "bs = a # b # bs'" "length bs' = 2 * n"
    by (auto simp: length_Suc_conv)
  with Suc.IH [of bs'] le_bytes_from_le_bytes [of 2 "[a, b]", where ?'a = 16] show ?case
    by (simp add: wire_u16_def del: from_le_bytes.simps)
qed

lemma length_concat_u16 [simp]: "length (concat (map wire_u16 v)) = 2 * length v"
  by (induction v) (simp_all add: wire_u16_def)

interpretation cutf16: codec writer_utf16 "reader_utf16 maximum" "ok_utf16 maximum" wire_utf16
  for maximum
proof
  show "writer_utf16 v w = Inr ((), emit (wire_utf16 v) w)" if "ok_utf16 maximum v" for v w
    using that cu16.put_list [of v]
    by (simp add: writer_utf16_def wire_utf16_def ok_utf16_def bind_action_apply clength.put_enc
        list_all_iff)
  show "reader_utf16 maximum (reader_at pre (wire_utf16 v @ post) kind)
      = Inr (v, reader_at (pre @ wire_utf16 v) post kind)"
    if "ok_utf16 maximum v" "fits (pre @ wire_utf16 v @ post)" for v pre post kind
  proof -
    from that(1) have len: "length v \<le> maximum" "length v < 2 ^ 32" "length v * 2 < 2 ^ 64"
      by (simp_all add: ok_utf16_def)
    then show ?thesis
      using that(2) reader_take_at [of "concat (map wire_u16 v)" "length v * 2" "pre @ wire_length (length v)" post]
      by (simp add: reader_utf16_def wire_utf16_def bind_action_apply clength.get_enc
          checked_mul_def utf16_units_concat)
  qed
  show "ok_utf16 maximum v \<and> (\<exists>rest. post = wire_utf16 v @ rest \<and> r = reader_at (pre @ wire_utf16 v) rest kind)"
    if read: "reader_utf16 maximum (reader_at pre post kind) = Inr (v, r)" for pre post kind v r
  proof -
    from read obtain n rest bs where n: "n < 2 ^ 32" "n \<le> maximum" "post = wire_length n @ rest"
      and bs: "reader_take (n * 2) (reader_at (pre @ wire_length n) rest kind) = Inr (bs, r)"
      and v: "v = utf16_units bs"
      by (auto simp: reader_utf16_def bind_action_eq_Inr bind_result_eq_Inr ok_or_eq_Inr
          split: if_splits dest!: clength.get_sound)
    from reader_take_sound [OF bs] concat_utf16_units [of bs n] v n show ?thesis
      by (auto simp: ok_utf16_def wire_utf16_def mult.commute)
  qed
qed

lemmas codec_put = cu8.put_enc cu16.put_enc cu32.put_enc cu64.put_enc ci64.put_enc
  carray16.put_enc carray32.put_enc cboolean.put_enc clength.put_enc cbyte_vec.put_enc
  cstring.put_enc cutf16.put_enc coptional_u64.put_enc coptional_i64.put_enc

lemmas codec_get = cu8.get_enc cu16.get_enc cu32.get_enc cu64.get_enc ci64.get_enc
  carray16.get_enc carray32.get_enc cboolean.get_enc clength.get_enc cbyte_vec.get_enc
  cstring.get_enc cutf16.get_enc coptional_u64.get_enc coptional_i64.get_enc

lemmas codec_sound = cu8.get_sound cu16.get_sound cu32.get_sound cu64.get_sound ci64.get_sound
  carray16.get_sound carray32.get_sound cboolean.get_sound clength.get_sound cbyte_vec.get_sound
  cstring.get_sound cutf16.get_sound coptional_u64.get_sound coptional_i64.get_sound

interpretation ccaller: codec writer_caller reader_caller wf_caller wire_caller
  by unfold_locales
    (auto simp: writer_caller_def reader_caller_def wire_caller_def wf_caller_def
      bind_action_apply bind_result_eq_Inr codec_put codec_get dest!: codec_sound)

interpretation croot: codec writer_root reader_root ok_root wire_root
  by unfold_locales
    (auto simp: writer_root_def reader_root_def wire_root_def ok_root_def
      bind_action_apply bind_result_eq_Inr codec_put codec_get dest!: codec_sound)

interpretation cbinding: codec writer_binding reader_binding ok_binding wire_binding
  by unfold_locales
    (auto simp: writer_binding_def reader_binding_def wire_binding_def ok_binding_def
      bind_action_apply bind_result_eq_Inr codec_put codec_get dest!: codec_sound)

interpretation ccapability: codec writer_root_capability reader_root_capability wf_capability
  capability_bytes
  by unfold_locales
    (auto simp: writer_root_capability_def reader_root_capability_def wf_capability_def
      bind_action_apply bind_result_eq_Inr codec_put codec_get dest!: codec_sound)

interpretation cscope: codec writer_scope reader_scope ok_scope wire_scope
proof
  show "writer_scope s w = Inr ((), emit (wire_scope s) w)" if "ok_scope s" for s w
    using that by (cases s) (simp_all add: writer_scope_def bind_action_apply codec_put)
  show "reader_scope (reader_at pre (wire_scope s @ post) kind)
      = Inr (s, reader_at (pre @ wire_scope s) post kind)"
    if "ok_scope s" "fits (pre @ wire_scope s @ post)" for s pre post kind
    using that by (cases s) (simp_all add: reader_scope_def bind_action_apply codec_get)
  show "ok_scope s \<and> (\<exists>rest. post = wire_scope s @ rest \<and> r = reader_at (pre @ wire_scope s) rest kind)"
    if "reader_scope (reader_at pre post kind) = Inr (s, r)" for pre post kind s r
    using that by (auto simp: reader_scope_def bind_action_eq_Inr split: if_splits dest!: codec_sound)
qed

interpretation cscope_option: codec "writer_option writer_scope" "reader_option reader_scope"
  "all_some ok_scope" "wire_option wire_scope"
  by (rule cscope.option_codec)

interpretation ccapability_option: codec "writer_option writer_root_capability"
  "reader_option reader_root_capability" "all_some wf_capability" "wire_option capability_bytes"
  by (rule ccapability.option_codec)

interpretation cstring_option: codec "writer_option writer_string"
  "reader_option (reader_string maximum)" "all_some (ok_string maximum)" "wire_option wire_byte_vec"
  for maximum
  by (rule cstring.option_codec)

lemma decode_candidate_kind_eq_Inr:
  "decode_candidate_kind v = Inr k \<longleftrightarrow> v = candidate_kind_code k"
  by (cases k) (auto simp: decode_candidate_kind_def)

interpretation ccandidate: codec writer_candidate reader_candidate ok_candidate wire_candidate
  by unfold_locales
    (auto simp: writer_candidate_def reader_candidate_def wire_candidate_def ok_candidate_def
      bind_action_apply bind_result_eq_Inr codec_put codec_get
      cscope.put_enc cscope.get_enc cscope_option.put_enc cscope_option.get_enc
      decode_candidate_kind_eq_Inr [THEN iffD2] decode_candidate_kind_eq_Inr
      dest!: codec_sound cscope.get_sound cscope_option.get_sound)

lemmas struct_put = codec_put ccaller.put_enc croot.put_enc cbinding.put_enc ccapability.put_enc
  ccapability_option.put_enc cstring_option.put_enc ccandidate.put_enc

lemmas struct_get = codec_get ccaller.get_enc croot.get_enc cbinding.get_enc ccapability.get_enc
  ccapability_option.get_enc cstring_option.get_enc ccandidate.get_enc

lemmas struct_sound = codec_sound ccaller.get_sound croot.get_sound cbinding.get_sound
  ccapability.get_sound ccapability_option.get_sound cstring_option.get_sound ccandidate.get_sound

section \<open>Headers\<close>

definition inspect_request_header :: "bytes \<Rightarrow> (wire_error, inspected_request_header) result" where
  "inspect_request_header payload =
     bind_result (ok_or (slice_get payload 0 8) InvalidMagic) (\<lambda>magic.
     let is_current_magic = (magic = PROTOCOL_MAGIC) in
     if \<not> is_current_magic \<and> magic \<noteq> LEGACY_PROTOCOL_MAGIC_V1 \<and> magic \<noteq> LEGACY_PROTOCOL_MAGIC_V2
        \<and> magic \<noteq> LEGACY_PROTOCOL_MAGIC_V3 \<and> magic \<noteq> LEGACY_PROTOCOL_MAGIC_V4
     then Inl InvalidMagic
     else bind_result (read_u16_at payload 8) (\<lambda>version.
       bind_result (read_u64_at payload 12) (\<lambda>request_id.
       Inr \<lparr>ih_request_id = request_id, ih_version = version,
         ih_is_current_magic = is_current_magic\<rparr>)))"

definition wire_header :: "u16 \<Rightarrow> u64 \<Rightarrow> bytes" where
  "wire_header kind request_id =
     PROTOCOL_MAGIC @ wire_u16 PROTOCOL_VERSION @ wire_u16 kind @ wire_u64 request_id"

lemma length_wire_header [simp]: "length (wire_header kind request_id) = 20"
  by (simp add: wire_header_def wire_u16_def wire_u64_def)

lemma writer_header_eq: "writer_header kind request_id w = Inr ((), emit (wire_header kind request_id) w)"
  by (simp add: writer_header_def wire_header_def bind_action_apply codec_put writer_bytes_def
      flip: emit_def)

lemma slice_get_middle:
  "length xs = i \<Longrightarrow> j = i + length ys \<Longrightarrow> slice_get (xs @ ys @ zs) i j = Some ys"
  by auto

lemma inspect_wire_header:
  "inspect_request_header (wire_header kind request_id @ body) =
     Inr \<lparr>ih_request_id = request_id, ih_version = PROTOCOL_VERSION, ih_is_current_magic = True\<rparr>"
proof -
  let ?p = "wire_header kind request_id @ body"
  have "slice_get ?p 0 8 = Some PROTOCOL_MAGIC"
    unfolding wire_header_def using slice_get_middle [of "[]" 0 8 PROTOCOL_MAGIC] by simp
  moreover have "slice_get ?p 8 (8 + 2) = Some (wire_u16 PROTOCOL_VERSION)"
    unfolding wire_header_def append_assoc by (rule slice_get_middle) (simp_all add: wire_u16_def)
  moreover have "slice_get ?p 12 (12 + 8) = Some (wire_u64 request_id)"
  proof -
    have "?p = (PROTOCOL_MAGIC @ wire_u16 PROTOCOL_VERSION @ wire_u16 kind) @ wire_u64 request_id @ body"
      by (simp add: wire_header_def)
    then show ?thesis
      by (simp only:) (rule slice_get_middle; simp add: wire_u16_def wire_u64_def)
  qed
  ultimately show ?thesis
    by (simp add: inspect_request_header_def read_u16_at_def read_u64_at_def wire_u16_def
        wire_u64_def from_le_bytes_le_bytes)
qed

lemma after_wire_header:
  "reader_after_header (wire_header kind request_id @ body)
     = Inr (reader_at (wire_header kind request_id) body kind)"
proof -
  have "wire_header kind request_id @ body
      = (PROTOCOL_MAGIC @ wire_u16 PROTOCOL_VERSION) @ wire_u16 kind @ wire_u64 request_id @ body"
    by (simp add: wire_header_def)
  then have "slice_get (wire_header kind request_id @ body) 10 (10 + 2) = Some (wire_u16 kind)"
    by (simp only:) (rule slice_get_middle; simp add: wire_u16_def)
  then show ?thesis
    by (simp add: reader_after_header_def read_u16_at_def reader_at_def wire_u16_def
        from_le_bytes_le_bytes)
qed

text \<open>A payload with a current header is the bytes of a header and a body.\<close>

lemma slice_get_drop: "slice_get p i (i + n) = Some bs \<Longrightarrow> drop i p = bs @ drop (i + n) p \<and> length bs = n"
  using slice_get_SomeD [of p i "i + n" bs]
  by (metis add_diff_cancel_left' append_eq_append_conv append_take_drop_id)

lemma current_header_sound:
  assumes "inspect_request_header p = Inr h" and "ih_is_current_magic h"
    and "ih_version h = PROTOCOL_VERSION" and "reader_after_header p = Inr r"
  shows "\<exists>body. p = wire_header (rd_kind r) (ih_request_id h) @ body
    \<and> r = reader_at (wire_header (rd_kind r) (ih_request_id h)) body (rd_kind r)"
proof -
  from assms obtain v i k where
    "slice_get p 0 (0 + 8) = Some PROTOCOL_MAGIC" "slice_get p 8 (8 + 2) = Some v"
    "slice_get p 12 (12 + 8) = Some i" "slice_get p 10 (10 + 2) = Some k"
    and v: "from_le_bytes v = PROTOCOL_VERSION" and i: "ih_request_id h = from_le_bytes i"
    and r: "r = \<lparr>rd_payload = p, rd_cursor = 20, rd_kind = from_le_bytes k\<rparr>"
    by (auto simp: inspect_request_header_def reader_after_header_def read_u16_at_def
        read_u64_at_def bind_result_eq_Inr ok_or_eq_Inr Let_def split: if_splits)
  from this(1-4) [THEN slice_get_drop] have
    p: "p = PROTOCOL_MAGIC @ v @ k @ i @ drop 20 p" "length v = 2" "length k = 2" "length i = 8"
    by simp_all
  have "wire_u16 PROTOCOL_VERSION = v" "wire_u16 (rd_kind r) = k" "wire_u64 (ih_request_id h) = i"
    using p(2-4) le_bytes_from_le_bytes [of 2 v, where ?'a = 16] v i r
    by (simp_all add: wire_u16_def wire_u64_def le_bytes_from_le_bytes)
  with p(1) have "p = wire_header (rd_kind r) (ih_request_id h) @ drop 20 p"
    by (simp add: wire_header_def)
  then show ?thesis using r by (metis length_wire_header reader.select_convs(3) reader_at_def)
qed

end
