(* ===== verification/Request_Codec.thy ===== *)
theory Request_Codec
  imports Wire_Buffer
begin

text \<open>
  Encoding and decoding of broker requests (\<open>encode_request\<close> and \<open>decode_request\<close> of
  \<open>journal_broker/wire/codec.rs\<close>). Each arm of the two functions is a definition of its own.
\<close>

section \<open>Encoding\<close>

definition REGISTER_ROOT_REQUEST :: u16 where "REGISTER_ROOT_REQUEST = 4"
definition READ_VOLUME_REQUEST :: u16 where "READ_VOLUME_REQUEST = 5"
definition QUERY_REQUEST :: u16 where "QUERY_REQUEST = 1"
definition READ_REQUEST :: u16 where "READ_REQUEST = 2"
definition CANCEL_REQUEST :: u16 where "CANCEL_REQUEST = 3"

lemmas request_kinds = REGISTER_ROOT_REQUEST_def READ_VOLUME_REQUEST_def QUERY_REQUEST_def
  READ_REQUEST_def CANCEL_REQUEST_def

definition write_register_root :: "register_root_request \<Rightarrow> writes" where
  "write_register_root request =
     bind_action (writer_caller (rg_caller request)) (\<lambda>_.
     bind_action (writer_root (rg_root request)) (\<lambda>_.
     bind_action (writer_u64 (rg_client_root_handle request)) (\<lambda>_.
     writer_u32 (rg_timeout_ms request))))"

definition encode_register_root :: "u64 \<Rightarrow> register_root_request \<Rightarrow> writes" where
  "encode_register_root request_id request =
     bind_action (lift_result (register_root_validate request)) (\<lambda>_.
     bind_action (writer_header REGISTER_ROOT_REQUEST request_id) (\<lambda>_.
     write_register_root request))"

definition write_query_journal :: "query_journal_request \<Rightarrow> writes" where
  "write_query_journal request =
     bind_action (writer_caller (qj_caller request)) (\<lambda>_.
     bind_action (writer_root (qj_root request)) (\<lambda>_.
     bind_action (writer_root_capability (qj_root_capability request)) (\<lambda>_.
     writer_u32 (qj_timeout_ms request))))"

definition encode_query_journal :: "u64 \<Rightarrow> query_journal_request \<Rightarrow> writes" where
  "encode_query_journal request_id request =
     bind_action (lift_result (query_journal_validate request)) (\<lambda>_.
     bind_action (writer_header QUERY_REQUEST request_id) (\<lambda>_.
     write_query_journal request))"

definition write_read_range :: "read_journal_range_request \<Rightarrow> writes" where
  "write_read_range request =
     bind_action (writer_caller (rj_caller request)) (\<lambda>_.
     bind_action (writer_root (rj_root request)) (\<lambda>_.
     bind_action (writer_root_capability (rj_root_capability request)) (\<lambda>_.
     bind_action (writer_u64 (rj_journal_id request)) (\<lambda>_.
     bind_action (writer_i64 (rj_start_usn request)) (\<lambda>_.
     bind_action (writer_i64 (rj_end_usn request)) (\<lambda>_.
     bind_action (writer_u32 (rj_max_records request)) (\<lambda>_.
     bind_action (writer_u32 (rj_max_evidence_bytes request)) (\<lambda>_.
     writer_u32 (rj_timeout_ms request)))))))))"

definition encode_read_range :: "u64 \<Rightarrow> read_journal_range_request \<Rightarrow> writes" where
  "encode_read_range request_id request =
     bind_action (lift_result (read_journal_range_validate request)) (\<lambda>_.
     bind_action (writer_header READ_REQUEST request_id) (\<lambda>_.
     write_read_range request))"

text \<open>Counts as \<open>u8\<close> and \<open>u16\<close>, with \<open>LengthOverflow\<close> when they do not fit.\<close>

definition writer_count_u8 :: "nat \<Rightarrow> writes" where
  "writer_count_u8 n = (if n < 2 ^ 8 then writer_u8 (of_nat n) else fail_action LengthOverflow)"

definition writer_count_u16 :: "nat \<Rightarrow> writes" where
  "writer_count_u16 n = (if n < 2 ^ 16 then writer_u16 (of_nat n) else fail_action LengthOverflow)"

definition write_shared_root :: "shared_journal_root_request \<Rightarrow> writes" where
  "write_shared_root root =
     bind_action (writer_root (sr_root root)) (\<lambda>_.
     bind_action (writer_root_capability (sr_root_capability root)) (\<lambda>_.
     writer_i64 (sr_start_usn root)))"

definition write_pending_request :: "pending_rename_request \<Rightarrow> writes" where
  "write_pending_request pending =
     bind_action (writer_string (pr_carry_id pending)) (\<lambda>_.
     bind_action (writer_string (pr_source_range_id pending)) (\<lambda>_.
     bind_action (writer_root (pr_root pending)) (\<lambda>_.
     bind_action (writer_option writer_root_capability (pr_root_capability pending)) (\<lambda>_.
     bind_action (writer_byte_vec (pr_file_reference pending)) (\<lambda>_.
     bind_action (writer_i64 (pr_old_usn pending)) (\<lambda>_.
     bind_action (writer_string (pr_previous_relative_path pending)) (\<lambda>_.
     writer_boolean (pr_is_directory pending))))))))"

definition write_shared_roots :: "shared_journal_root_request list \<Rightarrow> writes" where
  "write_shared_roots roots =
     bind_action (writer_count_u8 (length roots)) (\<lambda>_. each_action write_shared_root roots)"

definition write_pending_requests :: "pending_rename_request list \<Rightarrow> writes" where
  "write_pending_requests pendings =
     bind_action (writer_count_u16 (length pendings)) (\<lambda>_.
     each_action write_pending_request pendings)"

definition write_read_volume :: "read_journal_volume_request \<Rightarrow> writes" where
  "write_read_volume request =
     bind_action (writer_caller (rv_caller request)) (\<lambda>_.
     bind_action (write_shared_roots (rv_roots request)) (\<lambda>_.
     bind_action (write_pending_requests (rv_pending_renames request)) (\<lambda>_.
     bind_action (writer_u64 (rv_journal_id request)) (\<lambda>_.
     bind_action (writer_i64 (rv_end_usn request)) (\<lambda>_.
     bind_action (writer_u32 (rv_max_records request)) (\<lambda>_.
     bind_action (writer_u32 (rv_max_evidence_bytes request)) (\<lambda>_.
     writer_u32 (rv_timeout_ms request))))))))"

definition encode_read_volume :: "u64 \<Rightarrow> read_journal_volume_request \<Rightarrow> writes" where
  "encode_read_volume request_id request =
     bind_action (lift_result (read_journal_volume_validate request)) (\<lambda>_.
     bind_action (writer_header READ_VOLUME_REQUEST request_id) (\<lambda>_.
     write_read_volume request))"

definition validate_cancel :: "caller_claim \<Rightarrow> u64 \<Rightarrow> (wire_error, unit) result" where
  "validate_cancel caller target_request_id =
     bind_result (caller_claim_validate caller) (\<lambda>_.
     if target_request_id = 0 then Inl (InvalidValue ''target_request_id'') else Inr ())"

definition encode_cancel :: "u64 \<Rightarrow> caller_claim \<Rightarrow> u64 \<Rightarrow> writes" where
  "encode_cancel request_id caller target_request_id =
     bind_action (lift_result (validate_cancel caller target_request_id)) (\<lambda>_.
     bind_action (writer_header CANCEL_REQUEST request_id) (\<lambda>_.
     bind_action (writer_caller caller) (\<lambda>_.
     writer_u64 target_request_id)))"

fun encode_request_body :: "broker_request \<Rightarrow> writes" where
  "encode_request_body (RegisterRoot request_id request) = encode_register_root request_id request"
| "encode_request_body (QueryJournal request_id request) = encode_query_journal request_id request"
| "encode_request_body (ReadRange request_id request) = encode_read_range request_id request"
| "encode_request_body (ReadVolume request_id request) = encode_read_volume request_id request"
| "encode_request_body (Cancel request_id caller target_request_id) =
     encode_cancel request_id caller target_request_id"

definition encode_request :: "broker_request \<Rightarrow> (wire_error, bytes) result" where
  "encode_request request =
     (if request_request_id request = 0 then Inl (InvalidValue ''request_id'')
      else bind_result (encode_request_body request writer_new) (\<lambda>(_, w). Inr (writer_finish w)))"

section \<open>Decoding\<close>

definition read_register_root :: "register_root_request reads" where
  "read_register_root =
     bind_action reader_caller (\<lambda>caller.
     bind_action reader_root (\<lambda>root.
     bind_action reader_u64 (\<lambda>client_root_handle.
     bind_action reader_u32 (\<lambda>timeout_ms.
     return_action \<lparr>rg_caller = caller, rg_root = root,
       rg_client_root_handle = client_root_handle, rg_timeout_ms = timeout_ms\<rparr>))))"

definition read_query_journal :: "query_journal_request reads" where
  "read_query_journal =
     bind_action reader_caller (\<lambda>caller.
     bind_action reader_root (\<lambda>root.
     bind_action reader_root_capability (\<lambda>root_capability.
     bind_action reader_u32 (\<lambda>timeout_ms.
     return_action \<lparr>qj_caller = caller, qj_root = root, qj_root_capability = root_capability,
       qj_timeout_ms = timeout_ms\<rparr>))))"

definition read_read_range :: "read_journal_range_request reads" where
  "read_read_range =
     bind_action reader_caller (\<lambda>caller.
     bind_action reader_root (\<lambda>root.
     bind_action reader_root_capability (\<lambda>root_capability.
     bind_action reader_u64 (\<lambda>journal_id.
     bind_action reader_i64 (\<lambda>start_usn.
     bind_action reader_i64 (\<lambda>end_usn.
     bind_action reader_u32 (\<lambda>max_records.
     bind_action reader_u32 (\<lambda>max_evidence_bytes.
     bind_action reader_u32 (\<lambda>timeout_ms.
     return_action \<lparr>rj_caller = caller, rj_root = root, rj_root_capability = root_capability,
       rj_journal_id = journal_id, rj_start_usn = start_usn, rj_end_usn = end_usn,
       rj_max_records = max_records, rj_max_evidence_bytes = max_evidence_bytes,
       rj_timeout_ms = timeout_ms\<rparr>)))))))))"

definition read_shared_root :: "shared_journal_root_request reads" where
  "read_shared_root =
     bind_action reader_root (\<lambda>root.
     bind_action reader_root_capability (\<lambda>root_capability.
     bind_action reader_i64 (\<lambda>start_usn.
     return_action \<lparr>sr_root = root, sr_root_capability = root_capability,
       sr_start_usn = start_usn\<rparr>)))"

definition read_pending_request :: "pending_rename_request reads" where
  "read_pending_request =
     bind_action (reader_string 512) (\<lambda>carry_id.
     bind_action (reader_string 512) (\<lambda>source_range_id.
     bind_action reader_root (\<lambda>root.
     bind_action (reader_option reader_root_capability) (\<lambda>root_capability.
     bind_action (reader_byte_vec 16) (\<lambda>file_reference.
     bind_action reader_i64 (\<lambda>old_usn.
     bind_action (reader_string (MAX_PATH_UTF16_UNITS * 4)) (\<lambda>previous_relative_path.
     bind_action reader_boolean (\<lambda>is_directory.
     return_action \<lparr>pr_carry_id = carry_id, pr_source_range_id = source_range_id, pr_root = root,
       pr_root_capability = root_capability, pr_file_reference = file_reference,
       pr_old_usn = old_usn, pr_previous_relative_path = previous_relative_path,
       pr_is_directory = is_directory\<rparr>))))))))"

text \<open>The two counted loops, each with its limit.\<close>

definition read_shared_roots :: "shared_journal_root_request list reads" where
  "read_shared_roots = bind_action reader_u8 (\<lambda>count.
     if \<not> (1 \<le> unat count \<and> unat count \<le> MAX_SHARED_ROOTS) then fail_action LengthExceeded
     else repeat_action (unat count) read_shared_root)"

definition read_pending_requests :: "pending_rename_request list reads" where
  "read_pending_requests = bind_action reader_u16 (\<lambda>count.
     if unat count > MAX_SHARED_PENDING_RENAMES then fail_action LengthExceeded
     else repeat_action (unat count) read_pending_request)"

definition read_read_volume :: "read_journal_volume_request reads" where
  "read_read_volume =
     bind_action reader_caller (\<lambda>caller.
     bind_action read_shared_roots (\<lambda>roots.
     bind_action read_pending_requests (\<lambda>pending_renames.
     bind_action reader_u64 (\<lambda>journal_id.
     bind_action reader_i64 (\<lambda>end_usn.
     bind_action reader_u32 (\<lambda>max_records.
     bind_action reader_u32 (\<lambda>max_evidence_bytes.
     bind_action reader_u32 (\<lambda>timeout_ms.
     return_action \<lparr>rv_caller = caller, rv_roots = roots, rv_pending_renames = pending_renames,
       rv_journal_id = journal_id, rv_end_usn = end_usn, rv_max_records = max_records,
       rv_max_evidence_bytes = max_evidence_bytes, rv_timeout_ms = timeout_ms\<rparr>))))))))"

definition read_cancel :: "u64 \<Rightarrow> broker_request reads" where
  "read_cancel request_id =
     bind_action reader_caller (\<lambda>caller.
     bind_action reader_u64 (\<lambda>target_request_id.
     return_action (Cancel request_id caller target_request_id)))"

definition decode_request_kind :: "u16 \<Rightarrow> u64 \<Rightarrow> broker_request reads" where
  "decode_request_kind kind request_id =
     (if kind = REGISTER_ROOT_REQUEST then
        bind_action read_register_root (\<lambda>request. return_action (RegisterRoot request_id request))
      else if kind = QUERY_REQUEST then
        bind_action read_query_journal (\<lambda>request. return_action (QueryJournal request_id request))
      else if kind = READ_REQUEST then
        bind_action read_read_range (\<lambda>request. return_action (ReadRange request_id request))
      else if kind = READ_VOLUME_REQUEST then
        bind_action read_read_volume (\<lambda>request. return_action (ReadVolume request_id request))
      else if kind = CANCEL_REQUEST then read_cancel request_id
      else fail_action (UnknownKind kind))"

fun validate_request :: "broker_request \<Rightarrow> (wire_error, unit) result" where
  "validate_request (RegisterRoot _ request) = register_root_validate request"
| "validate_request (QueryJournal _ request) = query_journal_validate request"
| "validate_request (ReadRange _ request) = read_journal_range_validate request"
| "validate_request (ReadVolume _ request) = read_journal_volume_validate request"
| "validate_request (Cancel _ caller target_request_id) = validate_cancel caller target_request_id"

definition decode_request :: "bytes \<Rightarrow> (wire_error, broker_request) result" where
  "decode_request payload =
     bind_result (inspect_request_header payload) (\<lambda>header.
     if \<not> ih_is_current_magic header then Inl (UnsupportedVersion (ih_version header))
     else if ih_request_id header = 0 then Inl (InvalidValue ''request_id'')
     else if ih_version header \<noteq> PROTOCOL_VERSION then Inl (UnsupportedVersion (ih_version header))
     else bind_result (reader_after_header payload) (\<lambda>reader.
       bind_result (decode_request_kind (rd_kind reader) (ih_request_id header) reader)
         (\<lambda>(request, reader).
       bind_result (reader_finish reader) (\<lambda>_.
       bind_result (validate_request request) (\<lambda>_. Inr request)))))"

section \<open>The bytes of a request\<close>

definition wire_register_root :: "register_root_request \<Rightarrow> bytes" where
  "wire_register_root r = wire_caller (rg_caller r) @ wire_root (rg_root r)
     @ wire_u64 (rg_client_root_handle r) @ wire_u32 (rg_timeout_ms r)"

definition wire_query_journal :: "query_journal_request \<Rightarrow> bytes" where
  "wire_query_journal r = wire_caller (qj_caller r) @ wire_root (qj_root r)
     @ capability_bytes (qj_root_capability r) @ wire_u32 (qj_timeout_ms r)"

definition wire_read_range :: "read_journal_range_request \<Rightarrow> bytes" where
  "wire_read_range r = wire_caller (rj_caller r) @ wire_root (rj_root r)
     @ capability_bytes (rj_root_capability r) @ wire_u64 (rj_journal_id r)
     @ wire_u64 (rj_start_usn r) @ wire_u64 (rj_end_usn r) @ wire_u32 (rj_max_records r)
     @ wire_u32 (rj_max_evidence_bytes r) @ wire_u32 (rj_timeout_ms r)"

definition wire_shared_root :: "shared_journal_root_request \<Rightarrow> bytes" where
  "wire_shared_root r = wire_root (sr_root r) @ capability_bytes (sr_root_capability r)
     @ wire_u64 (sr_start_usn r)"

definition wire_pending_request :: "pending_rename_request \<Rightarrow> bytes" where
  "wire_pending_request p = wire_byte_vec (pr_carry_id p) @ wire_byte_vec (pr_source_range_id p)
     @ wire_root (pr_root p) @ wire_option capability_bytes (pr_root_capability p)
     @ wire_byte_vec (pr_file_reference p) @ wire_u64 (pr_old_usn p)
     @ wire_byte_vec (pr_previous_relative_path p) @ wire_boolean (pr_is_directory p)"

definition wire_shared_roots :: "shared_journal_root_request list \<Rightarrow> bytes" where
  "wire_shared_roots rs = wire_u8 (of_nat (length rs)) @ concat (map wire_shared_root rs)"

definition wire_pending_requests :: "pending_rename_request list \<Rightarrow> bytes" where
  "wire_pending_requests ps = wire_u16 (of_nat (length ps)) @ concat (map wire_pending_request ps)"

definition wire_read_volume :: "read_journal_volume_request \<Rightarrow> bytes" where
  "wire_read_volume r = wire_caller (rv_caller r) @ wire_shared_roots (rv_roots r)
     @ wire_pending_requests (rv_pending_renames r) @ wire_u64 (rv_journal_id r)
     @ wire_u64 (rv_end_usn r) @ wire_u32 (rv_max_records r)
     @ wire_u32 (rv_max_evidence_bytes r) @ wire_u32 (rv_timeout_ms r)"

fun wire_request :: "broker_request \<Rightarrow> bytes" where
  "wire_request (RegisterRoot i r) = wire_header REGISTER_ROOT_REQUEST i @ wire_register_root r"
| "wire_request (QueryJournal i r) = wire_header QUERY_REQUEST i @ wire_query_journal r"
| "wire_request (ReadRange i r) = wire_header READ_REQUEST i @ wire_read_range r"
| "wire_request (ReadVolume i r) = wire_header READ_VOLUME_REQUEST i @ wire_read_volume r"
| "wire_request (Cancel i c t) = wire_header CANCEL_REQUEST i @ wire_caller c @ wire_u64 t"

definition ok_register_root :: "register_root_request \<Rightarrow> bool" where
  "ok_register_root r \<longleftrightarrow> wf_caller (rg_caller r) \<and> ok_root (rg_root r)"

definition ok_query_journal :: "query_journal_request \<Rightarrow> bool" where
  "ok_query_journal r \<longleftrightarrow> wf_caller (qj_caller r) \<and> ok_root (qj_root r)
     \<and> wf_capability (qj_root_capability r)"

definition ok_read_range :: "read_journal_range_request \<Rightarrow> bool" where
  "ok_read_range r \<longleftrightarrow> wf_caller (rj_caller r) \<and> ok_root (rj_root r)
     \<and> wf_capability (rj_root_capability r)"

definition ok_shared_root :: "shared_journal_root_request \<Rightarrow> bool" where
  "ok_shared_root r \<longleftrightarrow> ok_root (sr_root r) \<and> wf_capability (sr_root_capability r)"

definition ok_pending_request :: "pending_rename_request \<Rightarrow> bool" where
  "ok_pending_request p \<longleftrightarrow> ok_string 512 (pr_carry_id p) \<and> ok_string 512 (pr_source_range_id p)
     \<and> ok_root (pr_root p) \<and> all_some wf_capability (pr_root_capability p)
     \<and> ok_byte_vec 16 (pr_file_reference p)
     \<and> ok_string (MAX_PATH_UTF16_UNITS * 4) (pr_previous_relative_path p)"

definition ok_shared_roots :: "shared_journal_root_request list \<Rightarrow> bool" where
  "ok_shared_roots rs \<longleftrightarrow> 1 \<le> length rs \<and> length rs \<le> MAX_SHARED_ROOTS \<and> list_all ok_shared_root rs"

definition ok_pending_requests :: "pending_rename_request list \<Rightarrow> bool" where
  "ok_pending_requests ps \<longleftrightarrow>
     length ps \<le> MAX_SHARED_PENDING_RENAMES \<and> list_all ok_pending_request ps"

definition ok_read_volume :: "read_journal_volume_request \<Rightarrow> bool" where
  "ok_read_volume r \<longleftrightarrow> wf_caller (rv_caller r) \<and> ok_shared_roots (rv_roots r)
     \<and> ok_pending_requests (rv_pending_renames r)"

fun ok_request :: "broker_request \<Rightarrow> bool" where
  "ok_request (RegisterRoot _ r) \<longleftrightarrow> ok_register_root r"
| "ok_request (QueryJournal _ r) \<longleftrightarrow> ok_query_journal r"
| "ok_request (ReadRange _ r) \<longleftrightarrow> ok_read_range r"
| "ok_request (ReadVolume _ r) \<longleftrightarrow> ok_read_volume r"
| "ok_request (Cancel _ c _) \<longleftrightarrow> wf_caller c"

interpretation cregister: codec write_register_root read_register_root ok_register_root
  wire_register_root
  by unfold_locales
    (auto simp: write_register_root_def read_register_root_def wire_register_root_def
      ok_register_root_def bind_action_apply bind_result_eq_Inr struct_put struct_get
      dest!: struct_sound)

interpretation cquery: codec write_query_journal read_query_journal ok_query_journal
  wire_query_journal
  by unfold_locales
    (auto simp: write_query_journal_def read_query_journal_def wire_query_journal_def
      ok_query_journal_def bind_action_apply bind_result_eq_Inr struct_put struct_get
      dest!: struct_sound)

interpretation crange: codec write_read_range read_read_range ok_read_range wire_read_range
  by unfold_locales
    (auto simp: write_read_range_def read_read_range_def wire_read_range_def
      ok_read_range_def bind_action_apply bind_result_eq_Inr struct_put struct_get
      dest!: struct_sound)

interpretation cshared_root: codec write_shared_root read_shared_root ok_shared_root
  wire_shared_root
  by unfold_locales
    (auto simp: write_shared_root_def read_shared_root_def wire_shared_root_def
      ok_shared_root_def bind_action_apply bind_result_eq_Inr struct_put struct_get
      dest!: struct_sound)

interpretation cpending_request: codec write_pending_request read_pending_request
  ok_pending_request wire_pending_request
  by unfold_locales
    (auto simp: write_pending_request_def read_pending_request_def wire_pending_request_def
      ok_pending_request_def bind_action_apply bind_result_eq_Inr struct_put struct_get
      dest!: struct_sound)

interpretation cshared_roots: codec write_shared_roots read_shared_roots ok_shared_roots wire_shared_roots
  by unfold_locales
    (auto simp: write_shared_roots_def writer_count_u8_def read_shared_roots_def wire_shared_roots_def
      ok_shared_roots_def wire_limits bind_action_apply bind_result_eq_Inr codec_put codec_get
      cshared_root.put_list cshared_root.get_list split: if_splits
      dest!: codec_sound cshared_root.get_list_sound)

lemma unat_of_nat_u16: "n < 2 ^ 16 \<Longrightarrow> unat (of_nat n :: u16) = n"
  by (simp add: unat_of_nat)

interpretation cpending_requests: codec write_pending_requests read_pending_requests
  ok_pending_requests wire_pending_requests
  by unfold_locales
    (auto simp: write_pending_requests_def writer_count_u16_def read_pending_requests_def wire_pending_requests_def
      ok_pending_requests_def wire_limits bind_action_apply bind_result_eq_Inr codec_put codec_get
      unat_of_nat_u16 cpending_request.put_list cpending_request.get_list split: if_splits
      dest!: codec_sound cpending_request.get_list_sound)

interpretation cvolume: codec write_read_volume read_read_volume ok_read_volume wire_read_volume
  by unfold_locales
    (auto simp: write_read_volume_def read_read_volume_def wire_read_volume_def
      ok_read_volume_def bind_action_apply bind_result_eq_Inr struct_put struct_get
      cshared_roots.put_enc cpending_requests.put_enc cshared_roots.get_enc
      cpending_requests.get_enc
      dest!: struct_sound cshared_roots.get_sound cpending_requests.get_sound)

section \<open>Requests as a whole\<close>

lemma validate_cancel_eq_Inr [wire_validate]:
  "validate_cancel c t = Inr () \<longleftrightarrow> caller_claim_validate c = Inr () \<and> t \<noteq> 0"
  by (auto simp: validate_cancel_def bind_result_eq_Inr)

lemma ok_root_if_valid: "wf_root r \<Longrightarrow> root_authorization_validate r = Inr () \<Longrightarrow> ok_root r"
  by (auto simp: wf_root_def ok_root_def ok_string_def ok_byte_vec_def ok_utf16_def
      is_reference_length_def wire_validate validate_root_path_def normalize_absolute_path_eq_Inr
      wire_limits)

lemma wf_root_if_ok: "ok_root r \<Longrightarrow> wf_root r"
  by (simp add: ok_root_def wf_root_def ok_string_def)

lemma ok_pending_if_valid:
  assumes "wf_pending_request p" and "pending_rename_request_validate p v j e = Inr ()"
  shows "ok_pending_request p"
proof -
  have "length (pr_previous_relative_path p) \<le> MAX_PATH_UTF16_UNITS * 3"
    using assms by (intro relative_path_byte_length)
      (simp_all add: wf_pending_request_def pending_rename_request_validate_eq_Inr)
  then show ?thesis
    using assms ok_root_if_valid [of "pr_root p"]
    by (auto simp: wf_pending_request_def ok_pending_request_def ok_string_def ok_byte_vec_def
        is_reference_length_def pending_rename_request_validate_eq_Inr
        validate_identifier_eq_Inr wire_limits)
qed

lemma wf_pending_if_ok: "ok_pending_request p \<Longrightarrow> wf_pending_request p"
  by (simp add: ok_pending_request_def wf_pending_request_def ok_string_def wf_root_if_ok)

lemma ok_request_if_valid: "wf_request r \<Longrightarrow> validate_request r = Inr () \<Longrightarrow> ok_request r"
  by (cases r)
    (auto simp: ok_register_root_def ok_query_journal_def ok_read_range_def ok_read_volume_def
      ok_shared_roots_def ok_pending_requests_def ok_shared_root_def list_all_iff
      register_root_validate_eq_Inr query_journal_validate_eq_Inr
      read_journal_range_validate_eq_Inr read_journal_volume_validate_eq_Inr
      shared_journal_root_validate_eq_Inr ok_root_if_valid intro: ok_pending_if_valid)

lemma wf_request_if_ok: "ok_request r \<Longrightarrow> wf_request r"
  by (cases r)
    (auto simp: ok_register_root_def ok_query_journal_def ok_read_range_def ok_read_volume_def
      ok_shared_roots_def ok_pending_requests_def ok_shared_root_def list_all_iff
      wf_root_if_ok wf_pending_if_ok)

lemmas request_put = ccaller.put_enc cu64.put_enc cregister.put_enc cquery.put_enc crange.put_enc
  cvolume.put_enc writer_header_eq

lemma encode_request_ok:
  assumes "ok_request r"
  shows "encode_request r = Inr p \<longleftrightarrow>
    request_request_id r \<noteq> 0 \<and> validate_request r = Inr () \<and> p = wire_request r"
  using assms
  by (cases r)
    (auto simp: encode_request_def encode_register_root_def encode_query_journal_def
      encode_read_range_def encode_read_volume_def encode_cancel_def bind_action_apply
      bind_result_eq_Inr request_put writer_finish_def writer_new_def)

lemmas request_get = ccaller.get_enc cu64.get_all cregister.get_all cquery.get_all crange.get_all
  cvolume.get_all

lemma decode_wire_request:
  assumes "ok_request r" and "request_request_id r \<noteq> 0" and "validate_request r = Inr ()"
    and "fits (wire_request r)"
  shows "decode_request (wire_request r) = Inr r"
  using assms
  by (cases r)
    (simp_all add: decode_request_def inspect_wire_header after_wire_header
      decode_request_kind_def request_kinds read_cancel_def bind_action_apply request_get)

lemmas request_sound = ccaller.get_sound cu64.get_sound cregister.get_sound cquery.get_sound
  crange.get_sound cvolume.get_sound

lemma decode_request_kind_sound:
  assumes "decode_request_kind kind i (reader_at (wire_header kind i) body kind) = Inr (r, rd)"
    and "reader_finish rd = Inr ()"
  shows "ok_request r \<and> request_request_id r = i \<and> wire_header kind i @ body = wire_request r"
  using assms
  by (auto simp: decode_request_kind_def read_cancel_def bind_action_eq_Inr reader_finish_at
      split: if_splits dest!: request_sound)

lemma decode_request_sound:
  assumes "decode_request p = Inr r"
  shows "ok_request r \<and> p = wire_request r \<and> validate_request r = Inr () \<and> request_request_id r \<noteq> 0"
proof -
  from assms obtain h rd rd' where
    h: "inspect_request_header p = Inr h" "ih_is_current_magic h" "ih_version h = PROTOCOL_VERSION"
      "ih_request_id h \<noteq> 0"
    and rd: "reader_after_header p = Inr rd"
    and kind: "decode_request_kind (rd_kind rd) (ih_request_id h) rd = Inr (r, rd')"
      "reader_finish rd' = Inr ()" and valid: "validate_request r = Inr ()"
    by (auto simp: decode_request_def bind_result_eq_Inr split: if_splits)
  from current_header_sound [OF h(1-3) rd] obtain body where
    body: "p = wire_header (rd_kind rd) (ih_request_id h) @ body"
      "rd = reader_at (wire_header (rd_kind rd) (ih_request_id h)) body (rd_kind rd)"
    by blast
  from kind(1) body(2) have
    "decode_request_kind (rd_kind rd) (ih_request_id h)
      (reader_at (wire_header (rd_kind rd) (ih_request_id h)) body (rd_kind rd)) = Inr (r, rd')"
    by simp
  from decode_request_kind_sound [OF this kind(2)] body(1) valid h(4) show ?thesis by auto
qed

lemma decode_request_iff:
  assumes "fits p"
  shows "decode_request p = Inr r \<longleftrightarrow> wf_request r \<and> encode_request r = Inr p"
proof
  assume "decode_request p = Inr r"
  from decode_request_sound [OF this] show "wf_request r \<and> encode_request r = Inr p"
    by (simp add: wf_request_if_ok encode_request_ok)
next
  assume r: "wf_request r \<and> encode_request r = Inr p"
  have "validate_request r = Inr ()"
    using r by (cases r) (auto simp: encode_request_def encode_register_root_def
        encode_query_journal_def encode_read_range_def encode_read_volume_def encode_cancel_def
        bind_action_apply bind_result_eq_Inr split: if_splits)
  with r have "ok_request r" by (simp add: ok_request_if_valid)
  with r assms show "decode_request p = Inr r"
    by (auto simp: encode_request_ok intro: decode_wire_request)
qed

section \<open>Properties\<close>

text \<open>
  C17. The request codec is exact on every payload that fits in memory: a payload decodes to a
  request exactly when encoding that request gives the payload back, byte for byte. So nothing is
  lost between client and service, and no request has two encodings.
\<close>

theorem request_codec_exact:
  assumes "length p < 2 ^ 64"
  shows "decode_request p = Inr r \<longleftrightarrow> wf_request r \<and> encode_request r = Inr p"
  using assms by (intro decode_request_iff) (simp add: fits_def)

theorem request_codec_exact_witness:
  "\<exists>p. encode_request (ReadVolume 9 example_volume_request) = Inr p
     \<and> decode_request p = Inr (ReadVolume 9 example_volume_request)"
proof -
  let ?r = "ReadVolume 9 example_volume_request"
  have wf: "wf_request ?r" by code_simp
  then have "encode_request ?r = Inr (wire_request ?r)"
    using ok_request_if_valid [of ?r] example_volume_request_valid by (simp add: encode_request_ok)
  moreover have "length (wire_request ?r) < 2 ^ 64" by code_simp
  ultimately show ?thesis using request_codec_exact wf by blast
qed




end
