(* ===== verification/Response_Validation.thy ===== *)
theory Response_Validation
  imports Request_Codec
begin

text \<open>
  Validation of broker responses (\<open>validate_response\<close> of \<open>journal_broker/wire/codec.rs\<close>), one
  definition per arm, and what a response that passes it promises.
\<close>

section \<open>Validation\<close>

definition validate_identifier_for_codec :: "str \<Rightarrow> nat \<Rightarrow> (wire_error, unit) result" where
  "validate_identifier_for_codec s maximum =
     (if s = [] \<or> length s > maximum \<or> NUL \<in> set s then Inl (InvalidValue ''identifier'')
      else Inr ())"

definition validate_root_registered :: "response_binding \<Rightarrow> root_capability \<Rightarrow> (wire_error, unit) result" where
  "validate_root_registered binding root_capability =
     bind_result (response_binding_validate binding) (\<lambda>_.
     root_capability_validate root_capability)"

text \<open>\<open>next_usn.zip(first_usn).is_none_or(|(next, first)| next < first)\<close>.\<close>

definition next_before_first :: "i64 option \<Rightarrow> i64 option \<Rightarrow> bool" where
  "next_before_first next_usn first_usn = (case (next_usn, first_usn) of
     (Some n, Some f) \<Rightarrow> sint n < sint f
   | _ \<Rightarrow> True)"

definition validate_journal_response :: "journal_response \<Rightarrow> (wire_error, unit) result" where
  "validate_journal_response r =
     bind_result (response_binding_validate (jr_binding r)) (\<lambda>_.
     case jr_capability r of
       Supported \<Rightarrow>
         if (case jr_journal_id r of None \<Rightarrow> True | Some v \<Rightarrow> v = 0)
            \<or> (case jr_first_usn r of None \<Rightarrow> True | Some v \<Rightarrow> sint v < 0)
            \<or> next_before_first (jr_next_usn r) (jr_first_usn r)
         then Inl (InvalidValue ''journal_metadata'') else Inr ()
     | LiveOnly \<Rightarrow>
         if jr_journal_id r \<noteq> None \<or> jr_first_usn r \<noteq> None \<or> jr_next_usn r \<noteq> None
         then Inl (InvalidValue ''live_only_metadata'') else Inr ())"

definition validate_read_range_response :: "read_range_response \<Rightarrow> (wire_error, unit) result" where
  "validate_read_range_response r =
     bind_result (response_binding_validate (xr_binding r)) (\<lambda>_.
     if xr_journal_id r = 0
        \<or> sint (xr_requested_start_usn r) < 0
        \<or> sint (xr_requested_end_usn r) \<le> sint (xr_requested_start_usn r)
        \<or> \<not> in_1_to MAX_RECORDS (xr_max_records r)
        \<or> \<not> in_1_to MAX_EVIDENCE_BYTES (xr_max_evidence_bytes r)
        \<or> sint (xr_covered_until_usn r) \<le> sint (xr_requested_start_usn r)
        \<or> sint (xr_requested_end_usn r) < sint (xr_covered_until_usn r)
        \<or> xr_is_complete r \<noteq> (xr_covered_until_usn r = xr_requested_end_usn r)
        \<or> length (xr_candidates r) > unat MAX_RECORDS
     then Inl (InvalidValue ''covered_range'')
     else bind_result
       (fold_result (candidate_usn_step (xr_requested_start_usn r) (xr_covered_until_usn r))
         (xr_candidates r) None) (\<lambda>_. Inr ()))"

definition validate_read_range_accepted :: "read_range_accepted \<Rightarrow> (wire_error, unit) result" where
  "validate_read_range_accepted r =
     bind_result (response_binding_validate (xa_binding r)) (\<lambda>_.
     if xa_journal_id r = 0
        \<or> sint (xa_requested_start_usn r) < 0
        \<or> sint (xa_requested_end_usn r) \<le> sint (xa_requested_start_usn r)
        \<or> \<not> in_1_to MAX_RECORDS (xa_max_records r)
        \<or> \<not> in_1_to MAX_EVIDENCE_BYTES (xa_max_evidence_bytes r)
     then Inl (InvalidValue ''accepted_range'') else Inr ())"

definition validate_read_volume_accepted :: "read_volume_accepted \<Rightarrow> (wire_error, unit) result" where
  "validate_read_volume_accepted r =
     (if all_zero (va_client_instance r)
         \<or> validate_identifier_for_codec (va_volume_id r) MAX_VOLUME_ID_BYTES \<noteq> Inr ()
         \<or> va_journal_id r = 0
         \<or> read_interval_new (va_requested_start_usn r) (va_requested_end_usn r) = None
         \<or> \<not> (1 \<le> va_root_count r \<and> va_root_count r \<le> of_nat MAX_SHARED_ROOTS)
         \<or> \<not> in_1_to MAX_RECORDS (va_max_records r)
         \<or> \<not> in_1_to MAX_EVIDENCE_BYTES (va_max_evidence_bytes r)
      then Inl (InvalidValue ''accepted_shared_range'') else Inr ())"

text \<open>\<open>total.checked_add(n).ok_or(LengthOverflow)\<close>, with \<open>n\<close> an evidence size or not.\<close>

definition add_total :: "nat \<Rightarrow> nat \<Rightarrow> (wire_error, nat) result" where
  "add_total so_far n = ok_or (checked_add so_far n) LengthOverflow"

definition add_evidence :: "nat \<Rightarrow> nat option \<Rightarrow> (wire_error, nat) result" where
  "add_evidence so_far amount = bind_result (ok_or amount LengthOverflow) (add_total so_far)"

text \<open>The totals of a response: its records and its evidence bytes.\<close>

record totals =
  tt_records :: nat
  tt_evidence :: nat

definition validate_outcome_step ::
    "read_volume_response \<Rightarrow> shared_journal_root_outcome \<Rightarrow> (str \<times> u64) set \<times> totals
      \<Rightarrow> (wire_error, (str \<times> u64) set \<times> totals) result" where
  "validate_outcome_step r outcome = (\<lambda>(bindings, totals).
     bind_result (root_outcome_validate outcome (vr_requested_end_usn r) (unat (vr_max_records r)))
       (\<lambda>_.
     let key = (rb_root_id (so_binding outcome), rb_root_generation (so_binding outcome)) in
     if rb_client_instance (so_binding outcome) \<noteq> vr_client_instance r
        \<or> rb_volume_id (so_binding outcome) \<noteq> vr_volume_id r
        \<or> key \<in> bindings
     then Inl (InvalidValue ''shared_response_binding'')
     else bind_result (add_total (tt_records totals) (length (so_candidates outcome))) (\<lambda>records.
       bind_result (fold_result (\<lambda>candidate evidence.
           add_evidence evidence (candidate_evidence_bytes candidate))
         (so_candidates outcome) (tt_evidence totals)) (\<lambda>evidence.
       Inr (insert key bindings, \<lparr>tt_records = records, tt_evidence = evidence\<rparr>)))))"

definition same_endpoint :: "response_binding \<Rightarrow> shared_journal_root_outcome \<Rightarrow> bool" where
  "same_endpoint endpoint outcome \<longleftrightarrow>
     rb_root_id (so_binding outcome) = rb_root_id endpoint
     \<and> rb_root_generation (so_binding outcome) = rb_root_generation endpoint
     \<and> rb_client_instance (so_binding outcome) = rb_client_instance endpoint
     \<and> rb_volume_id (so_binding outcome) = rb_volume_id endpoint"

text \<open>
  The outcome an endpoint is bound to must be a proof of coverage that includes the USN;
  \<open>covered_until_usn.filter(|_| failure.is_none())\<close> is the first test.
\<close>

definition validate_endpoint ::
    "string \<Rightarrow> string \<Rightarrow> shared_journal_root_outcome list \<Rightarrow> i64 \<Rightarrow> response_binding
      \<Rightarrow> (wire_error, unit) result" where
  "validate_endpoint endpoint_error range_error outcomes usn endpoint =
     bind_result (ok_or (List.find (same_endpoint endpoint) outcomes) (InvalidValue endpoint_error))
       (\<lambda>outcome.
     bind_result (ok_or (if so_failure outcome = None then so_covered_until_usn outcome else None)
       (InvalidValue endpoint_error)) (\<lambda>covered.
     if sint usn < sint (so_requested_start_usn outcome) \<or> sint covered \<le> sint usn
     then Inl (InvalidValue range_error) else Inr ()))"

definition handoff_endpoints :: "shared_journal_handoff \<Rightarrow> response_binding list" where
  "handoff_endpoints handoff =
     (if sh_previous_carry_id handoff \<noteq> None then [sh_current_binding handoff]
      else [sh_previous_binding handoff, sh_current_binding handoff])"

definition validate_handoff_step ::
    "read_volume_response \<Rightarrow> shared_journal_handoff \<Rightarrow> totals \<Rightarrow> (wire_error, totals) result" where
  "validate_handoff_step r handoff totals =
     bind_result (add_total (tt_records totals) 1) (\<lambda>records.
     bind_result (handoff_validate handoff (vr_client_instance r) (vr_volume_id r)
       (vr_requested_end_usn r)) (\<lambda>_.
     bind_result (each_result
       (validate_endpoint ''shared_handoff_endpoint'' ''shared_handoff_range'' (vr_outcomes r)
         (sh_usn handoff)) (handoff_endpoints handoff)) (\<lambda>_.
     bind_result (add_evidence (tt_evidence totals) (handoff_evidence_bytes handoff)) (\<lambda>evidence.
     Inr \<lparr>tt_records = records, tt_evidence = evidence\<rparr>))))"

definition validate_pending_step ::
    "read_volume_response \<Rightarrow> shared_journal_pending_rename \<Rightarrow> totals
      \<Rightarrow> (wire_error, totals) result" where
  "validate_pending_step r pending totals =
     bind_result (pending_rename_validate pending (vr_client_instance r) (vr_volume_id r)
       (vr_requested_end_usn r)) (\<lambda>_.
     bind_result (validate_endpoint ''shared_pending_rename_endpoint''
       ''shared_pending_rename_range'' (vr_outcomes r) (sp_old_usn pending) (sp_binding pending))
       (\<lambda>_.
     bind_result (add_total (tt_records totals) 1) (\<lambda>records.
     bind_result (add_evidence (tt_evidence totals) (pending_rename_evidence_bytes pending))
       (\<lambda>evidence.
     Inr \<lparr>tt_records = records, tt_evidence = evidence\<rparr>))))"

definition validate_read_volume_response :: "read_volume_response \<Rightarrow> (wire_error, unit) result" where
  "validate_read_volume_response r =
     (if all_zero (vr_client_instance r)
         \<or> validate_identifier_for_codec (vr_volume_id r) MAX_VOLUME_ID_BYTES \<noteq> Inr ()
         \<or> vr_journal_id r = 0
         \<or> sint (vr_requested_end_usn r) < 0
         \<or> \<not> in_1_to MAX_RECORDS (vr_max_records r)
         \<or> \<not> in_1_to MAX_EVIDENCE_BYTES (vr_max_evidence_bytes r)
         \<or> \<not> (1 \<le> length (vr_outcomes r) \<and> length (vr_outcomes r) \<le> MAX_SHARED_ROOTS)
         \<or> length (vr_handoffs r) > MAX_SHARED_HANDOFFS
         \<or> length (vr_pending_renames r) > MAX_SHARED_PENDING_RENAMES
      then Inl (InvalidValue ''shared_range'')
      else bind_result (fold_result (validate_outcome_step r) (vr_outcomes r)
             ({}, \<lparr>tt_records = 0, tt_evidence = 0\<rparr>)) (\<lambda>(_, totals).
        bind_result (fold_result (validate_handoff_step r) (vr_handoffs r) totals) (\<lambda>totals.
        bind_result (fold_result (validate_pending_step r) (vr_pending_renames r) totals) (\<lambda>totals.
        if tt_records totals > unat (vr_max_records r)
           \<or> tt_evidence totals > unat (vr_max_evidence_bytes r)
        then Inl LengthExceeded else Inr ()))))"

definition validate_cancelled :: "bytes \<Rightarrow> u64 \<Rightarrow> (wire_error, unit) result" where
  "validate_cancelled client_instance target_request_id =
     (if all_zero client_instance \<or> target_request_id = 0
      then Inl (InvalidValue ''cancelled_response'') else Inr ())"

definition validate_failure :: "bytes option \<Rightarrow> (wire_error, unit) result" where
  "validate_failure client_instance =
     (if (case client_instance of None \<Rightarrow> False | Some v \<Rightarrow> all_zero v)
      then Inl (InvalidValue ''failure_binding'') else Inr ())"

fun validate_response_body :: "broker_response \<Rightarrow> (wire_error, unit) result" where
  "validate_response_body (RootRegistered _ binding root_capability) =
     validate_root_registered binding root_capability"
| "validate_response_body (JournalResponse _ r) = validate_journal_response r"
| "validate_response_body (ReadRangeResponse _ r) = validate_read_range_response r"
| "validate_response_body (ReadRangeAccepted _ r) = validate_read_range_accepted r"
| "validate_response_body (ReadVolumeAccepted _ r) = validate_read_volume_accepted r"
| "validate_response_body (ReadVolumeResponse _ r) = validate_read_volume_response r"
| "validate_response_body (CancelledResponse _ client_instance target_request_id) =
     validate_cancelled client_instance target_request_id"
| "validate_response_body (FailureResponse _ client_instance _) = validate_failure client_instance"

fun is_failure :: "broker_response \<Rightarrow> bool" where
  "is_failure (FailureResponse _ _ _) = True"
| "is_failure _ = False"

definition validate_response :: "broker_response \<Rightarrow> (wire_error, unit) result" where
  "validate_response response =
     (if response_request_id response = 0 \<and> \<not> is_failure response
      then Inl (InvalidValue ''request_id'') else validate_response_body response)"

section \<open>Totals\<close>

text \<open>What a list of records adds up to.\<close>

definition evidence_sum :: "('a \<Rightarrow> nat option) \<Rightarrow> 'a list \<Rightarrow> nat" where
  "evidence_sum f xs = (\<Sum>x \<leftarrow> xs. the (f x))"

definition response_records :: "read_volume_response \<Rightarrow> nat" where
  "response_records r = (\<Sum>x \<leftarrow> vr_outcomes r. length (so_candidates x))
     + length (vr_handoffs r) + length (vr_pending_renames r)"

definition response_evidence :: "read_volume_response \<Rightarrow> nat" where
  "response_evidence r =
     (\<Sum>x \<leftarrow> vr_outcomes r. evidence_sum candidate_evidence_bytes (so_candidates x))
     + evidence_sum handoff_evidence_bytes (vr_handoffs r)
     + evidence_sum pending_rename_evidence_bytes (vr_pending_renames r)"

lemma evidence_sum_simps [simp]:
  "evidence_sum f [] = 0"
  "evidence_sum f (x # xs) = the (f x) + evidence_sum f xs"
  by (simp_all add: evidence_sum_def)

lemma add_total_eq_Inr: "add_total s n = Inr t \<longleftrightarrow> t = s + n \<and> t < 2 ^ 64"
  by (auto simp: add_total_def ok_or_eq_Inr)

lemma add_evidence_eq_Inr:
  "add_evidence s v = Inr t \<longleftrightarrow> (\<exists>n. v = Some n \<and> t = s + n \<and> t < 2 ^ 64)"
  by (auto simp: add_evidence_def bind_result_eq_Inr ok_or_eq_Inr add_total_eq_Inr)

lemma evidence_fold:
  assumes "fold_result (\<lambda>x e. add_evidence e (f x)) xs e = Inr e'"
  shows "(\<forall>x \<in> set xs. f x \<noteq> None) \<and> e' = e + evidence_sum f xs"
  using assms
  by (induction xs arbitrary: e) (fastforce simp: bind_result_eq_Inr add_evidence_eq_Inr)+

abbreviation outcome_key :: "shared_journal_root_outcome \<Rightarrow> str \<times> u64" where
  "outcome_key x \<equiv> (rb_root_id (so_binding x), rb_root_generation (so_binding x))"

lemma validate_outcome_step_InrD:
  assumes "validate_outcome_step r x (B, t) = Inr (B', t')"
  shows "root_outcome_validate x (vr_requested_end_usn r) (unat (vr_max_records r)) = Inr ()
    \<and> rb_client_instance (so_binding x) = vr_client_instance r \<and> rb_volume_id (so_binding x) = vr_volume_id r
    \<and> (\<forall>c \<in> set (so_candidates x). candidate_evidence_bytes c \<noteq> None)
    \<and> outcome_key x \<notin> B \<and> B' = insert (outcome_key x) B
    \<and> tt_records t' = tt_records t + length (so_candidates x)
    \<and> tt_evidence t' = tt_evidence t + evidence_sum candidate_evidence_bytes (so_candidates x)"
  using assms
  by (auto simp: validate_outcome_step_def bind_result_eq_Inr Let_def add_total_eq_Inr
      split: if_splits dest!: evidence_fold)

lemma validate_outcomes_fold:
  assumes "fold_result (validate_outcome_step r) xs (B, t) = Inr (B', t')"
  shows "(\<forall>x \<in> set xs. root_outcome_validate x (vr_requested_end_usn r) (unat (vr_max_records r)) = Inr ()
      \<and> rb_client_instance (so_binding x) = vr_client_instance r \<and> rb_volume_id (so_binding x) = vr_volume_id r
      \<and> (\<forall>c \<in> set (so_candidates x). candidate_evidence_bytes c \<noteq> None))
    \<and> distinct (map outcome_key xs) \<and> outcome_key ` set xs \<inter> B = {}
    \<and> tt_records t' = tt_records t + (\<Sum>x \<leftarrow> xs. length (so_candidates x))
    \<and> tt_evidence t' = tt_evidence t + (\<Sum>x \<leftarrow> xs. evidence_sum candidate_evidence_bytes (so_candidates x))"
  using assms
proof (induction xs arbitrary: B t)
  case Nil
  then show ?case by simp
next
  case (Cons x xs)
  then obtain B1 t1 where step: "validate_outcome_step r x (B, t) = Inr (B1, t1)"
    and rest: "fold_result (validate_outcome_step r) xs (B1, t1) = Inr (B', t')"
    by (auto simp: bind_result_eq_Inr)
  from validate_outcome_step_InrD [OF step] Cons.IH [OF rest] show ?case by auto
qed

definition endpoint_covered :: "shared_journal_root_outcome list \<Rightarrow> i64 \<Rightarrow> response_binding \<Rightarrow> bool" where
  "endpoint_covered outcomes usn endpoint \<longleftrightarrow>
     (\<exists>x \<in> set outcomes. same_endpoint endpoint x \<and> so_failure x = None
        \<and> (\<exists>c. so_covered_until_usn x = Some c
             \<and> sint (so_requested_start_usn x) \<le> sint usn \<and> sint usn < sint c))"

lemma find_SomeD: "List.find P xs = Some x \<Longrightarrow> x \<in> set xs \<and> P x"
  by (auto simp: find_Some_iff)

lemma validate_endpoint_InrD:
  "validate_endpoint e1 e2 outcomes usn b = Inr () \<Longrightarrow> endpoint_covered outcomes usn b"
  by (auto simp: validate_endpoint_def bind_result_eq_Inr ok_or_eq_Inr endpoint_covered_def
      not_less not_le split: if_splits dest!: find_SomeD)

lemma validate_handoffs_fold:
  assumes "fold_result (validate_handoff_step r) hs t = Inr t'"
  shows "(\<forall>h \<in> set hs. handoff_validate h (vr_client_instance r) (vr_volume_id r) (vr_requested_end_usn r) = Inr ()
      \<and> (\<forall>b \<in> set (handoff_endpoints h). endpoint_covered (vr_outcomes r) (sh_usn h) b)
      \<and> handoff_evidence_bytes h \<noteq> None)
    \<and> tt_records t' = tt_records t + length hs
    \<and> tt_evidence t' = tt_evidence t + evidence_sum handoff_evidence_bytes hs"
  using assms
proof (induction hs arbitrary: t)
  case Nil
  then show ?case by simp
next
  case (Cons h hs)
  then obtain t1 where step: "validate_handoff_step r h t = Inr t1"
    and rest: "fold_result (validate_handoff_step r) hs t1 = Inr t'"
    by (auto simp: bind_result_eq_Inr)
  from step Cons.IH [OF rest] show ?case
    by (auto simp: validate_handoff_step_def bind_result_eq_Inr add_total_eq_Inr
        add_evidence_eq_Inr each_result_eq_Inr dest: validate_endpoint_InrD)
qed

lemma validate_pendings_fold:
  assumes "fold_result (validate_pending_step r) ps t = Inr t'"
  shows "(\<forall>p \<in> set ps. pending_rename_validate p (vr_client_instance r) (vr_volume_id r) (vr_requested_end_usn r) = Inr ()
      \<and> endpoint_covered (vr_outcomes r) (sp_old_usn p) (sp_binding p)
      \<and> pending_rename_evidence_bytes p \<noteq> None)
    \<and> tt_records t' = tt_records t + length ps
    \<and> tt_evidence t' = tt_evidence t + evidence_sum pending_rename_evidence_bytes ps"
  using assms
proof (induction ps arbitrary: t)
  case Nil
  then show ?case by simp
next
  case (Cons p ps)
  then obtain t1 where step: "validate_pending_step r p t = Inr t1"
    and rest: "fold_result (validate_pending_step r) ps t1 = Inr t'"
    by (auto simp: bind_result_eq_Inr)
  from step Cons.IH [OF rest] show ?case
    by (auto simp: validate_pending_step_def bind_result_eq_Inr add_total_eq_Inr
        add_evidence_eq_Inr dest: validate_endpoint_InrD)
qed

lemma validate_identifier_for_codec_eq: "validate_identifier_for_codec = validate_identifier"
  by (intro ext) (simp add: validate_identifier_for_codec_def validate_identifier_def)

lemma validate_read_volume_responseE:
  assumes "validate_read_volume_response r = Inr ()"
  obtains B t0 t1 t2 where
    "\<not> all_zero (vr_client_instance r)"
    "validate_identifier (vr_volume_id r) MAX_VOLUME_ID_BYTES = Inr ()"
    "in_1_to MAX_RECORDS (vr_max_records r)" "in_1_to MAX_EVIDENCE_BYTES (vr_max_evidence_bytes r)"
    "1 \<le> length (vr_outcomes r)" "length (vr_outcomes r) \<le> MAX_SHARED_ROOTS"
    "length (vr_handoffs r) \<le> MAX_SHARED_HANDOFFS"
    "length (vr_pending_renames r) \<le> MAX_SHARED_PENDING_RENAMES"
    "fold_result (validate_outcome_step r) (vr_outcomes r)
      ({}, \<lparr>tt_records = 0, tt_evidence = 0\<rparr>) = Inr (B, t0)"
    "fold_result (validate_handoff_step r) (vr_handoffs r) t0 = Inr t1"
    "fold_result (validate_pending_step r) (vr_pending_renames r) t1 = Inr t2"
    "tt_records t2 \<le> unat (vr_max_records r)" "tt_evidence t2 \<le> unat (vr_max_evidence_bytes r)"
  using assms
  by (auto simp: validate_read_volume_response_def bind_result_eq_Inr not_less
      validate_identifier_for_codec_eq split: if_splits)

lemma validate_read_volume_response_InrD:
  assumes "validate_read_volume_response r = Inr ()"
  shows "\<not> all_zero (vr_client_instance r)"
    and "validate_identifier (vr_volume_id r) MAX_VOLUME_ID_BYTES = Inr ()"
    and "in_1_to MAX_RECORDS (vr_max_records r)"
    and "in_1_to MAX_EVIDENCE_BYTES (vr_max_evidence_bytes r)"
    and "1 \<le> length (vr_outcomes r)" and "length (vr_outcomes r) \<le> MAX_SHARED_ROOTS"
    and "length (vr_handoffs r) \<le> MAX_SHARED_HANDOFFS"
    and "length (vr_pending_renames r) \<le> MAX_SHARED_PENDING_RENAMES"
    and "distinct (map outcome_key (vr_outcomes r))"
    and "\<And>x. x \<in> set (vr_outcomes r) \<Longrightarrow>
      root_outcome_validate x (vr_requested_end_usn r) (unat (vr_max_records r)) = Inr ()
      \<and> rb_client_instance (so_binding x) = vr_client_instance r \<and> rb_volume_id (so_binding x) = vr_volume_id r
      \<and> (\<forall>c \<in> set (so_candidates x). candidate_evidence_bytes c \<noteq> None)"
    and "\<And>h. h \<in> set (vr_handoffs r) \<Longrightarrow>
      handoff_validate h (vr_client_instance r) (vr_volume_id r) (vr_requested_end_usn r) = Inr ()
      \<and> (\<forall>b \<in> set (handoff_endpoints h). endpoint_covered (vr_outcomes r) (sh_usn h) b)
      \<and> handoff_evidence_bytes h \<noteq> None"
    and "\<And>p. p \<in> set (vr_pending_renames r) \<Longrightarrow>
      pending_rename_validate p (vr_client_instance r) (vr_volume_id r) (vr_requested_end_usn r) = Inr ()
      \<and> endpoint_covered (vr_outcomes r) (sp_old_usn p) (sp_binding p)
      \<and> pending_rename_evidence_bytes p \<noteq> None"
    and "response_records r \<le> unat (vr_max_records r)"
    and "response_evidence r \<le> unat (vr_max_evidence_bytes r)"
  by (rule validate_read_volume_responseE [OF assms],
      auto simp: response_records_def response_evidence_def
      dest!: validate_outcomes_fold validate_handoffs_fold validate_pendings_fold)+

section \<open>Properties\<close>


definition example_handoff :: shared_journal_handoff where
  "example_handoff = \<lparr>sh_previous_binding = example_binding (lit ''root-a''),
     sh_current_binding = example_binding (lit ''root-b''), sh_file_reference = replicate 16 7,
     sh_usn = 15, sh_previous_relative_path = lit ''source.jpg'',
     sh_current_relative_path = lit ''moved.jpg'', sh_is_directory = False,
     sh_previous_carry_id = None\<rparr>"

definition example_pending :: shared_journal_pending_rename where
  "example_pending = \<lparr>sp_binding = example_binding (lit ''root-a''),
     sp_file_reference = replicate 16 9, sp_old_usn = 16,
     sp_previous_relative_path = lit ''a/c.jpg'', sp_is_directory = False\<rparr>"

definition example_volume_response :: read_volume_response where
  "example_volume_response = \<lparr>vr_client_instance = replicate 16 3, vr_volume_id = lit ''volume-a'',
     vr_journal_id = 77, vr_requested_end_usn = 20, vr_max_records = 32,
     vr_max_evidence_bytes = 4096,
     vr_outcomes = [example_outcome (lit ''root-a''), example_outcome (lit ''root-b'')],
     vr_handoffs = [example_handoff], vr_pending_renames = [example_pending]\<rparr>"

lemma example_volume_response_valid:
  "validate_read_volume_response example_volume_response = Inr ()"
  by code_simp


end
