(* ===== verification/Response_Codec.thy ===== *)
theory Response_Codec
  imports Response_Validation
begin

text \<open>
  Encoding and decoding of broker responses (\<open>encode_response\<close> and \<open>decode_response\<close> of
  \<open>journal_broker/wire/codec.rs\<close>), one definition per arm.
\<close>

section \<open>Codes\<close>

definition JOURNAL_RESPONSE :: u16 where "JOURNAL_RESPONSE = 0x8001"
definition READ_RESPONSE :: u16 where "READ_RESPONSE = 0x8002"
definition CANCEL_RESPONSE :: u16 where "CANCEL_RESPONSE = 0x8003"
definition READ_ACCEPTED_RESPONSE :: u16 where "READ_ACCEPTED_RESPONSE = 0x8004"
definition ROOT_REGISTERED_RESPONSE :: u16 where "ROOT_REGISTERED_RESPONSE = 0x8005"
definition READ_VOLUME_RESPONSE :: u16 where "READ_VOLUME_RESPONSE = 0x8006"
definition READ_VOLUME_ACCEPTED_RESPONSE :: u16 where "READ_VOLUME_ACCEPTED_RESPONSE = 0x8007"
definition FAILURE_RESPONSE :: u16 where "FAILURE_RESPONSE = 0x8fff"

lemmas response_kinds = JOURNAL_RESPONSE_def READ_RESPONSE_def CANCEL_RESPONSE_def
  READ_ACCEPTED_RESPONSE_def ROOT_REGISTERED_RESPONSE_def READ_VOLUME_RESPONSE_def
  READ_VOLUME_ACCEPTED_RESPONSE_def FAILURE_RESPONSE_def

fun capability_code :: "journal_capability \<Rightarrow> u8" where
  "capability_code Supported = 1"
| "capability_code LiveOnly = 2"

definition decode_capability :: "u8 \<Rightarrow> (wire_error, journal_capability) result" where
  "decode_capability v = (if v = 1 then Inr Supported else if v = 2 then Inr LiveOnly
     else Inl (InvalidValue ''journal_capability''))"

fun failure_code :: "broker_failure_code \<Rightarrow> u16" where
  "failure_code ProtocolMismatch = 1"
| "failure_code MalformedFrame = 2"
| "failure_code RequestTooLarge = 3"
| "failure_code CallerRejected = 4"
| "failure_code RootUnauthorized = 5"
| "failure_code RootIdentityMismatch = 6"
| "failure_code VolumeMismatch = 7"
| "failure_code JournalUnavailable = 8"
| "failure_code JournalDiscontinuous = 9"
| "failure_code RecordUnsupported = 10"
| "failure_code EvidenceLimitExceeded = 11"
| "failure_code TimedOut = 12"
| "failure_code Cancelled = 13"
| "failure_code RequestNotActive = 14"
| "failure_code ActiveLimitExceeded = 15"
| "failure_code BackendUnavailable = 16"
| "failure_code Internal = 17"
| "failure_code TerminalDeliveryBackpressure = 18"

definition decode_failure_code :: "u16 \<Rightarrow> (wire_error, broker_failure_code) result" where
  "decode_failure_code v =
     (if v = 1 then Inr ProtocolMismatch
      else if v = 2 then Inr MalformedFrame
      else if v = 3 then Inr RequestTooLarge
      else if v = 4 then Inr CallerRejected
      else if v = 5 then Inr RootUnauthorized
      else if v = 6 then Inr RootIdentityMismatch
      else if v = 7 then Inr VolumeMismatch
      else if v = 8 then Inr JournalUnavailable
      else if v = 9 then Inr JournalDiscontinuous
      else if v = 10 then Inr RecordUnsupported
      else if v = 11 then Inr EvidenceLimitExceeded
      else if v = 12 then Inr TimedOut
      else if v = 13 then Inr Cancelled
      else if v = 14 then Inr RequestNotActive
      else if v = 15 then Inr ActiveLimitExceeded
      else if v = 16 then Inr BackendUnavailable
      else if v = 17 then Inr Internal
      else if v = 18 then Inr TerminalDeliveryBackpressure
      else Inl (InvalidValue ''failure_code''))"

section \<open>Encoding\<close>

definition write_failure_code :: "broker_failure \<Rightarrow> writes" where
  "write_failure_code failure = writer_u16 (failure_code (failure_code_of failure))"

definition write_root_registered :: "response_binding \<Rightarrow> root_capability \<Rightarrow> writes" where
  "write_root_registered binding root_capability =
     bind_action (writer_binding binding) (\<lambda>_. writer_root_capability root_capability)"

definition write_journal_response :: "journal_response \<Rightarrow> writes" where
  "write_journal_response r =
     bind_action (writer_binding (jr_binding r)) (\<lambda>_.
     bind_action (writer_u8 (capability_code (jr_capability r))) (\<lambda>_.
     bind_action (writer_optional_u64 (jr_journal_id r)) (\<lambda>_.
     bind_action (writer_optional_i64 (jr_first_usn r)) (\<lambda>_.
     writer_optional_i64 (jr_next_usn r)))))"

text \<open>The number of candidates, then the candidates.\<close>

definition write_candidates :: "broker_candidate list \<Rightarrow> writes" where
  "write_candidates candidates =
     bind_action (writer_length (length candidates)) (\<lambda>_. each_action writer_candidate candidates)"

definition write_read_range_response :: "read_range_response \<Rightarrow> writes" where
  "write_read_range_response r =
     bind_action (writer_binding (xr_binding r)) (\<lambda>_.
     bind_action (writer_u64 (xr_journal_id r)) (\<lambda>_.
     bind_action (writer_i64 (xr_requested_start_usn r)) (\<lambda>_.
     bind_action (writer_i64 (xr_requested_end_usn r)) (\<lambda>_.
     bind_action (writer_u32 (xr_max_records r)) (\<lambda>_.
     bind_action (writer_u32 (xr_max_evidence_bytes r)) (\<lambda>_.
     bind_action (writer_i64 (xr_covered_until_usn r)) (\<lambda>_.
     bind_action (writer_boolean (xr_is_complete r)) (\<lambda>_.
     write_candidates (xr_candidates r)))))))))"

definition write_read_range_accepted :: "read_range_accepted \<Rightarrow> writes" where
  "write_read_range_accepted r =
     bind_action (writer_binding (xa_binding r)) (\<lambda>_.
     bind_action (writer_u64 (xa_journal_id r)) (\<lambda>_.
     bind_action (writer_i64 (xa_requested_start_usn r)) (\<lambda>_.
     bind_action (writer_i64 (xa_requested_end_usn r)) (\<lambda>_.
     bind_action (writer_u32 (xa_max_records r)) (\<lambda>_.
     writer_u32 (xa_max_evidence_bytes r))))))"

definition write_read_volume_accepted :: "read_volume_accepted \<Rightarrow> writes" where
  "write_read_volume_accepted r =
     bind_action (writer_bytes (va_client_instance r)) (\<lambda>_.
     bind_action (writer_string (va_volume_id r)) (\<lambda>_.
     bind_action (writer_u64 (va_journal_id r)) (\<lambda>_.
     bind_action (writer_i64 (va_requested_start_usn r)) (\<lambda>_.
     bind_action (writer_i64 (va_requested_end_usn r)) (\<lambda>_.
     bind_action (writer_u8 (va_root_count r)) (\<lambda>_.
     bind_action (writer_u32 (va_max_records r)) (\<lambda>_.
     writer_u32 (va_max_evidence_bytes r))))))))"

definition write_outcome :: "shared_journal_root_outcome \<Rightarrow> writes" where
  "write_outcome outcome =
     bind_action (writer_binding (so_binding outcome)) (\<lambda>_.
     bind_action (writer_i64 (so_requested_start_usn outcome)) (\<lambda>_.
     bind_action (writer_boolean (so_failure outcome \<noteq> None)) (\<lambda>_.
     case so_failure outcome of
       Some failure \<Rightarrow> write_failure_code failure
     | None \<Rightarrow>
         bind_action (lift_result (ok_or (so_covered_until_usn outcome)
           (InvalidValue ''shared_root_proof''))) (\<lambda>covered.
         bind_action (writer_i64 covered) (\<lambda>_.
         bind_action (writer_boolean (so_is_complete outcome)) (\<lambda>_.
         write_candidates (so_candidates outcome)))))))"

definition write_handoff :: "shared_journal_handoff \<Rightarrow> writes" where
  "write_handoff handoff =
     bind_action (writer_binding (sh_previous_binding handoff)) (\<lambda>_.
     bind_action (writer_binding (sh_current_binding handoff)) (\<lambda>_.
     bind_action (writer_byte_vec (sh_file_reference handoff)) (\<lambda>_.
     bind_action (writer_i64 (sh_usn handoff)) (\<lambda>_.
     bind_action (writer_string (sh_previous_relative_path handoff)) (\<lambda>_.
     bind_action (writer_string (sh_current_relative_path handoff)) (\<lambda>_.
     bind_action (writer_boolean (sh_is_directory handoff)) (\<lambda>_.
     writer_option writer_string (sh_previous_carry_id handoff))))))))"

definition write_pending :: "shared_journal_pending_rename \<Rightarrow> writes" where
  "write_pending pending =
     bind_action (writer_binding (sp_binding pending)) (\<lambda>_.
     bind_action (writer_byte_vec (sp_file_reference pending)) (\<lambda>_.
     bind_action (writer_i64 (sp_old_usn pending)) (\<lambda>_.
     bind_action (writer_string (sp_previous_relative_path pending)) (\<lambda>_.
     writer_boolean (sp_is_directory pending)))))"

definition write_read_volume_response :: "read_volume_response \<Rightarrow> writes" where
  "write_read_volume_response r =
     bind_action (writer_bytes (vr_client_instance r)) (\<lambda>_.
     bind_action (writer_string (vr_volume_id r)) (\<lambda>_.
     bind_action (writer_u64 (vr_journal_id r)) (\<lambda>_.
     bind_action (writer_i64 (vr_requested_end_usn r)) (\<lambda>_.
     bind_action (writer_u32 (vr_max_records r)) (\<lambda>_.
     bind_action (writer_u32 (vr_max_evidence_bytes r)) (\<lambda>_.
     bind_action (writer_count_u8 (length (vr_outcomes r))) (\<lambda>_.
     bind_action (each_action write_outcome (vr_outcomes r)) (\<lambda>_.
     bind_action (writer_length (length (vr_handoffs r))) (\<lambda>_.
     bind_action (each_action write_handoff (vr_handoffs r)) (\<lambda>_.
     bind_action (writer_length (length (vr_pending_renames r))) (\<lambda>_.
     each_action write_pending (vr_pending_renames r))))))))))))"

definition write_cancelled :: "bytes \<Rightarrow> u64 \<Rightarrow> writes" where
  "write_cancelled client_instance target_request_id =
     bind_action (writer_bytes client_instance) (\<lambda>_. writer_u64 target_request_id)"

definition write_failure :: "bytes option \<Rightarrow> broker_failure \<Rightarrow> writes" where
  "write_failure client_instance failure =
     bind_action (writer_option writer_bytes client_instance) (\<lambda>_. write_failure_code failure)"

text \<open>Every arm writes its header first.\<close>

fun encode_response_body :: "broker_response \<Rightarrow> writes" where
  "encode_response_body (RootRegistered request_id binding root_capability) =
     bind_action (writer_header ROOT_REGISTERED_RESPONSE request_id) (\<lambda>_.
     write_root_registered binding root_capability)"
| "encode_response_body (JournalResponse request_id r) =
     bind_action (writer_header JOURNAL_RESPONSE request_id) (\<lambda>_. write_journal_response r)"
| "encode_response_body (ReadRangeResponse request_id r) =
     bind_action (writer_header READ_RESPONSE request_id) (\<lambda>_. write_read_range_response r)"
| "encode_response_body (ReadRangeAccepted request_id r) =
     bind_action (writer_header READ_ACCEPTED_RESPONSE request_id) (\<lambda>_.
     write_read_range_accepted r)"
| "encode_response_body (ReadVolumeAccepted request_id r) =
     bind_action (writer_header READ_VOLUME_ACCEPTED_RESPONSE request_id) (\<lambda>_.
     write_read_volume_accepted r)"
| "encode_response_body (ReadVolumeResponse request_id r) =
     bind_action (writer_header READ_VOLUME_RESPONSE request_id) (\<lambda>_.
     write_read_volume_response r)"
| "encode_response_body (CancelledResponse request_id client_instance target_request_id) =
     bind_action (writer_header CANCEL_RESPONSE request_id) (\<lambda>_.
     write_cancelled client_instance target_request_id)"
| "encode_response_body (FailureResponse request_id client_instance failure) =
     bind_action (writer_header FAILURE_RESPONSE request_id) (\<lambda>_.
     write_failure client_instance failure)"

definition encode_response :: "broker_response \<Rightarrow> (wire_error, bytes) result" where
  "encode_response response =
     bind_result (validate_response response) (\<lambda>_.
     bind_result (encode_response_body response writer_new) (\<lambda>(_, w). Inr (writer_finish w)))"

section \<open>Decoding\<close>

definition read_failure_code :: "broker_failure reads" where
  "read_failure_code = bind_action reader_u16 (\<lambda>v.
     bind_action (lift_result (decode_failure_code v)) (\<lambda>code.
     return_action (BrokerFailure code)))"

definition read_root_registered :: "u64 \<Rightarrow> broker_response reads" where
  "read_root_registered request_id =
     bind_action reader_binding (\<lambda>binding.
     bind_action reader_root_capability (\<lambda>root_capability.
     return_action (RootRegistered request_id binding root_capability)))"

definition read_journal_response :: "journal_response reads" where
  "read_journal_response =
     bind_action reader_binding (\<lambda>binding.
     bind_action (bind_action reader_u8 (\<lambda>v. lift_result (decode_capability v))) (\<lambda>capability.
     bind_action reader_optional_u64 (\<lambda>journal_id.
     bind_action reader_optional_i64 (\<lambda>first_usn.
     bind_action reader_optional_i64 (\<lambda>next_usn.
     return_action \<lparr>jr_binding = binding, jr_capability = capability, jr_journal_id = journal_id,
       jr_first_usn = first_usn, jr_next_usn = next_usn\<rparr>)))))"

text \<open>Running totals, checked against the limits of the protocol after every addition.\<close>

definition count_records :: "nat \<Rightarrow> nat \<Rightarrow> (wire_error, nat) result" where
  "count_records records n = bind_result (add_total records n) (\<lambda>records.
     if records > unat MAX_RECORDS then Inl LengthExceeded else Inr records)"

definition count_evidence :: "nat \<Rightarrow> nat option \<Rightarrow> (wire_error, nat) result" where
  "count_evidence evidence amount = bind_result (add_evidence evidence amount) (\<lambda>evidence.
     if evidence > unat MAX_EVIDENCE_BYTES then Inl LengthExceeded else Inr evidence)"

text \<open>A counted loop that reads an element and updates running totals.\<close>

fun accumulate_action ::
    "nat \<Rightarrow> 'a reads \<Rightarrow> ('a \<Rightarrow> 's \<Rightarrow> (wire_error, 's) result) \<Rightarrow> 's \<Rightarrow> ('a list \<times> 's) reads" where
  "accumulate_action 0 get step s = return_action ([], s)"
| "accumulate_action (Suc n) get step s =
     bind_action get (\<lambda>x.
     bind_action (lift_result (step x s)) (\<lambda>s'.
     bind_action (accumulate_action n get step s') (\<lambda>(xs, s'').
     return_action (x # xs, s''))))"

definition count_candidate :: "broker_candidate \<Rightarrow> nat \<Rightarrow> (wire_error, nat) result" where
  "count_candidate candidate evidence =
     count_evidence evidence (candidate_evidence_bytes candidate)"

definition read_read_range_response :: "read_range_response reads" where
  "read_read_range_response =
     bind_action reader_binding (\<lambda>binding.
     bind_action reader_u64 (\<lambda>journal_id.
     bind_action reader_i64 (\<lambda>requested_start_usn.
     bind_action reader_i64 (\<lambda>requested_end_usn.
     bind_action reader_u32 (\<lambda>max_records.
     bind_action reader_u32 (\<lambda>max_evidence_bytes.
     bind_action reader_i64 (\<lambda>covered_until_usn.
     bind_action reader_boolean (\<lambda>is_complete.
     bind_action reader_length (\<lambda>count.
     bind_action (guard_action (count \<le> unat MAX_RECORDS) LengthExceeded) (\<lambda>_.
     bind_action (accumulate_action count reader_candidate count_candidate 0) (\<lambda>(candidates, _).
     return_action \<lparr>xr_binding = binding, xr_journal_id = journal_id,
       xr_requested_start_usn = requested_start_usn, xr_requested_end_usn = requested_end_usn,
       xr_max_records = max_records, xr_max_evidence_bytes = max_evidence_bytes,
       xr_covered_until_usn = covered_until_usn, xr_is_complete = is_complete,
       xr_candidates = candidates\<rparr>)))))))))))"

definition read_read_range_accepted :: "read_range_accepted reads" where
  "read_read_range_accepted =
     bind_action reader_binding (\<lambda>binding.
     bind_action reader_u64 (\<lambda>journal_id.
     bind_action reader_i64 (\<lambda>requested_start_usn.
     bind_action reader_i64 (\<lambda>requested_end_usn.
     bind_action reader_u32 (\<lambda>max_records.
     bind_action reader_u32 (\<lambda>max_evidence_bytes.
     return_action \<lparr>xa_binding = binding, xa_journal_id = journal_id,
       xa_requested_start_usn = requested_start_usn, xa_requested_end_usn = requested_end_usn,
       xa_max_records = max_records, xa_max_evidence_bytes = max_evidence_bytes\<rparr>))))))"

definition read_read_volume_accepted :: "read_volume_accepted reads" where
  "read_read_volume_accepted =
     bind_action reader_array_16 (\<lambda>client_instance.
     bind_action (reader_string MAX_VOLUME_ID_BYTES) (\<lambda>volume_id.
     bind_action reader_u64 (\<lambda>journal_id.
     bind_action reader_i64 (\<lambda>requested_start_usn.
     bind_action reader_i64 (\<lambda>requested_end_usn.
     bind_action reader_u8 (\<lambda>root_count.
     bind_action reader_u32 (\<lambda>max_records.
     bind_action reader_u32 (\<lambda>max_evidence_bytes.
     return_action \<lparr>va_client_instance = client_instance, va_volume_id = volume_id,
       va_journal_id = journal_id, va_requested_start_usn = requested_start_usn,
       va_requested_end_usn = requested_end_usn, va_root_count = root_count,
       va_max_records = max_records, va_max_evidence_bytes = max_evidence_bytes\<rparr>))))))))"

text \<open>One root outcome of a volume response, with the totals so far.\<close>

definition read_outcome :: "totals \<Rightarrow> (shared_journal_root_outcome \<times> totals) reads" where
  "read_outcome totals =
     bind_action reader_binding (\<lambda>binding.
     bind_action reader_i64 (\<lambda>requested_start_usn.
     bind_action reader_boolean (\<lambda>has_failure.
     if has_failure then
       bind_action read_failure_code (\<lambda>failure.
       return_action (\<lparr>so_binding = binding, so_requested_start_usn = requested_start_usn,
         so_covered_until_usn = None, so_is_complete = False, so_candidates = [],
         so_failure = Some failure\<rparr>, totals))
     else
       bind_action reader_i64 (\<lambda>covered.
       bind_action reader_boolean (\<lambda>is_complete.
       bind_action reader_length (\<lambda>candidate_count.
       bind_action (lift_result (count_records (tt_records totals) candidate_count)) (\<lambda>records.
       bind_action (accumulate_action candidate_count reader_candidate count_candidate
         (tt_evidence totals)) (\<lambda>(candidates, evidence).
       return_action (\<lparr>so_binding = binding, so_requested_start_usn = requested_start_usn,
         so_covered_until_usn = Some covered, so_is_complete = is_complete,
         so_candidates = candidates, so_failure = None\<rparr>,
         \<lparr>tt_records = records, tt_evidence = evidence\<rparr>))))))))) "

fun read_outcomes :: "nat \<Rightarrow> totals \<Rightarrow> (shared_journal_root_outcome list \<times> totals) reads" where
  "read_outcomes 0 totals = return_action ([], totals)"
| "read_outcomes (Suc n) totals =
     bind_action (read_outcome totals) (\<lambda>(outcome, totals).
     bind_action (read_outcomes n totals) (\<lambda>(outcomes, totals).
     return_action (outcome # outcomes, totals)))"

definition read_handoff :: "shared_journal_handoff reads" where
  "read_handoff =
     bind_action reader_binding (\<lambda>previous_binding.
     bind_action reader_binding (\<lambda>current_binding.
     bind_action (reader_byte_vec 16) (\<lambda>file_reference.
     bind_action reader_i64 (\<lambda>usn.
     bind_action (reader_string (MAX_PATH_UTF16_UNITS * 4)) (\<lambda>previous_relative_path.
     bind_action (reader_string (MAX_PATH_UTF16_UNITS * 4)) (\<lambda>current_relative_path.
     bind_action reader_boolean (\<lambda>is_directory.
     bind_action (reader_option (reader_string 512)) (\<lambda>previous_carry_id.
     return_action \<lparr>sh_previous_binding = previous_binding, sh_current_binding = current_binding,
       sh_file_reference = file_reference, sh_usn = usn,
       sh_previous_relative_path = previous_relative_path,
       sh_current_relative_path = current_relative_path, sh_is_directory = is_directory,
       sh_previous_carry_id = previous_carry_id\<rparr>))))))))"

definition count_handoff :: "shared_journal_handoff \<Rightarrow> totals \<Rightarrow> (wire_error, totals) result" where
  "count_handoff handoff totals =
     bind_result (count_evidence (tt_evidence totals) (handoff_evidence_bytes handoff)) (\<lambda>evidence.
     bind_result (count_records (tt_records totals) 1) (\<lambda>records.
     Inr \<lparr>tt_records = records, tt_evidence = evidence\<rparr>))"

definition read_pending :: "shared_journal_pending_rename reads" where
  "read_pending =
     bind_action reader_binding (\<lambda>binding.
     bind_action (reader_byte_vec 16) (\<lambda>file_reference.
     bind_action reader_i64 (\<lambda>old_usn.
     bind_action (reader_string (MAX_PATH_UTF16_UNITS * 4)) (\<lambda>previous_relative_path.
     bind_action reader_boolean (\<lambda>is_directory.
     return_action \<lparr>sp_binding = binding, sp_file_reference = file_reference,
       sp_old_usn = old_usn, sp_previous_relative_path = previous_relative_path,
       sp_is_directory = is_directory\<rparr>)))))"

definition count_pending ::
    "shared_journal_pending_rename \<Rightarrow> totals \<Rightarrow> (wire_error, totals) result" where
  "count_pending pending totals =
     bind_result (count_evidence (tt_evidence totals) (pending_rename_evidence_bytes pending))
       (\<lambda>evidence.
     bind_result (count_records (tt_records totals) 1) (\<lambda>records.
     Inr \<lparr>tt_records = records, tt_evidence = evidence\<rparr>))"

definition read_read_volume_response :: "read_volume_response reads" where
  "read_read_volume_response =
     bind_action reader_array_16 (\<lambda>client_instance.
     bind_action (reader_string MAX_VOLUME_ID_BYTES) (\<lambda>volume_id.
     bind_action reader_u64 (\<lambda>journal_id.
     bind_action reader_i64 (\<lambda>requested_end_usn.
     bind_action reader_u32 (\<lambda>max_records.
     bind_action reader_u32 (\<lambda>max_evidence_bytes.
     bind_action reader_u8 (\<lambda>count.
     bind_action (guard_action (1 \<le> unat count \<and> unat count \<le> MAX_SHARED_ROOTS)
       LengthExceeded) (\<lambda>_.
     bind_action (read_outcomes (unat count) \<lparr>tt_records = 0, tt_evidence = 0\<rparr>)
       (\<lambda>(outcomes, totals).
     bind_action reader_length (\<lambda>handoff_count.
     bind_action (guard_action (handoff_count \<le> MAX_SHARED_HANDOFFS) LengthExceeded) (\<lambda>_.
     bind_action (accumulate_action handoff_count read_handoff count_handoff totals)
       (\<lambda>(handoffs, totals).
     bind_action reader_length (\<lambda>pending_count.
     bind_action (guard_action (pending_count \<le> MAX_SHARED_PENDING_RENAMES) LengthExceeded) (\<lambda>_.
     bind_action (accumulate_action pending_count read_pending count_pending totals)
       (\<lambda>(pending_renames, _).
     return_action \<lparr>vr_client_instance = client_instance, vr_volume_id = volume_id,
       vr_journal_id = journal_id, vr_requested_end_usn = requested_end_usn,
       vr_max_records = max_records, vr_max_evidence_bytes = max_evidence_bytes,
       vr_outcomes = outcomes, vr_handoffs = handoffs,
       vr_pending_renames = pending_renames\<rparr>)))))))))))))))"

definition read_cancelled :: "u64 \<Rightarrow> broker_response reads" where
  "read_cancelled request_id =
     bind_action reader_array_16 (\<lambda>client_instance.
     bind_action reader_u64 (\<lambda>target_request_id.
     return_action (CancelledResponse request_id client_instance target_request_id)))"

definition read_failure :: "u64 \<Rightarrow> broker_response reads" where
  "read_failure request_id =
     bind_action (reader_option reader_array_16) (\<lambda>client_instance.
     bind_action read_failure_code (\<lambda>failure.
     return_action (FailureResponse request_id client_instance failure)))"

definition decode_response_kind :: "u16 \<Rightarrow> u64 \<Rightarrow> broker_response reads" where
  "decode_response_kind kind request_id =
     (if kind = ROOT_REGISTERED_RESPONSE then read_root_registered request_id
      else if kind = JOURNAL_RESPONSE then
        bind_action read_journal_response (\<lambda>r. return_action (JournalResponse request_id r))
      else if kind = READ_RESPONSE then
        bind_action read_read_range_response (\<lambda>r. return_action (ReadRangeResponse request_id r))
      else if kind = READ_ACCEPTED_RESPONSE then
        bind_action read_read_range_accepted (\<lambda>r. return_action (ReadRangeAccepted request_id r))
      else if kind = READ_VOLUME_ACCEPTED_RESPONSE then
        bind_action read_read_volume_accepted (\<lambda>r. return_action (ReadVolumeAccepted request_id r))
      else if kind = READ_VOLUME_RESPONSE then
        bind_action read_read_volume_response (\<lambda>r. return_action (ReadVolumeResponse request_id r))
      else if kind = CANCEL_RESPONSE then read_cancelled request_id
      else if kind = FAILURE_RESPONSE then read_failure request_id
      else fail_action (UnknownKind kind))"

definition decode_response :: "bytes \<Rightarrow> (wire_error, broker_response) result" where
  "decode_response payload =
     bind_result (inspect_request_header payload) (\<lambda>header.
     if \<not> ih_is_current_magic header then Inl (UnsupportedVersion (ih_version header))
     else if ih_version header \<noteq> PROTOCOL_VERSION then Inl (UnsupportedVersion (ih_version header))
     else bind_result (reader_after_header payload) (\<lambda>reader.
       bind_result (decode_response_kind (rd_kind reader) (ih_request_id header) reader)
         (\<lambda>(response, reader).
       bind_result (reader_finish reader) (\<lambda>_.
       bind_result (validate_response response) (\<lambda>_. Inr response)))))"

section \<open>The bytes of a response\<close>

definition wire_failure_code :: "broker_failure \<Rightarrow> bytes" where
  "wire_failure_code f = wire_u16 (failure_code (failure_code_of f))"

definition wire_journal_response :: "journal_response \<Rightarrow> bytes" where
  "wire_journal_response r = wire_binding (jr_binding r) @ wire_u8 (capability_code (jr_capability r))
     @ wire_option wire_u64 (jr_journal_id r) @ wire_option wire_u64 (jr_first_usn r)
     @ wire_option wire_u64 (jr_next_usn r)"

definition wire_candidates :: "broker_candidate list \<Rightarrow> bytes" where
  "wire_candidates cs = wire_length (length cs) @ concat (map wire_candidate cs)"

definition wire_range_response :: "read_range_response \<Rightarrow> bytes" where
  "wire_range_response r = wire_binding (xr_binding r) @ wire_u64 (xr_journal_id r)
     @ wire_u64 (xr_requested_start_usn r) @ wire_u64 (xr_requested_end_usn r)
     @ wire_u32 (xr_max_records r) @ wire_u32 (xr_max_evidence_bytes r)
     @ wire_u64 (xr_covered_until_usn r) @ wire_boolean (xr_is_complete r)
     @ wire_candidates (xr_candidates r)"

definition wire_range_accepted :: "read_range_accepted \<Rightarrow> bytes" where
  "wire_range_accepted r = wire_binding (xa_binding r) @ wire_u64 (xa_journal_id r)
     @ wire_u64 (xa_requested_start_usn r) @ wire_u64 (xa_requested_end_usn r)
     @ wire_u32 (xa_max_records r) @ wire_u32 (xa_max_evidence_bytes r)"

definition wire_volume_accepted :: "read_volume_accepted \<Rightarrow> bytes" where
  "wire_volume_accepted r = va_client_instance r @ wire_byte_vec (va_volume_id r)
     @ wire_u64 (va_journal_id r) @ wire_u64 (va_requested_start_usn r)
     @ wire_u64 (va_requested_end_usn r) @ wire_u8 (va_root_count r)
     @ wire_u32 (va_max_records r) @ wire_u32 (va_max_evidence_bytes r)"

definition wire_outcome :: "shared_journal_root_outcome \<Rightarrow> bytes" where
  "wire_outcome x = wire_binding (so_binding x) @ wire_u64 (so_requested_start_usn x)
     @ wire_boolean (so_failure x \<noteq> None)
     @ (case so_failure x of
          Some f \<Rightarrow> wire_failure_code f
        | None \<Rightarrow> wire_u64 (the (so_covered_until_usn x)) @ wire_boolean (so_is_complete x)
            @ wire_candidates (so_candidates x))"

definition wire_handoff :: "shared_journal_handoff \<Rightarrow> bytes" where
  "wire_handoff h = wire_binding (sh_previous_binding h) @ wire_binding (sh_current_binding h)
     @ wire_byte_vec (sh_file_reference h) @ wire_u64 (sh_usn h)
     @ wire_byte_vec (sh_previous_relative_path h) @ wire_byte_vec (sh_current_relative_path h)
     @ wire_boolean (sh_is_directory h) @ wire_option wire_byte_vec (sh_previous_carry_id h)"

definition wire_pending :: "shared_journal_pending_rename \<Rightarrow> bytes" where
  "wire_pending p = wire_binding (sp_binding p) @ wire_byte_vec (sp_file_reference p)
     @ wire_u64 (sp_old_usn p) @ wire_byte_vec (sp_previous_relative_path p)
     @ wire_boolean (sp_is_directory p)"

definition wire_volume_response :: "read_volume_response \<Rightarrow> bytes" where
  "wire_volume_response r = vr_client_instance r @ wire_byte_vec (vr_volume_id r)
     @ wire_u64 (vr_journal_id r) @ wire_u64 (vr_requested_end_usn r)
     @ wire_u32 (vr_max_records r) @ wire_u32 (vr_max_evidence_bytes r)
     @ wire_u8 (of_nat (length (vr_outcomes r))) @ concat (map wire_outcome (vr_outcomes r))
     @ wire_length (length (vr_handoffs r)) @ concat (map wire_handoff (vr_handoffs r))
     @ wire_length (length (vr_pending_renames r))
     @ concat (map wire_pending (vr_pending_renames r))"

fun wire_response :: "broker_response \<Rightarrow> bytes" where
  "wire_response (RootRegistered i b c) =
     wire_header ROOT_REGISTERED_RESPONSE i @ wire_binding b @ capability_bytes c"
| "wire_response (JournalResponse i r) = wire_header JOURNAL_RESPONSE i @ wire_journal_response r"
| "wire_response (ReadRangeResponse i r) = wire_header READ_RESPONSE i @ wire_range_response r"
| "wire_response (ReadRangeAccepted i r) =
     wire_header READ_ACCEPTED_RESPONSE i @ wire_range_accepted r"
| "wire_response (ReadVolumeAccepted i r) =
     wire_header READ_VOLUME_ACCEPTED_RESPONSE i @ wire_volume_accepted r"
| "wire_response (ReadVolumeResponse i r) =
     wire_header READ_VOLUME_RESPONSE i @ wire_volume_response r"
| "wire_response (CancelledResponse i c t) = wire_header CANCEL_RESPONSE i @ c @ wire_u64 t"
| "wire_response (FailureResponse i c f) =
     wire_header FAILURE_RESPONSE i @ wire_option (\<lambda>v. v) c @ wire_failure_code f"

text \<open>The totals the decoder keeps over root outcomes.\<close>

definition count_outcome ::
    "shared_journal_root_outcome \<Rightarrow> totals \<Rightarrow> (wire_error, totals) result" where
  "count_outcome x t = (case so_failure x of
     Some _ \<Rightarrow> Inr t
   | None \<Rightarrow>
       bind_result (count_records (tt_records t) (length (so_candidates x))) (\<lambda>records.
       bind_result (fold_result count_candidate (so_candidates x) (tt_evidence t)) (\<lambda>evidence.
       Inr \<lparr>tt_records = records, tt_evidence = evidence\<rparr>)))"

definition ok_range_response :: "read_range_response \<Rightarrow> bool" where
  "ok_range_response r \<longleftrightarrow> ok_binding (xr_binding r) \<and> list_all ok_candidate (xr_candidates r)
     \<and> length (xr_candidates r) \<le> unat MAX_RECORDS
     \<and> (\<exists>e. fold_result count_candidate (xr_candidates r) 0 = Inr e)"

definition ok_volume_accepted :: "read_volume_accepted \<Rightarrow> bool" where
  "ok_volume_accepted r \<longleftrightarrow> length (va_client_instance r) = 16
     \<and> ok_string MAX_VOLUME_ID_BYTES (va_volume_id r)"

definition ok_outcome :: "shared_journal_root_outcome \<Rightarrow> bool" where
  "ok_outcome x \<longleftrightarrow> ok_binding (so_binding x)
     \<and> (case so_failure x of
          Some _ \<Rightarrow> so_covered_until_usn x = None \<and> \<not> so_is_complete x \<and> so_candidates x = []
        | None \<Rightarrow> so_covered_until_usn x \<noteq> None \<and> list_all ok_candidate (so_candidates x)
            \<and> length (so_candidates x) < 2 ^ 32)"

definition ok_handoff :: "shared_journal_handoff \<Rightarrow> bool" where
  "ok_handoff h \<longleftrightarrow> ok_binding (sh_previous_binding h) \<and> ok_binding (sh_current_binding h)
     \<and> ok_byte_vec 16 (sh_file_reference h)
     \<and> ok_string (MAX_PATH_UTF16_UNITS * 4) (sh_previous_relative_path h)
     \<and> ok_string (MAX_PATH_UTF16_UNITS * 4) (sh_current_relative_path h)
     \<and> all_some (ok_string 512) (sh_previous_carry_id h)"

definition ok_pending :: "shared_journal_pending_rename \<Rightarrow> bool" where
  "ok_pending p \<longleftrightarrow> ok_binding (sp_binding p) \<and> ok_byte_vec 16 (sp_file_reference p)
     \<and> ok_string (MAX_PATH_UTF16_UNITS * 4) (sp_previous_relative_path p)"

definition ok_volume_response :: "read_volume_response \<Rightarrow> bool" where
  "ok_volume_response r \<longleftrightarrow> length (vr_client_instance r) = 16
     \<and> ok_string MAX_VOLUME_ID_BYTES (vr_volume_id r)
     \<and> 1 \<le> length (vr_outcomes r) \<and> length (vr_outcomes r) \<le> MAX_SHARED_ROOTS
     \<and> length (vr_handoffs r) \<le> MAX_SHARED_HANDOFFS
     \<and> length (vr_pending_renames r) \<le> MAX_SHARED_PENDING_RENAMES
     \<and> list_all ok_outcome (vr_outcomes r) \<and> list_all ok_handoff (vr_handoffs r)
     \<and> list_all ok_pending (vr_pending_renames r)
     \<and> (\<exists>t1 t2 t3. fold_result count_outcome (vr_outcomes r) \<lparr>tt_records = 0, tt_evidence = 0\<rparr> = Inr t1
          \<and> fold_result count_handoff (vr_handoffs r) t1 = Inr t2
          \<and> fold_result count_pending (vr_pending_renames r) t2 = Inr t3)"

fun ok_response :: "broker_response \<Rightarrow> bool" where
  "ok_response (RootRegistered _ b c) \<longleftrightarrow> ok_binding b \<and> wf_capability c"
| "ok_response (JournalResponse _ r) \<longleftrightarrow> ok_binding (jr_binding r)"
| "ok_response (ReadRangeResponse _ r) \<longleftrightarrow> ok_range_response r"
| "ok_response (ReadRangeAccepted _ r) \<longleftrightarrow> ok_binding (xa_binding r)"
| "ok_response (ReadVolumeAccepted _ r) \<longleftrightarrow> ok_volume_accepted r"
| "ok_response (ReadVolumeResponse _ r) \<longleftrightarrow> ok_volume_response r"
| "ok_response (CancelledResponse _ c _) \<longleftrightarrow> length c = 16"
| "ok_response (FailureResponse _ c _) \<longleftrightarrow> all_some (\<lambda>c. length c = 16) c"

section \<open>The parts of a response keep the contract\<close>

context codec
begin

lemma accumulate_get:
  "list_all ok xs \<Longrightarrow> fits (pre @ concat (map enc xs) @ post) \<Longrightarrow> fold_result step xs s = Inr s' \<Longrightarrow>
   accumulate_action (length xs) get step s (reader_at pre (concat (map enc xs) @ post) kind)
     = Inr ((xs, s'), reader_at (pre @ concat (map enc xs)) post kind)"
  by (induction xs arbitrary: pre s) (auto simp: bind_action_apply get_enc bind_result_eq_Inr)

lemma accumulate_sound:
  "accumulate_action n get step s (reader_at pre post kind) = Inr ((xs, s'), r) \<Longrightarrow>
   length xs = n \<and> list_all ok xs \<and> fold_result step xs s = Inr s'
   \<and> (\<exists>rest. post = concat (map enc xs) @ rest
        \<and> r = reader_at (pre @ concat (map enc xs)) rest kind)"
proof (induction n arbitrary: pre post s xs)
  case 0
  then show ?case by simp
next
  case (Suc n)
  then obtain x r1 s1 ys where x: "get (reader_at pre post kind) = Inr (x, r1)" "step x s = Inr s1"
    and ys: "accumulate_action n get step s1 r1 = Inr ((ys, s'), r)" "xs = x # ys"
    by (auto simp: bind_action_eq_Inr bind_result_eq_Inr)
  from get_sound [OF x(1)] obtain rest where
    rest: "ok x" "post = enc x @ rest" "r1 = reader_at (pre @ enc x) rest kind" by blast
  from Suc.IH [OF ys(1) [unfolded rest(3)]] x(2) rest ys(2) show ?case by auto
qed

end

lemma decode_failure_code_eq_Inr: "decode_failure_code v = Inr c \<longleftrightarrow> v = failure_code c"
  by (cases c) (auto simp: decode_failure_code_def)

lemma decode_capability_eq_Inr: "decode_capability v = Inr c \<longleftrightarrow> v = capability_code c"
  by (cases c) (auto simp: decode_capability_def)

interpretation cfailure: codec write_failure_code read_failure_code "\<lambda>_. True" wire_failure_code
  by unfold_locales
    (auto simp: write_failure_code_def read_failure_code_def wire_failure_code_def
      bind_action_apply bind_result_eq_Inr codec_put codec_get decode_failure_code_eq_Inr
      decode_failure_code_eq_Inr [THEN iffD2] dest!: codec_sound)

interpretation carray16_option: codec "writer_option writer_bytes" "reader_option reader_array_16"
  "all_some (\<lambda>v. length v = 16)" "wire_option (\<lambda>v. v)"
  by (rule carray16.option_codec)

interpretation cjournal: codec write_journal_response read_journal_response
  "\<lambda>r. ok_binding (jr_binding r)" wire_journal_response
  by unfold_locales
    (auto simp: write_journal_response_def read_journal_response_def wire_journal_response_def
      bind_action_apply bind_result_eq_Inr struct_put struct_get decode_capability_eq_Inr
      decode_capability_eq_Inr [THEN iffD2] dest!: struct_sound)

interpretation crange_accepted: codec write_read_range_accepted read_read_range_accepted
  "\<lambda>r. ok_binding (xa_binding r)" wire_range_accepted
  by unfold_locales
    (auto simp: write_read_range_accepted_def read_read_range_accepted_def wire_range_accepted_def
      bind_action_apply bind_result_eq_Inr struct_put struct_get dest!: struct_sound)

interpretation cvolume_accepted: codec write_read_volume_accepted read_read_volume_accepted
  ok_volume_accepted wire_volume_accepted
  by unfold_locales
    (auto simp: write_read_volume_accepted_def read_read_volume_accepted_def
      wire_volume_accepted_def ok_volume_accepted_def
      bind_action_apply bind_result_eq_Inr struct_put struct_get dest!: struct_sound)

lemma write_candidates_eq:
  "list_all ok_candidate cs \<Longrightarrow> length cs < 2 ^ 32 \<Longrightarrow>
   write_candidates cs w = Inr ((), emit (wire_candidates cs) w)"
  by (simp add: write_candidates_def wire_candidates_def bind_action_apply codec_put
      ccandidate.put_list)

interpretation crange_response: codec write_read_range_response read_read_range_response
  ok_range_response wire_range_response
  by unfold_locales
    (auto simp: write_read_range_response_def read_read_range_response_def
      wire_range_response_def wire_candidates_def ok_range_response_def wire_limits
      bind_action_apply bind_result_eq_Inr struct_put struct_get write_candidates_eq
      ccandidate.accumulate_get split: if_splits
      dest!: struct_sound ccandidate.accumulate_sound)

interpretation chandoff: codec write_handoff read_handoff ok_handoff wire_handoff
  by unfold_locales
    (auto simp: write_handoff_def read_handoff_def wire_handoff_def ok_handoff_def
      bind_action_apply bind_result_eq_Inr struct_put struct_get dest!: struct_sound)

interpretation cpending: codec write_pending read_pending ok_pending wire_pending
  by unfold_locales
    (auto simp: write_pending_def read_pending_def wire_pending_def ok_pending_def
      bind_action_apply bind_result_eq_Inr struct_put struct_get dest!: struct_sound)

lemma write_outcome_eq: "ok_outcome x \<Longrightarrow> write_outcome x w = Inr ((), emit (wire_outcome x) w)"
  by (auto simp: write_outcome_def wire_outcome_def ok_outcome_def bind_action_apply struct_put
      cfailure.put_enc write_candidates_eq split: option.splits)

lemma write_outcomes_eq:
  "list_all ok_outcome xs \<Longrightarrow>
   each_action write_outcome xs w = Inr ((), emit (concat (map wire_outcome xs)) w)"
  by (induction xs arbitrary: w) (simp_all add: bind_action_apply write_outcome_eq emit_def)

lemma read_outcome_at:
  assumes "ok_outcome x" and "fits (pre @ wire_outcome x @ post)" and "count_outcome x t = Inr t'"
  shows "read_outcome t (reader_at pre (wire_outcome x @ post) kind)
    = Inr ((x, t'), reader_at (pre @ wire_outcome x) post kind)"
  using assms
  by (cases "so_failure x")
    (auto simp: read_outcome_def wire_outcome_def wire_candidates_def ok_outcome_def
      count_outcome_def bind_action_apply bind_result_eq_Inr struct_get cfailure.get_enc
      ccandidate.accumulate_get)

lemma read_outcomes_at:
  "list_all ok_outcome xs \<Longrightarrow> fits (pre @ concat (map wire_outcome xs) @ post) \<Longrightarrow>
   fold_result count_outcome xs t = Inr t' \<Longrightarrow>
   read_outcomes (length xs) t (reader_at pre (concat (map wire_outcome xs) @ post) kind)
     = Inr ((xs, t'), reader_at (pre @ concat (map wire_outcome xs)) post kind)"
  by (induction xs arbitrary: pre t) (auto simp: bind_action_apply read_outcome_at bind_result_eq_Inr)

lemma read_outcome_sound:
  assumes "read_outcome t (reader_at pre post kind) = Inr ((x, t'), r)"
  shows "ok_outcome x \<and> count_outcome x t = Inr t'
    \<and> (\<exists>rest. post = wire_outcome x @ rest \<and> r = reader_at (pre @ wire_outcome x) rest kind)"
  using assms
  by (auto simp: read_outcome_def wire_outcome_def wire_candidates_def ok_outcome_def
      count_outcome_def bind_action_eq_Inr bind_result_eq_Inr split: if_splits
      dest!: struct_sound cfailure.get_sound ccandidate.accumulate_sound)

lemma read_outcomes_sound:
  "read_outcomes n t (reader_at pre post kind) = Inr ((xs, t'), r) \<Longrightarrow>
   length xs = n \<and> list_all ok_outcome xs \<and> fold_result count_outcome xs t = Inr t'
   \<and> (\<exists>rest. post = concat (map wire_outcome xs) @ rest
        \<and> r = reader_at (pre @ concat (map wire_outcome xs)) rest kind)"
proof (induction n arbitrary: pre post t xs)
  case 0
  then show ?case by simp
next
  case (Suc n)
  then obtain x t1 r1 ys where x: "read_outcome t (reader_at pre post kind) = Inr ((x, t1), r1)"
    and ys: "read_outcomes n t1 r1 = Inr ((ys, t'), r)" "xs = x # ys"
    by (auto simp: bind_action_eq_Inr)
  from read_outcome_sound [OF x] obtain rest where
    rest: "ok_outcome x" "count_outcome x t = Inr t1" "post = wire_outcome x @ rest"
      "r1 = reader_at (pre @ wire_outcome x) rest kind" by blast
  from Suc.IH [OF ys(1) [unfolded rest(4)]] rest ys(2) show ?case by auto
qed

lemma unat_of_nat_count: "n \<le> MAX_SHARED_ROOTS \<Longrightarrow> unat (of_nat n :: u8) = n"
  by (simp add: wire_limits)

interpretation cvolume_response: codec write_read_volume_response read_read_volume_response
  ok_volume_response wire_volume_response
proof
  show "write_read_volume_response r w = Inr ((), emit (wire_volume_response r) w)"
    if "ok_volume_response r" for r w
  proof -
    from that have "length (vr_outcomes r) < 2 ^ 8" "length (vr_handoffs r) < 2 ^ 32"
      "length (vr_pending_renames r) < 2 ^ 32"
      by (simp_all add: ok_volume_response_def wire_limits)
    then show ?thesis
      using that by (auto simp: write_read_volume_response_def wire_volume_response_def
          ok_volume_response_def bind_action_apply struct_put writer_count_u8_def
          write_outcomes_eq chandoff.put_list cpending.put_list)
  qed
  show "read_read_volume_response (reader_at pre (wire_volume_response r @ post) kind)
      = Inr (r, reader_at (pre @ wire_volume_response r) post kind)"
    if "ok_volume_response r" "fits (pre @ wire_volume_response r @ post)" for r pre post kind
  proof -
    from that have "length (vr_outcomes r) \<le> MAX_SHARED_ROOTS" "length (vr_handoffs r) < 2 ^ 32"
      "length (vr_pending_renames r) < 2 ^ 32"
      by (simp_all add: ok_volume_response_def wire_limits)
    then show ?thesis
      using that by (auto simp: read_read_volume_response_def wire_volume_response_def
          ok_volume_response_def bind_action_apply struct_get unat_of_nat_count read_outcomes_at
          chandoff.accumulate_get cpending.accumulate_get)
  qed
  show "ok_volume_response v \<and> (\<exists>rest. post = wire_volume_response v @ rest
      \<and> r = reader_at (pre @ wire_volume_response v) rest kind)"
    if "read_read_volume_response (reader_at pre post kind) = Inr (v, r)" for v pre post kind r
    using that
    by (auto simp: read_read_volume_response_def wire_volume_response_def ok_volume_response_def
        bind_action_eq_Inr split: if_splits dest!: struct_sound read_outcomes_sound
        chandoff.accumulate_sound cpending.accumulate_sound)
qed

section \<open>Responses as a whole\<close>

lemma count_records_eq_Inr: "count_records n k = Inr m \<longleftrightarrow> m = n + k \<and> m \<le> unat MAX_RECORDS"
  by (auto simp: count_records_def bind_result_eq_Inr add_total_eq_Inr wire_limits)

lemma count_evidence_eq_Inr:
  "count_evidence e v = Inr m \<longleftrightarrow> (\<exists>n. v = Some n \<and> m = e + n \<and> m \<le> unat MAX_EVIDENCE_BYTES)"
  by (cases v) (auto simp: count_evidence_def add_evidence_def add_total_def checked_add_def
      wire_limits split: if_splits)

lemma count_candidate_eq_Inr:
  "count_candidate c e = Inr m \<longleftrightarrow>
     (\<exists>n. candidate_evidence_bytes c = Some n \<and> m = e + n \<and> m \<le> unat MAX_EVIDENCE_BYTES)"
  by (simp add: count_candidate_def count_evidence_eq_Inr)

lemma count_candidates_eq_Inr:
  "fold_result count_candidate cs e = Inr m \<longleftrightarrow>
     (\<forall>c \<in> set cs. candidate_evidence_bytes c \<noteq> None)
     \<and> m = e + evidence_sum candidate_evidence_bytes cs
     \<and> (cs \<noteq> [] \<longrightarrow> m \<le> unat MAX_EVIDENCE_BYTES)"
proof (induction cs arbitrary: e)
  case Nil
  then show ?case by auto
next
  case (Cons c cs)
  show ?case
    by (cases "cs = []")
      (auto simp: bind_result_eq_Inr count_candidate_eq_Inr Cons.IH)
qed

lemma count_outcomes_fold:
  assumes "\<forall>x \<in> set xs. (so_failure x \<noteq> None \<longrightarrow> so_candidates x = [])
      \<and> (\<forall>c \<in> set (so_candidates x). candidate_evidence_bytes c \<noteq> None)"
    and "tt_records t + (\<Sum>x \<leftarrow> xs. length (so_candidates x)) \<le> unat MAX_RECORDS"
    and "tt_evidence t + (\<Sum>x \<leftarrow> xs. evidence_sum candidate_evidence_bytes (so_candidates x))
      \<le> unat MAX_EVIDENCE_BYTES"
  shows "fold_result count_outcome xs t = Inr \<lparr>
    tt_records = tt_records t + (\<Sum>x \<leftarrow> xs. length (so_candidates x)),
    tt_evidence = tt_evidence t + (\<Sum>x \<leftarrow> xs. evidence_sum candidate_evidence_bytes (so_candidates x))\<rparr>"
  using assms
proof (induction xs arbitrary: t)
  case Nil
  then show ?case by simp
next
  case (Cons x xs)
  have "count_outcome x t = Inr \<lparr>tt_records = tt_records t + length (so_candidates x),
      tt_evidence = tt_evidence t + evidence_sum candidate_evidence_bytes (so_candidates x)\<rparr>"
    using Cons.prems
    by (auto simp: count_outcome_def bind_result_eq_Inr count_records_eq_Inr
        count_candidates_eq_Inr split: option.splits)
  with Cons show ?case by (simp add: add.assoc)
qed

lemma count_handoffs_fold:
  assumes "\<forall>h \<in> set hs. handoff_evidence_bytes h \<noteq> None"
    and "tt_records t + length hs \<le> unat MAX_RECORDS"
    and "tt_evidence t + evidence_sum handoff_evidence_bytes hs \<le> unat MAX_EVIDENCE_BYTES"
  shows "fold_result count_handoff hs t = Inr \<lparr>tt_records = tt_records t + length hs,
    tt_evidence = tt_evidence t + evidence_sum handoff_evidence_bytes hs\<rparr>"
  using assms
proof (induction hs arbitrary: t)
  case Nil
  then show ?case by simp
next
  case (Cons h hs)
  have "count_handoff h t = Inr \<lparr>tt_records = tt_records t + 1,
      tt_evidence = tt_evidence t + the (handoff_evidence_bytes h)\<rparr>"
    using Cons.prems
    by (auto simp: count_handoff_def bind_result_eq_Inr count_records_eq_Inr count_evidence_eq_Inr)
  with Cons show ?case by (simp add: add.assoc)
qed

lemma count_pendings_fold:
  assumes "\<forall>p \<in> set ps. pending_rename_evidence_bytes p \<noteq> None"
    and "tt_records t + length ps \<le> unat MAX_RECORDS"
    and "tt_evidence t + evidence_sum pending_rename_evidence_bytes ps \<le> unat MAX_EVIDENCE_BYTES"
  shows "fold_result count_pending ps t = Inr \<lparr>tt_records = tt_records t + length ps,
    tt_evidence = tt_evidence t + evidence_sum pending_rename_evidence_bytes ps\<rparr>"
  using assms
proof (induction ps arbitrary: t)
  case Nil
  then show ?case by simp
next
  case (Cons p ps)
  have "count_pending p t = Inr \<lparr>tt_records = tt_records t + 1,
      tt_evidence = tt_evidence t + the (pending_rename_evidence_bytes p)\<rparr>"
    using Cons.prems
    by (auto simp: count_pending_def bind_result_eq_Inr count_records_eq_Inr count_evidence_eq_Inr)
  with Cons show ?case by (simp add: add.assoc)
qed

lemma scope_evidence_valid:
  "candidate_scope_validate s = Inr () \<Longrightarrow> \<exists>n \<le> 65534. scope_evidence_bytes s = Some n"
  by (cases s) (auto simp: scope_evidence_bytes_def wire_validate checked_mul_def wire_limits)

lemma candidate_evidence_valid:
  assumes "broker_candidate_validate c = Inr ()"
  shows "candidate_evidence_bytes c \<noteq> None"
proof -
  from assms have s: "candidate_scope_validate (bc_scope c) = Inr ()"
    and r: "length (bc_file_reference c) \<le> 16"
    by (auto simp: broker_candidate_validate_eq_Inr is_reference_length_def)
  obtain n where n: "n \<le> 65534" "scope_evidence_bytes (bc_scope c) = Some n"
    using scope_evidence_valid [OF s] by blast
  show ?thesis
  proof (cases "bc_previous_scope c")
    case None
    with n r show ?thesis by (simp add: candidate_evidence_bytes_def checked_add_def)
  next
    case (Some p)
    with assms have "candidate_scope_validate p = Inr ()"
      by (simp add: broker_candidate_validate_eq_Inr)
    then obtain k where "k \<le> 65534" "scope_evidence_bytes p = Some k"
      using scope_evidence_valid by blast
    with Some n r show ?thesis by (simp add: candidate_evidence_bytes_def checked_add_def)
  qed
qed

lemma ok_scope_if_valid: "wf_scope s \<Longrightarrow> candidate_scope_validate s = Inr () \<Longrightarrow> ok_scope s"
  using relative_path_byte_length
  by (cases s) (auto simp: candidate_scope_validate_eq_Inr ok_string_def ok_byte_vec_def wire_limits,
      fastforce simp: wire_limits)

lemma ok_candidate_if_valid:
  "wf_candidate c \<Longrightarrow> broker_candidate_validate c = Inr () \<Longrightarrow> ok_candidate c"
  by (cases "bc_previous_scope c")
    (auto simp: wf_candidate_def ok_candidate_def broker_candidate_validate_eq_Inr
      ok_scope_if_valid ok_byte_vec_def is_reference_length_def)

lemma ok_binding_if_valid: "wf_binding b \<Longrightarrow> response_binding_validate b = Inr () \<Longrightarrow> ok_binding b"
  by (auto simp: wf_binding_def ok_binding_def ok_string_def ok_byte_vec_def wire_validate wire_limits)

text \<open>The one bound the decoder checks and the validator does not: the evidence of a range.\<close>

fun range_evidence_bounded :: "broker_response \<Rightarrow> bool" where
  "range_evidence_bounded (ReadRangeResponse _ r) \<longleftrightarrow>
     evidence_sum candidate_evidence_bytes (xr_candidates r) \<le> unat MAX_EVIDENCE_BYTES"
| "range_evidence_bounded _ \<longleftrightarrow> True"

lemma ok_range_response_if_valid:
  assumes "wf_binding (xr_binding r)" and "list_all wf_candidate (xr_candidates r)"
    and "validate_read_range_response r = Inr ()"
  shows "ok_range_response r \<longleftrightarrow>
    evidence_sum candidate_evidence_bytes (xr_candidates r) \<le> unat MAX_EVIDENCE_BYTES"
proof -
  from assms(3) have b: "response_binding_validate (xr_binding r) = Inr ()"
    and n: "length (xr_candidates r) \<le> unat MAX_RECORDS"
    and v: "\<And>c. c \<in> set (xr_candidates r) \<Longrightarrow> broker_candidate_validate c = Inr ()"
    by (auto simp: validate_read_range_response_def bind_result_eq_Inr candidate_usns_fold
        split: if_splits)
  then have "list_all ok_candidate (xr_candidates r)"
    and "\<forall>c \<in> set (xr_candidates r). candidate_evidence_bytes c \<noteq> None"
    using assms(2) ok_candidate_if_valid candidate_evidence_valid by (auto simp: list_all_iff)
  then show ?thesis
    using assms(1) b n ok_binding_if_valid
    by (cases "xr_candidates r = []") (auto simp: ok_range_response_def count_candidates_eq_Inr)
qed

lemma ok_outcome_if_valid:
  assumes "wf_outcome x" and "root_outcome_validate x e n = Inr ()" and "n < 2 ^ 32"
  shows "ok_outcome x"
  using assms ok_binding_if_valid ok_candidate_if_valid
  by (auto simp: wf_outcome_def ok_outcome_def root_outcome_validate_eq_Inr candidate_usns_fold
      list_all_iff)

lemma ok_handoff_if_valid:
  assumes "wf_handoff h" and "handoff_validate h i v e = Inr ()"
  shows "ok_handoff h"
proof -
  have "length (sh_previous_relative_path h) \<le> MAX_PATH_UTF16_UNITS * 3"
    "length (sh_current_relative_path h) \<le> MAX_PATH_UTF16_UNITS * 3"
    using assms by (auto intro!: relative_path_byte_length simp: wf_handoff_def handoff_validate_eq_Inr)
  then show ?thesis
    using assms ok_binding_if_valid
    by (cases "sh_previous_carry_id h")
      (auto simp: wf_handoff_def ok_handoff_def handoff_validate_eq_Inr ok_string_def
        ok_byte_vec_def is_reference_length_def validate_option_eq_Inr
        validate_identifier_eq_Inr wire_limits)
qed

lemma ok_pending_rename_if_valid:
  assumes "wf_pending p" and "pending_rename_validate p i v e = Inr ()"
  shows "ok_pending p"
proof -
  have "length (sp_previous_relative_path p) \<le> MAX_PATH_UTF16_UNITS * 3"
    using assms by (auto intro!: relative_path_byte_length simp: wf_pending_def pending_rename_validate_eq_Inr)
  then show ?thesis
    using assms ok_binding_if_valid
    by (auto simp: wf_pending_def ok_pending_def pending_rename_validate_eq_Inr ok_string_def
        ok_byte_vec_def is_reference_length_def wire_limits)
qed

lemma ok_volume_response_if_valid:
  assumes wf: "wf_response (ReadVolumeResponse i r)" and v: "validate_read_volume_response r = Inr ()"
  shows "ok_volume_response r"
proof -
  note d = validate_read_volume_response_InrD [OF v]
  have max: "unat (vr_max_records r) \<le> unat MAX_RECORDS"
    "unat (vr_max_evidence_bytes r) \<le> unat MAX_EVIDENCE_BYTES"
    using d(3,4) by (simp_all add: in_1_to_def word_le_nat_alt)
  have small: "unat (vr_max_records r) < 2 ^ 32" using max(1) by (simp add: wire_limits)
  define t1 where "t1 = \<lparr>tt_records = (\<Sum>x \<leftarrow> vr_outcomes r. length (so_candidates x)),
    tt_evidence = (\<Sum>x \<leftarrow> vr_outcomes r. evidence_sum candidate_evidence_bytes (so_candidates x))\<rparr>"
  have "\<forall>x \<in> set (vr_outcomes r). (so_failure x \<noteq> None \<longrightarrow> so_candidates x = [])
      \<and> (\<forall>c \<in> set (so_candidates x). candidate_evidence_bytes c \<noteq> None)"
    using d(10) by (fastforce simp: root_outcome_validate_eq_Inr)
  then have f1: "fold_result count_outcome (vr_outcomes r) \<lparr>tt_records = 0, tt_evidence = 0\<rparr> = Inr t1"
    using d(13,14) max
    by (subst count_outcomes_fold) (auto simp: t1_def response_records_def response_evidence_def)
  define t2 where "t2 = \<lparr>tt_records = tt_records t1 + length (vr_handoffs r),
    tt_evidence = tt_evidence t1 + evidence_sum handoff_evidence_bytes (vr_handoffs r)\<rparr>"
  have f2: "fold_result count_handoff (vr_handoffs r) t1 = Inr t2"
    using d(11,13,14) max
    by (subst count_handoffs_fold) (auto simp: t1_def t2_def response_records_def response_evidence_def)
  have f3: "\<exists>t3. fold_result count_pending (vr_pending_renames r) t2 = Inr t3"
    using d(12,13,14) max
    by (subst count_pendings_fold) (auto simp: t1_def t2_def response_records_def response_evidence_def)
  have "ok_outcome x" if "x \<in> set (vr_outcomes r)" for x
    using wf that d(10) [OF that] small by (intro ok_outcome_if_valid) (auto simp: list_all_iff)
  moreover have "ok_handoff h" if "h \<in> set (vr_handoffs r)" for h
    using wf that d(11) [OF that] by (intro ok_handoff_if_valid) (auto simp: list_all_iff)
  moreover have "ok_pending p" if "p \<in> set (vr_pending_renames r)" for p
    using wf that d(12) [OF that]
    by (intro ok_pending_rename_if_valid) (auto simp: list_all_iff)
  ultimately have "list_all ok_outcome (vr_outcomes r)" "list_all ok_handoff (vr_handoffs r)"
    "list_all ok_pending (vr_pending_renames r)"
    by (simp_all add: list_all_iff)
  then show ?thesis
    using wf d(2,5-8) f1 f2 f3
    by (auto simp: ok_volume_response_def ok_string_def ok_byte_vec_def validate_identifier_eq_Inr
        wire_limits)
qed

lemma ok_response_if_valid:
  assumes "wf_response r" and "validate_response r = Inr ()"
  shows "ok_response r \<longleftrightarrow> range_evidence_bounded r"
proof -
  from assms(2) have v: "validate_response_body r = Inr ()"
    by (auto simp: validate_response_def split: if_splits)
  show ?thesis
    using assms(1) v ok_volume_response_if_valid ok_range_response_if_valid ok_binding_if_valid
    by (cases r)
      (auto simp: validate_root_registered_def validate_journal_response_def
        validate_read_range_accepted_def validate_read_volume_accepted_def
        validate_identifier_for_codec_eq ok_volume_accepted_def ok_string_def ok_byte_vec_def
        validate_identifier_eq_Inr bind_result_eq_Inr wire_limits split: if_splits)
qed

lemma wf_binding_if_ok: "ok_binding b \<Longrightarrow> wf_binding b"
  by (simp add: ok_binding_def wf_binding_def ok_string_def)

lemma wf_scope_if_ok: "ok_scope s \<Longrightarrow> wf_scope s"
  by (cases s) (simp_all add: ok_string_def)

lemma wf_candidate_if_ok: "ok_candidate c \<Longrightarrow> wf_candidate c"
  by (cases "bc_previous_scope c") (simp_all add: ok_candidate_def wf_candidate_def wf_scope_if_ok)

lemma wf_outcome_if_ok: "ok_outcome x \<Longrightarrow> wf_outcome x"
  by (auto simp: ok_outcome_def wf_outcome_def wf_binding_if_ok list_all_iff wf_candidate_if_ok
      split: option.splits)

lemma wf_handoff_if_ok: "ok_handoff h \<Longrightarrow> wf_handoff h"
  by (cases "sh_previous_carry_id h")
    (simp_all add: ok_handoff_def wf_handoff_def wf_binding_if_ok ok_string_def)

lemma wf_pending_rename_if_ok: "ok_pending p \<Longrightarrow> wf_pending p"
  by (simp add: ok_pending_def wf_pending_def wf_binding_if_ok ok_string_def)

lemma wf_response_if_ok: "ok_response r \<Longrightarrow> wf_response r"
  by (cases r)
    (auto simp: ok_range_response_def ok_volume_accepted_def ok_volume_response_def ok_string_def
      list_all_iff wf_binding_if_ok wf_candidate_if_ok wf_outcome_if_ok wf_handoff_if_ok
      wf_pending_rename_if_ok)

lemmas response_put = carray16.put_enc carray16_option.put_enc cu64.put_enc cbinding.put_enc
  ccapability.put_enc cfailure.put_enc cjournal.put_enc crange_response.put_enc
  crange_accepted.put_enc cvolume_accepted.put_enc cvolume_response.put_enc writer_header_eq

lemma encode_response_ok:
  assumes "ok_response r"
  shows "encode_response r = Inr p \<longleftrightarrow> validate_response r = Inr () \<and> p = wire_response r"
  using assms
  by (cases r)
    (auto simp: encode_response_def write_root_registered_def write_cancelled_def
      write_failure_def bind_action_apply bind_result_eq_Inr response_put writer_finish_def
      writer_new_def)

lemmas response_get = carray16.get_enc carray16_option.get_enc cu64.get_all cbinding.get_enc
  ccapability.get_all cfailure.get_all cjournal.get_all crange_response.get_all
  crange_accepted.get_all cvolume_accepted.get_all cvolume_response.get_all

lemma decode_wire_response:
  assumes "ok_response r" and "validate_response r = Inr ()" and "fits (wire_response r)"
  shows "decode_response (wire_response r) = Inr r"
  using assms
  by (cases r)
    (simp_all add: decode_response_def inspect_wire_header after_wire_header
      decode_response_kind_def response_kinds read_root_registered_def read_cancelled_def
      read_failure_def bind_action_apply response_get)

lemmas response_sound = carray16.get_sound carray16_option.get_sound cu64.get_sound
  cbinding.get_sound ccapability.get_sound cfailure.get_sound cjournal.get_sound
  crange_response.get_sound crange_accepted.get_sound cvolume_accepted.get_sound
  cvolume_response.get_sound

lemma decode_response_kind_sound:
  assumes "decode_response_kind kind i (reader_at (wire_header kind i) body kind) = Inr (r, rd)"
    and "reader_finish rd = Inr ()"
  shows "ok_response r \<and> wire_header kind i @ body = wire_response r"
  using assms
  by (auto simp: decode_response_kind_def read_root_registered_def read_cancelled_def
      read_failure_def bind_action_eq_Inr reader_finish_at split: if_splits dest!: response_sound)

lemma decode_response_sound:
  assumes "decode_response p = Inr r"
  shows "ok_response r \<and> p = wire_response r \<and> validate_response r = Inr ()"
proof -
  from assms obtain h rd rd' where
    h: "inspect_request_header p = Inr h" "ih_is_current_magic h" "ih_version h = PROTOCOL_VERSION"
    and rd: "reader_after_header p = Inr rd"
    and kind: "decode_response_kind (rd_kind rd) (ih_request_id h) rd = Inr (r, rd')"
      "reader_finish rd' = Inr ()" and valid: "validate_response r = Inr ()"
    by (auto simp: decode_response_def bind_result_eq_Inr split: if_splits)
  from current_header_sound [OF h rd] obtain body where
    body: "p = wire_header (rd_kind rd) (ih_request_id h) @ body"
      "rd = reader_at (wire_header (rd_kind rd) (ih_request_id h)) body (rd_kind rd)"
    by blast
  from kind(1) body(2) have
    "decode_response_kind (rd_kind rd) (ih_request_id h)
      (reader_at (wire_header (rd_kind rd) (ih_request_id h)) body (rd_kind rd)) = Inr (r, rd')"
    by simp
  from decode_response_kind_sound [OF this kind(2)] body(1) valid show ?thesis by auto
qed

lemma decode_response_iff:
  assumes "fits p"
  shows "decode_response p = Inr r \<longleftrightarrow>
    wf_response r \<and> range_evidence_bounded r \<and> encode_response r = Inr p"
proof
  assume "decode_response p = Inr r"
  from decode_response_sound [OF this]
  show "wf_response r \<and> range_evidence_bounded r \<and> encode_response r = Inr p"
    using ok_response_if_valid wf_response_if_ok by (auto simp: encode_response_ok)
next
  assume r: "wf_response r \<and> range_evidence_bounded r \<and> encode_response r = Inr p"
  then have "validate_response r = Inr ()" by (auto simp: encode_response_def bind_result_eq_Inr)
  with r have "ok_response r" by (simp add: ok_response_if_valid)
  with r assms show "decode_response p = Inr r"
    by (auto simp: encode_response_ok intro: decode_wire_response)
qed

context codec
begin

lemma accumulate_fail:
  "list_all ok xs \<Longrightarrow> fits (pre @ concat (map enc xs) @ post) \<Longrightarrow> fold_result step xs s = Inl e \<Longrightarrow>
   accumulate_action (length xs) get step s (reader_at pre (concat (map enc xs) @ post) kind) = Inl e"
  by (induction xs arbitrary: pre s) (auto simp: bind_action_apply get_enc bind_result_eq_Inl)

lemma accumulate_fail_all:
  "list_all ok xs \<Longrightarrow> fits (pre @ concat (map enc xs)) \<Longrightarrow> fold_result step xs s = Inl e \<Longrightarrow>
   accumulate_action (length xs) get step s (reader_at pre (concat (map enc xs)) kind) = Inl e"
  using accumulate_fail [of xs pre "[]"] by simp

end

lemma candidate_evidence_bound:
  assumes "broker_candidate_validate c = Inr ()"
  shows "the (candidate_evidence_bytes c) < 2 ^ 20"
proof -
  from assms have s: "candidate_scope_validate (bc_scope c) = Inr ()"
    and r: "length (bc_file_reference c) \<le> 16"
    by (auto simp: broker_candidate_validate_eq_Inr is_reference_length_def)
  obtain n where n: "n \<le> 65534" "scope_evidence_bytes (bc_scope c) = Some n"
    using scope_evidence_valid [OF s] by blast
  show ?thesis
  proof (cases "bc_previous_scope c")
    case None
    with n r show ?thesis by (simp add: candidate_evidence_bytes_def checked_add_def)
  next
    case (Some p)
    with assms have "candidate_scope_validate p = Inr ()"
      by (simp add: broker_candidate_validate_eq_Inr)
    then obtain k where "k \<le> 65534" "scope_evidence_bytes p = Some k"
      using scope_evidence_valid by blast
    with Some n r show ?thesis by (simp add: candidate_evidence_bytes_def checked_add_def)
  qed
qed

lemma count_candidates_exceeded:
  assumes "\<forall>c \<in> set cs. broker_candidate_validate c = Inr ()" and "e \<le> unat MAX_EVIDENCE_BYTES"
    and "unat MAX_EVIDENCE_BYTES < e + evidence_sum candidate_evidence_bytes cs"
  shows "fold_result count_candidate cs e = Inl LengthExceeded"
  using assms
proof (induction cs arbitrary: e)
  case Nil
  then show ?case by simp
next
  case (Cons c cs)
  then obtain n where n: "candidate_evidence_bytes c = Some n" "n < 2 ^ 20"
    using candidate_evidence_valid [of c] candidate_evidence_bound [of c] by auto
  with Cons show ?case
    by (simp add: count_candidate_def count_evidence_def add_evidence_def add_total_def
        checked_add_def wire_limits)
qed

section \<open>Properties\<close>

text \<open>
  C19. The response codec is exact on every payload that fits in memory: a payload decodes to a
  response exactly when encoding that response gives the payload back, byte for byte, provided the
  evidence of a range response stays within the protocol's limit.
\<close>

theorem response_codec_exact:
  assumes "length p < 2 ^ 64"
  shows "decode_response p = Inr r \<longleftrightarrow>
    wf_response r \<and> range_evidence_bounded r \<and> encode_response r = Inr p"
  using assms by (intro decode_response_iff) (simp add: fits_def)

lemma example_response_wf: "wf_response (ReadVolumeResponse 9 example_volume_response)"
  by code_simp

theorem response_codec_exact_witness:
  "\<exists>p. encode_response (ReadVolumeResponse 9 example_volume_response) = Inr p
     \<and> decode_response p = Inr (ReadVolumeResponse 9 example_volume_response)"
proof -
  let ?r = "ReadVolumeResponse 9 example_volume_response"
  have "validate_response ?r = Inr ()"
    using example_volume_response_valid by (simp add: validate_response_def)
  then have "encode_response ?r = Inr (wire_response ?r)"
    using ok_response_if_valid [OF example_response_wf] by (simp add: encode_response_ok)
  moreover have "length (wire_response ?r) < 2 ^ 64" by code_simp
  ultimately show ?thesis using response_codec_exact example_response_wf by fastforce
qed

text \<open>
  C38. The evidence limit is the one place where the two directions differ: a range response whose
  candidates carry more evidence than the protocol allows is encoded without complaint, and every
  peer then rejects the payload as too long.
\<close>

theorem range_evidence_rejected_by_peer:
  assumes "wf_response (ReadRangeResponse i r)"
    and "validate_response (ReadRangeResponse i r) = Inr ()"
    and "evidence_sum candidate_evidence_bytes (xr_candidates r) > unat MAX_EVIDENCE_BYTES"
    and "length (wire_response (ReadRangeResponse i r)) < 2 ^ 64"
  shows "encode_response (ReadRangeResponse i r) = Inr (wire_response (ReadRangeResponse i r))
    \<and> decode_response (wire_response (ReadRangeResponse i r)) = Inl LengthExceeded"
proof -
  from assms(2) have b: "response_binding_validate (xr_binding r) = Inr ()"
    and n: "length (xr_candidates r) \<le> unat MAX_RECORDS"
    and v: "\<forall>c \<in> set (xr_candidates r). broker_candidate_validate c = Inr ()"
    by (auto simp: validate_response_def validate_read_range_response_def bind_result_eq_Inr
        candidate_usns_fold split: if_splits)
  have cs: "list_all ok_candidate (xr_candidates r)"
    using assms(1) v ok_candidate_if_valid by (auto simp: list_all_iff)
  have ob: "ok_binding (xr_binding r)" using assms(1) b ok_binding_if_valid by simp
  have n32: "length (xr_candidates r) < 2 ^ 32" using n by (simp add: wire_limits)
  have fits: "fits (wire_response (ReadRangeResponse i r))" using assms(4) by (simp add: fits_def)
  have fold: "fold_result count_candidate (xr_candidates r) 0 = Inl LengthExceeded"
    using v assms(3) by (intro count_candidates_exceeded) simp_all
  have "encode_response (ReadRangeResponse i r) = Inr (wire_response (ReadRangeResponse i r))"
    using assms(2) cs ob n32
    by (simp add: encode_response_def bind_action_apply writer_header_eq
        write_read_range_response_def wire_range_response_def struct_put write_candidates_eq
        writer_finish_def writer_new_def)
  moreover have "decode_response (wire_response (ReadRangeResponse i r)) = Inl LengthExceeded"
    using fits cs ob n n32 fold
    by (simp add: decode_response_def inspect_wire_header after_wire_header
        decode_response_kind_def response_kinds read_read_range_response_def
        wire_range_response_def wire_candidates_def bind_action_apply struct_get
        ccandidate.accumulate_fail_all)
  ultimately show ?thesis by simp
qed


text \<open>Nine candidates with the longest path the protocol accepts.\<close>

definition longest_path :: str where
  "longest_path = replicate 32767 0x61"

lemma longest_path_valid:
  "utf8_valid longest_path" "length (encode_utf16 longest_path) = 32767"
  "validate_relative_path longest_path = Inr ()"
proof -
  have chars: "str_chars longest_path = replicate 32767 0x61"
    by (simp add: str_chars_def longest_path_def utf8_chars_ascii list_all_iff)
  show "utf8_valid longest_path"
    by (intro utf8_valid_ascii) (simp add: longest_path_def list_all_iff)
  show len: "length (encode_utf16 longest_path) = 32767"
    by (simp add: encode_utf16_def chars utf16_encode_char_def length_concat sum_list_replicate)
  have split: "split_on c longest_path = [longest_path]" if "c \<noteq> 0x61" for c
    using that by (intro split_on_no_sep) (simp add: longest_path_def)
  have "\<not> eq_ignore_ascii_case longest_path t" if "length t = 3" for t
    using that by (auto simp: eq_ignore_ascii_case_def longest_path_def dest!: arg_cong [of _ _ length])
  then have "\<not> is_reserved_device_name longest_path"
    by (simp add: is_reserved_device_name_def split Let_def lit_def)
      (simp add: longest_path_def)
  then have "validate_component longest_path = Inr ()"
    by (simp add: validate_component_def chars forbidden_char_def list_ex_iff ends_with_def)
      (auto simp: longest_path_def dest!: arg_cong [of _ _ length])
  then show "validate_relative_path longest_path = Inr ()"
    by (simp add: validate_relative_path_eq_Inr len split wire_limits)
      (simp add: longest_path_def)
qed

definition oversized_candidate :: "i64 \<Rightarrow> broker_candidate" where
  "oversized_candidate usn = (example_candidate usn)\<lparr>bc_scope := RelativePath longest_path\<rparr>"

definition oversized_response :: read_range_response where
  "oversized_response = \<lparr>xr_binding = example_binding (lit ''root-a''), xr_journal_id = 77,
     xr_requested_start_usn = 10, xr_requested_end_usn = 20, xr_max_records = 32,
     xr_max_evidence_bytes = 4096, xr_covered_until_usn = 20, xr_is_complete = True,
     xr_candidates = map oversized_candidate [10, 11, 12, 13, 14, 15, 16, 17, 18]\<rparr>"

lemma oversized_candidate_facts:
  "wf_candidate (oversized_candidate u)"
  "0 \<le> sint u \<Longrightarrow> broker_candidate_validate (oversized_candidate u) = Inr ()"
  "candidate_evidence_bytes (oversized_candidate u) = Some 65542"
  by (simp_all add: oversized_candidate_def example_candidate_def wf_candidate_def
      broker_candidate_validate_eq_Inr candidate_scope_validate_def longest_path_valid
      is_reference_length_def candidate_evidence_bytes_def scope_evidence_bytes_def
      checked_mul_def checked_add_def)

lemma length_oversized_candidate: "length (wire_candidate (oversized_candidate u)) = 32795"
  by (simp add: wire_candidate_def oversized_candidate_def example_candidate_def
      wire_byte_vec_def wire_length_def wire_u8_def wire_u32_def wire_u64_def wire_boolean_def
      longest_path_def)

theorem range_evidence_rejected_by_peer_witness:
  "\<exists>p. encode_response (ReadRangeResponse 9 oversized_response) = Inr p
     \<and> decode_response p = Inl LengthExceeded"
proof -
  let ?r = "ReadRangeResponse 9 oversized_response"
  have wf: "wf_response ?r"
  proof -
    have "wf_binding (example_binding (lit ''root-a''))" by code_simp
    then show ?thesis by (simp add: oversized_response_def oversized_candidate_facts)
  qed
  moreover have "validate_response ?r = Inr ()"
  proof -
    have "response_binding_validate (example_binding (lit ''root-a'')) = Inr ()" by code_simp
    moreover have "bc_usn (oversized_candidate u) = u" for u
      by (simp add: oversized_candidate_def example_candidate_def)
    ultimately show ?thesis
      by (simp add: validate_response_def validate_read_range_response_def oversized_response_def
          in_1_to_def wire_limits candidate_usn_step_def oversized_candidate_facts)
  qed
  moreover have "evidence_sum candidate_evidence_bytes (xr_candidates oversized_response)
      > unat MAX_EVIDENCE_BYTES"
    by (simp add: oversized_response_def oversized_candidate_facts wire_limits)
  moreover have "length (wire_response ?r) < 2 ^ 64"
  proof -
    have "length (wire_binding (example_binding (lit ''root-a''))) \<le> 100" by code_simp
    then show ?thesis
      by (simp add: oversized_response_def wire_range_response_def wire_candidates_def
          wire_length_def wire_u32_def wire_u64_def wire_boolean_def wire_u8_def
          length_oversized_candidate)
  qed
  ultimately show ?thesis using range_evidence_rejected_by_peer by blast
qed

end
