(* ===== verification/Service_Contracts.thy ===== *)
theory Service_Contracts
  imports Active_Registry Response_Codec
begin

text \<open>
  The contracts between the broker service, its authorizer and its journal backend
  (\<open>journal_broker/service/contracts.rs\<close>): the facts each side may construct, with the checks of
  their constructors, and the builder through which a backend fills a journal page. The traits
  themselves are the parameters of the service model.
\<close>

type_synonym i32 = "32 word"

datatype authorizer_error =
    AuthorizerCallerRejected | AuthorizerRootUnauthorized | AuthorizerRootIdentityMismatch
  | AuthorizerUnsupportedFilesystem

datatype backend_error =
    BackendRootUnavailable | BackendJournalUnavailable | BackendJournalDiscontinuous
  | BackendVolumeMismatch | BackendRecordUnsupported | BackendEvidenceLimitExceeded
  | BackendTimedOut | BackendCancelled | BackendErrorUnavailable

section \<open>Callers\<close>

record authenticated_connection =
  ac_connection_id :: bytes
  ac_connection_generation :: u64
  ac_opaque_token_binding :: bytes
  ac_observed_client_process_identity :: bytes
  ac_observed_process_id :: u32
  ac_observed_session_id :: u32
  ac_observed_token_type :: i32
  ac_observed_impersonation_level :: i32
  ac_observed_is_elevated :: bool

record authenticated_pipe_facts =
  pf_opaque_token_binding :: bytes
  pf_client_process_identity :: bytes
  pf_process_id :: u32
  pf_session_id :: u32
  pf_token_type :: i32
  pf_impersonation_level :: i32
  pf_is_elevated :: bool

definition from_pipe_token ::
    "bytes \<Rightarrow> u64 \<Rightarrow> authenticated_pipe_facts \<Rightarrow> (authorizer_error, authenticated_connection) result" where
  "from_pipe_token connection_id connection_generation facts =
     (if connection_id = replicate 16 0
         \<or> connection_generation = 0
         \<or> pf_opaque_token_binding facts = replicate 32 0
         \<or> pf_client_process_identity facts = replicate 32 0
         \<or> pf_process_id facts = 0
         \<or> sint (pf_token_type facts) \<noteq> 2
         \<or> sint (pf_impersonation_level facts) < 2
      then Inl AuthorizerCallerRejected
      else Inr \<lparr>ac_connection_id = connection_id, ac_connection_generation = connection_generation,
        ac_opaque_token_binding = pf_opaque_token_binding facts,
        ac_observed_client_process_identity = pf_client_process_identity facts,
        ac_observed_process_id = pf_process_id facts,
        ac_observed_session_id = pf_session_id facts,
        ac_observed_token_type = pf_token_type facts,
        ac_observed_impersonation_level = pf_impersonation_level facts,
        ac_observed_is_elevated = pf_is_elevated facts\<rparr>)"

record caller_authorization =
  ca_connection_id :: bytes
  ca_connection_generation :: u64
  ca_client_instance :: bytes
  ca_opaque_namespace :: bytes

definition from_verified_claim ::
    "authenticated_connection \<Rightarrow> caller_claim \<Rightarrow> (authorizer_error, caller_authorization) result" where
  "from_verified_claim authenticated claim =
     (if cc_process_id claim \<noteq> ac_observed_process_id authenticated
         \<or> cc_session_id claim \<noteq> ac_observed_session_id authenticated
         \<or> cc_client_instance claim = replicate 16 0
      then Inl AuthorizerCallerRejected
      else Inr \<lparr>ca_connection_id = ac_connection_id authenticated,
        ca_connection_generation = ac_connection_generation authenticated,
        ca_client_instance = cc_client_instance claim,
        ca_opaque_namespace = ac_opaque_token_binding authenticated\<rparr>)"

section \<open>Roots\<close>

record declared_root_authorization =
  dr_caller :: caller_authorization
  dr_root :: root_authorization

definition after_access_check ::
    "caller_authorization \<Rightarrow> root_authorization \<Rightarrow> (authorizer_error, declared_root_authorization) result" where
  "after_access_check caller root =
     bind_result (map_err (\<lambda>_. AuthorizerRootUnauthorized) (root_authorization_validate root)) (\<lambda>_.
     Inr \<lparr>dr_caller = caller, dr_root = root\<rparr>)"

datatype root_name_semantics_proof =
  RootNameSemanticsProof (semantics_components: "name_comparison_semantics list")

definition from_pinned_directory_handles ::
    "name_comparison_semantics list \<Rightarrow> (authorizer_error, root_name_semantics_proof) result" where
  "from_pinned_directory_handles components =
     (if length components > MAX_PATH_DEPTH then Inl AuthorizerRootIdentityMismatch
      else Inr (RootNameSemanticsProof components))"

record pinned_broker_root =
  pb_volume_id :: str
  pb_root_identity :: bytes
  pb_canonical_root_utf16 :: "u16 list"
  pb_name_semantics :: root_name_semantics_proof

definition from_caller_pinned_handle ::
    "str \<Rightarrow> bytes \<Rightarrow> u16 list \<Rightarrow> root_name_semantics_proof \<Rightarrow> (backend_error, pinned_broker_root) result" where
  "from_caller_pinned_handle volume_id root_identity canonical_root_utf16 name_semantics =
     (if volume_id = [] \<or> length volume_id > MAX_VOLUME_ID_BYTES
         \<or> \<not> is_reference_length (length root_identity)
      then Inl BackendRootUnavailable
      else bind_result (map_err (\<lambda>_. BackendRootUnavailable)
          (normalize_backend_path canonical_root_utf16)) (\<lambda>normalized.
        if component_count normalized \<noteq> length (semantics_components name_semantics)
        then Inl BackendRootUnavailable
        else Inr \<lparr>pb_volume_id = volume_id, pb_root_identity = root_identity,
          pb_canonical_root_utf16 = canonical_root_utf16, pb_name_semantics = name_semantics\<rparr>))"

record authorized_pinned_root =
  ap_caller :: caller_authorization
  ap_declared_root :: root_authorization
  ap_pinned_root :: pinned_broker_root

definition after_identity_check ::
    "caller_authorization \<Rightarrow> declared_root_authorization \<Rightarrow> pinned_broker_root
      \<Rightarrow> (authorizer_error, authorized_pinned_root) result" where
  "after_identity_check caller declared pinned_root =
     (if ca_connection_id caller \<noteq> ca_connection_id (dr_caller declared)
         \<or> ca_client_instance caller \<noteq> ca_client_instance (dr_caller declared)
         \<or> ca_opaque_namespace caller \<noteq> ca_opaque_namespace (dr_caller declared)
      then Inl AuthorizerRootIdentityMismatch
      else Inr \<lparr>ap_caller = caller, ap_declared_root = dr_root declared, ap_pinned_root = pinned_root\<rparr>)"

definition normalized_root :: "pinned_broker_root \<Rightarrow> (backend_error, normalized_windows_path) result" where
  "normalized_root root =
     map_err (\<lambda>_. BackendRootUnavailable) (normalize_backend_path (pb_canonical_root_utf16 root))"

section \<open>Journal facts\<close>

record existing_journal_metadata =
  jm_journal_id :: u64
  jm_first_usn :: i64
  jm_next_usn :: i64

definition journal_metadata_validate ::
    "existing_journal_metadata \<Rightarrow> (backend_error, existing_journal_metadata) result" where
  "journal_metadata_validate self =
     (if jm_journal_id self = 0 \<or> sint (jm_first_usn self) < 0
         \<or> sint (jm_next_usn self) < sint (jm_first_usn self)
      then Inl BackendJournalDiscontinuous else Inr self)"

definition journal_metadata_from_query ::
    "u64 \<Rightarrow> i64 \<Rightarrow> i64 \<Rightarrow> (backend_error, existing_journal_metadata) result" where
  "journal_metadata_from_query journal_id first_usn next_usn =
     journal_metadata_validate
       \<lparr>jm_journal_id = journal_id, jm_first_usn = first_usn, jm_next_usn = next_usn\<rparr>"

datatype existing_journal_state =
    JournalSupported existing_journal_metadata
  | JournalLiveOnly

record journal_range =
  jg_start_usn :: i64
  jg_end_usn :: i64

definition journal_range_new :: "i64 \<Rightarrow> i64 \<Rightarrow> (backend_error, journal_range) result" where
  "journal_range_new start_usn end_usn =
     (if sint start_usn < 0 \<or> sint end_usn \<le> sint start_usn then Inl BackendJournalDiscontinuous
      else Inr \<lparr>jg_start_usn = start_usn, jg_end_usn = end_usn\<rparr>)"

record journal_read_limits =
  jl_max_records :: nat
  jl_max_evidence_bytes :: nat

definition journal_read_limits_new :: "nat \<Rightarrow> nat \<Rightarrow> (backend_error, journal_read_limits) result" where
  "journal_read_limits_new max_records max_evidence_bytes =
     (if \<not> (1 \<le> max_records \<and> max_records \<le> unat MAX_RECORDS)
         \<or> \<not> (1 \<le> max_evidence_bytes \<and> max_evidence_bytes \<le> unat MAX_EVIDENCE_BYTES)
      then Inl BackendEvidenceLimitExceeded
      else Inr \<lparr>jl_max_records = max_records, jl_max_evidence_bytes = max_evidence_bytes\<rparr>)"

record backend_journal_candidate =
  jc_volume_id :: str
  jc_absolute_path_utf16 :: "u16 list"
  jc_previous_absolute_path_utf16 :: "u16 list option"
  jc_file_reference :: bytes
  jc_usn :: i64
  jc_kind :: candidate_kind
  jc_is_directory :: bool

definition copy_from_bounded ::
    "str \<Rightarrow> u16 list \<Rightarrow> u16 list option \<Rightarrow> bytes \<Rightarrow> i64 \<Rightarrow> candidate_kind \<Rightarrow> bool
      \<Rightarrow> (backend_error, backend_journal_candidate) result" where
  "copy_from_bounded volume_id absolute_path previous_path file_reference usn kind is_directory =
     (let has_previous = (previous_path \<noteq> None) in
      if volume_id = []
         \<or> length volume_id > MAX_VOLUME_ID_BYTES
         \<or> length absolute_path > MAX_PATH_UTF16_UNITS
         \<or> (case previous_path of None \<Rightarrow> False | Some path \<Rightarrow> length path > MAX_PATH_UTF16_UNITS)
         \<or> \<not> is_reference_length (length file_reference)
         \<or> sint usn < 0
         \<or> has_previous \<noteq> (kind = Rename)
         \<or> (kind = Subtree \<and> \<not> is_directory)
      then Inl BackendRecordUnsupported
      else bind_result (map_err (\<lambda>_. BackendRecordUnsupported) (normalize_backend_path absolute_path)) (\<lambda>_.
        bind_result (validate_option (\<lambda>previous. bind_result
          (map_err (\<lambda>_. BackendRecordUnsupported) (normalize_backend_path previous)) (\<lambda>_. Inr ()))
          previous_path) (\<lambda>_.
        Inr \<lparr>jc_volume_id = volume_id, jc_absolute_path_utf16 = absolute_path,
          jc_previous_absolute_path_utf16 = previous_path, jc_file_reference = file_reference,
          jc_usn = usn, jc_kind = kind, jc_is_directory = is_directory\<rparr>)))"

definition backend_evidence_bytes :: "backend_journal_candidate \<Rightarrow> (backend_error, nat) result" where
  "backend_evidence_bytes self =
     ok_or (Option.bind (checked_mul (length (jc_absolute_path_utf16 self)) 2) (\<lambda>current.
       Option.bind (case jc_previous_absolute_path_utf16 self of
           None \<Rightarrow> Some current
         | Some previous \<Rightarrow> Option.bind (checked_mul (length previous) 2) (checked_add current))
       (\<lambda>n. checked_add n (length (jc_file_reference self))))) BackendEvidenceLimitExceeded"

record journal_read_proof =
  jp_covered_until_usn :: i64
  jp_is_complete :: bool
  jp_after :: existing_journal_metadata

definition read_proof_after_read ::
    "i64 \<Rightarrow> bool \<Rightarrow> existing_journal_metadata \<Rightarrow> (backend_error, journal_read_proof) result" where
  "read_proof_after_read covered_until_usn is_complete after =
     bind_result (journal_metadata_validate after) (\<lambda>_.
     if sint covered_until_usn < 0 then Inl BackendJournalDiscontinuous
     else Inr \<lparr>jp_covered_until_usn = covered_until_usn, jp_is_complete = is_complete, jp_after = after\<rparr>)"

section \<open>Pages\<close>

record bounded_journal_page =
  bp_candidates :: "backend_journal_candidate list"
  bp_proof :: journal_read_proof

record bounded_journal_page_builder =
  pg_range :: journal_range
  pg_limits :: journal_read_limits
  pg_evidence_bytes :: nat
  pg_candidates :: "backend_journal_candidate list"

definition page_builder_new :: "journal_range \<Rightarrow> journal_read_limits \<Rightarrow> bounded_journal_page_builder" where
  "page_builder_new bounds limits =
     \<lparr>pg_range = bounds, pg_limits = limits, pg_evidence_bytes = 0, pg_candidates = []\<rparr>"

definition page_builder_push ::
    "backend_journal_candidate \<Rightarrow> bounded_journal_page_builder
      \<Rightarrow> (backend_error, bounded_journal_page_builder) result" where
  "page_builder_push candidate self =
     (if length (pg_candidates self) \<ge> jl_max_records (pg_limits self)
      then Inl BackendEvidenceLimitExceeded
      else if sint (jc_usn candidate) < sint (jg_start_usn (pg_range self))
              \<or> sint (jc_usn candidate) \<ge> sint (jg_end_usn (pg_range self))
      then Inl BackendJournalDiscontinuous
      else if pg_candidates self \<noteq> []
              \<and> sint (jc_usn candidate) \<le> sint (jc_usn (last (pg_candidates self)))
      then Inl BackendJournalDiscontinuous
      else bind_result (backend_evidence_bytes candidate) (\<lambda>evidence.
        bind_result (ok_or (checked_add (pg_evidence_bytes self) evidence) BackendEvidenceLimitExceeded)
          (\<lambda>next_size.
        if next_size > jl_max_evidence_bytes (pg_limits self) then Inl BackendEvidenceLimitExceeded
        else Inr (self\<lparr>pg_evidence_bytes := next_size,
          pg_candidates := pg_candidates self @ [candidate]\<rparr>))))"

definition page_builder_finish ::
    "existing_journal_metadata \<Rightarrow> journal_read_proof \<Rightarrow> bounded_journal_page_builder
      \<Rightarrow> (backend_error, bounded_journal_page) result" where
  "page_builder_finish before proof self =
     bind_result (journal_metadata_validate (jp_after proof)) (\<lambda>after.
     if jm_journal_id after \<noteq> jm_journal_id before
        \<or> sint (jm_first_usn after) > sint (jg_start_usn (pg_range self))
        \<or> sint (jm_next_usn after) < sint (jg_end_usn (pg_range self))
        \<or> sint (jp_covered_until_usn proof) \<le> sint (jg_start_usn (pg_range self))
        \<or> sint (jp_covered_until_usn proof) > sint (jg_end_usn (pg_range self))
        \<or> jp_is_complete proof \<noteq> (jp_covered_until_usn proof = jg_end_usn (pg_range self))
        \<or> (pg_candidates self \<noteq> []
            \<and> sint (jc_usn (last (pg_candidates self))) \<ge> sint (jp_covered_until_usn proof))
     then Inl BackendJournalDiscontinuous
     else Inr \<lparr>bp_candidates = pg_candidates self, bp_proof = proof\<rparr>)"

text \<open>
  A backend reaches the builder through \<open>push\<close> only, and a push that fails leaves it as it was: what
  a backend does to a page is the list of candidates it offers.
\<close>

definition page_builder_offer ::
    "backend_journal_candidate \<Rightarrow> bounded_journal_page_builder \<Rightarrow> bounded_journal_page_builder" where
  "page_builder_offer candidate self =
     (case page_builder_push candidate self of Inl _ \<Rightarrow> self | Inr self' \<Rightarrow> self')"

section \<open>Volume pages\<close>

record backend_pending_rename_carry =
  cr_root :: "authorized_pinned_root option"
  cr_read_root_index :: "nat option"
  cr_file_reference :: bytes
  cr_old_usn :: i64
  cr_previous_relative_path :: str
  cr_is_directory :: bool

record existing_journal_volume_read =
  ev_roots :: "authorized_pinned_root list"
  ev_root_start_usns :: "i64 list"
  ev_pending_renames :: "backend_pending_rename_carry list"
  ev_journal :: existing_journal_metadata
  ev_range :: journal_range
  ev_limits :: journal_read_limits

record backend_journal_handoff =
  bh_previous_root_index :: "nat option"
  bh_previous_pending_index :: "nat option"
  bh_current_root_index :: nat
  bh_previous_absolute_path_utf16 :: "u16 list"
  bh_current_absolute_path_utf16 :: "u16 list"
  bh_file_reference :: bytes
  bh_old_usn :: i64
  bh_usn :: i64
  bh_is_directory :: bool

record backend_pending_rename =
  bn_root_index :: nat
  bn_previous_absolute_path_utf16 :: "u16 list"
  bn_file_reference :: bytes
  bn_old_usn :: i64
  bn_is_directory :: bool

record shared_backend_journal_page =
  sj_candidates_by_root :: "(backend_error, backend_journal_candidate list) result list"
  sj_handoffs :: "backend_journal_handoff list"
  sj_pending_renames :: "backend_pending_rename list"
  sj_rename_barriers_by_root :: "i64 option list"
  sj_proof :: "journal_read_proof option"

section \<open>What the builder keeps\<close>

abbreviation candidates_ordered :: "backend_journal_candidate list \<Rightarrow> bool" where
  "candidates_ordered cs \<equiv> sorted_wrt (\<lambda>a b. sint (jc_usn a) < sint (jc_usn b)) cs"

text \<open>The evidence bytes of a list of candidates, none of which overflows.\<close>

definition backend_evidence_sum :: "backend_journal_candidate list \<Rightarrow> nat" where
  "backend_evidence_sum cs = (\<Sum>c \<leftarrow> cs. case backend_evidence_bytes c of Inl _ \<Rightarrow> 0 | Inr n \<Rightarrow> n)"

definition page_builder_inv :: "bounded_journal_page_builder \<Rightarrow> bool" where
  "page_builder_inv b \<longleftrightarrow> length (pg_candidates b) \<le> jl_max_records (pg_limits b)
     \<and> pg_evidence_bytes b = backend_evidence_sum (pg_candidates b)
     \<and> pg_evidence_bytes b \<le> jl_max_evidence_bytes (pg_limits b)
     \<and> candidates_ordered (pg_candidates b)
     \<and> (\<forall>c \<in> set (pg_candidates b). sint (jg_start_usn (pg_range b)) \<le> sint (jc_usn c)
          \<and> sint (jc_usn c) < sint (jg_end_usn (pg_range b))
          \<and> (\<exists>n. backend_evidence_bytes c = Inr n))"

lemma page_builder_new_inv: "page_builder_inv (page_builder_new r l)"
  by (simp add: page_builder_inv_def page_builder_new_def backend_evidence_sum_def)

lemma ordered_below_last:
  assumes "candidates_ordered cs" and "c \<in> set cs"
  shows "sint (jc_usn c) \<le> sint (jc_usn (last cs))"
  using assms
  by (induction cs) (auto simp: order_less_imp_le)

lemma ordered_snoc:
  assumes "candidates_ordered cs" and "cs \<noteq> [] \<longrightarrow> sint (jc_usn (last cs)) < sint (jc_usn c)"
  shows "candidates_ordered (cs @ [c])"
  using assms ordered_below_last [OF assms(1)]
  by (auto simp: sorted_wrt_append) (metis le_less_trans)

lemma page_builder_push_inv:
  assumes "page_builder_inv b" and "page_builder_push c b = Inr b'"
  shows "page_builder_inv b'" and "pg_range b' = pg_range b" and "pg_limits b' = pg_limits b"
proof -
  from assms(2) have b': "pg_candidates b' = pg_candidates b @ [c]" "pg_range b' = pg_range b"
      "pg_limits b' = pg_limits b"
    and len: "length (pg_candidates b) < jl_max_records (pg_limits b)"
    and usn: "sint (jg_start_usn (pg_range b)) \<le> sint (jc_usn c)"
      "sint (jc_usn c) < sint (jg_end_usn (pg_range b))"
      "pg_candidates b \<noteq> [] \<longrightarrow> sint (jc_usn (last (pg_candidates b))) < sint (jc_usn c)"
    and ev: "\<exists>n. backend_evidence_bytes c = Inr n \<and> pg_evidence_bytes b' = pg_evidence_bytes b + n
      \<and> pg_evidence_bytes b' \<le> jl_max_evidence_bytes (pg_limits b)"
    by (auto simp: page_builder_push_def bind_result_eq_Inr ok_or_eq_Inr not_le not_less
        split: if_splits)
  from assms(1) usn(3) have "candidates_ordered (pg_candidates b')"
    unfolding b' by (intro ordered_snoc) (auto simp: page_builder_inv_def)
  with assms(1) b' len usn ev show "page_builder_inv b'"
    by (auto simp: page_builder_inv_def backend_evidence_sum_def)
  from b' show "pg_range b' = pg_range b" "pg_limits b' = pg_limits b" by simp_all
qed

lemma page_builder_offer_inv:
  "page_builder_inv b \<Longrightarrow> page_builder_inv (page_builder_offer c b)
    \<and> pg_range (page_builder_offer c b) = pg_range b \<and> pg_limits (page_builder_offer c b) = pg_limits b"
  by (cases "page_builder_push c b") (simp_all add: page_builder_offer_def page_builder_push_inv)

lemma page_builder_offers_inv:
  "page_builder_inv b \<Longrightarrow> page_builder_inv (fold page_builder_offer cs b)
    \<and> pg_range (fold page_builder_offer cs b) = pg_range b
    \<and> pg_limits (fold page_builder_offer cs b) = pg_limits b"
  by (induction cs arbitrary: b) (simp_all add: page_builder_offer_inv)

section \<open>Properties\<close>

lemma built_page:
  assumes "page_builder_finish before proof (fold page_builder_offer offered (page_builder_new bounds limits))
    = Inr page"
  shows "candidates_ordered (bp_candidates page)
    \<and> (\<forall>c \<in> set (bp_candidates page). sint (jg_start_usn bounds) \<le> sint (jc_usn c)
         \<and> sint (jc_usn c) < sint (jp_covered_until_usn proof)
         \<and> (\<exists>n. backend_evidence_bytes c = Inr n))
    \<and> length (bp_candidates page) \<le> jl_max_records limits
    \<and> backend_evidence_sum (bp_candidates page) \<le> jl_max_evidence_bytes limits
    \<and> sint (jg_start_usn bounds) < sint (jp_covered_until_usn proof)
    \<and> sint (jp_covered_until_usn proof) \<le> sint (jg_end_usn bounds)
    \<and> jp_is_complete proof = (jp_covered_until_usn proof = jg_end_usn bounds)
    \<and> bp_proof page = proof"
proof -
  let ?b = "fold page_builder_offer offered (page_builder_new bounds limits)"
  have inv: "page_builder_inv ?b" "pg_range ?b = bounds" "pg_limits ?b = limits"
    using page_builder_offers_inv [OF page_builder_new_inv] by (auto simp: page_builder_new_def)
  from assms have fin: "bp_candidates page = pg_candidates ?b" "bp_proof page = proof"
    "sint (jg_start_usn bounds) < sint (jp_covered_until_usn proof)"
    "sint (jp_covered_until_usn proof) \<le> sint (jg_end_usn bounds)"
    "jp_is_complete proof = (jp_covered_until_usn proof = jg_end_usn bounds)"
    "pg_candidates ?b \<noteq> [] \<longrightarrow> sint (jc_usn (last (pg_candidates ?b))) < sint (jp_covered_until_usn proof)"
    by (auto simp: page_builder_finish_def bind_result_eq_Inr inv not_le split: if_splits)
  have "sint (jc_usn c) < sint (jp_covered_until_usn proof)" if "c \<in> set (pg_candidates ?b)" for c
    using ordered_below_last [of "pg_candidates ?b" c] that fin(6) inv(1)
    by (fastforce simp: page_builder_inv_def)
  with inv fin show ?thesis by (auto simp: page_builder_inv_def)
qed

text \<open>
  C28. Whatever candidates a backend offers to the builder of a journal page, in whatever order, a
  page that finishes is in journal order without repetitions, lies inside the requested range and
  below the USN its proof covers, keeps the record and evidence limits it was built for, and its
  proof claims completeness exactly when it reaches the end of the range.
\<close>

theorem page_builder_bounds:
  assumes "page_builder_finish before proof (fold page_builder_offer offered (page_builder_new bounds limits))
    = Inr page"
  shows "sorted_wrt (\<lambda>a b. sint (jc_usn a) < sint (jc_usn b)) (bp_candidates page)
    \<and> (\<forall>c \<in> set (bp_candidates page). sint (jg_start_usn bounds) \<le> sint (jc_usn c)
         \<and> sint (jc_usn c) < sint (jp_covered_until_usn proof))
    \<and> length (bp_candidates page) \<le> jl_max_records limits
    \<and> backend_evidence_sum (bp_candidates page) \<le> jl_max_evidence_bytes limits
    \<and> jp_is_complete proof = (jp_covered_until_usn proof = jg_end_usn bounds)"
  using built_page [OF assms] by simp

definition example_backend_candidate :: "i64 \<Rightarrow> backend_journal_candidate" where
  "example_backend_candidate usn = \<lparr>jc_volume_id = lit ''volume-a'',
     jc_absolute_path_utf16 = example_path_units, jc_previous_absolute_path_utf16 = None,
     jc_file_reference = replicate 16 9, jc_usn = usn, jc_kind = Path, jc_is_directory = False\<rparr>"

definition example_metadata :: existing_journal_metadata where
  "example_metadata = \<lparr>jm_journal_id = 77, jm_first_usn = 1, jm_next_usn = 30\<rparr>"

definition example_proof :: journal_read_proof where
  "example_proof = \<lparr>jp_covered_until_usn = 20, jp_is_complete = True, jp_after = example_metadata\<rparr>"

lemma example_evidence: "backend_evidence_bytes (example_backend_candidate usn) = Inr 50"
proof -
  have "length example_path_units = 17" by code_simp
  then show ?thesis
    by (simp add: backend_evidence_bytes_def example_backend_candidate_def checked_mul_def checked_add_def)
qed

lemma example_usn: "jc_usn (example_backend_candidate usn) = usn"
  by (simp add: example_backend_candidate_def)

definition example_builder :: "nat \<Rightarrow> backend_journal_candidate list \<Rightarrow> bounded_journal_page_builder" where
  "example_builder evidence candidates =
     \<lparr>pg_range = \<lparr>jg_start_usn = 10, jg_end_usn = 20\<rparr>,
      pg_limits = \<lparr>jl_max_records = 32, jl_max_evidence_bytes = 4096\<rparr>,
      pg_evidence_bytes = evidence, pg_candidates = candidates\<rparr>"

lemma example_offers:
  "page_builder_offer (example_backend_candidate 12) (example_builder 0 []) =
     example_builder 50 [example_backend_candidate 12]"
  "page_builder_offer (example_backend_candidate 11) (example_builder 50 [example_backend_candidate 12]) =
     example_builder 50 [example_backend_candidate 12]"
  "page_builder_offer (example_backend_candidate 15) (example_builder 50 [example_backend_candidate 12]) =
     example_builder 100 [example_backend_candidate 12, example_backend_candidate 15]"
  by (simp_all add: page_builder_offer_def page_builder_push_def example_builder_def example_evidence
      example_usn checked_add_def)

theorem page_builder_bounds_witness:
  "\<exists>page. page_builder_finish example_metadata example_proof (fold page_builder_offer
      [example_backend_candidate 12, example_backend_candidate 11, example_backend_candidate 15]
      (page_builder_new \<lparr>jg_start_usn = 10, jg_end_usn = 20\<rparr>
        \<lparr>jl_max_records = 32, jl_max_evidence_bytes = 4096\<rparr>)) = Inr page
    \<and> length (bp_candidates page) = 2
    \<and> sorted_wrt (\<lambda>a b. sint (jc_usn a) < sint (jc_usn b)) (bp_candidates page)"
proof -
  let ?b = "fold page_builder_offer
      [example_backend_candidate 12, example_backend_candidate 11, example_backend_candidate 15]
      (page_builder_new \<lparr>jg_start_usn = 10, jg_end_usn = 20\<rparr>
        \<lparr>jl_max_records = 32, jl_max_evidence_bytes = 4096\<rparr>)"
  let ?page = "\<lparr>bp_candidates = [example_backend_candidate 12, example_backend_candidate 15],
    bp_proof = example_proof\<rparr>"
  have "page_builder_new \<lparr>jg_start_usn = 10, jg_end_usn = 20\<rparr>
      \<lparr>jl_max_records = 32, jl_max_evidence_bytes = 4096\<rparr> = example_builder 0 []"
    by (simp add: page_builder_new_def example_builder_def)
  then have "?b = example_builder 100 [example_backend_candidate 12, example_backend_candidate 15]"
    by (simp add: example_offers)
  then have r: "page_builder_finish example_metadata example_proof ?b = Inr ?page"
    by (simp add: page_builder_finish_def example_builder_def example_usn example_proof_def
        example_metadata_def journal_metadata_validate_def)
  from page_builder_bounds [OF r] have "sorted_wrt (\<lambda>a b. sint (jc_usn a) < sint (jc_usn b)) (bp_candidates ?page)"
    by simp
  moreover have "length (bp_candidates ?page) = 2" by simp
  ultimately show ?thesis using r by blast
qed

end
