(* ===== verification/Service_World.thy ===== *)
theory Service_World
  imports Service_Contracts
begin

text \<open>
  What a request handler of the broker service sees of the world: the registry of active requests,
  the clock, and the host behind the service. The traits \<open>CallerAuthorizer\<close> and
  \<open>ExistingJournalBackend\<close> are the fields of \<open>broker_host\<close>: arbitrary functions that may change
  the world, as their implementations and the other threads of the service do while they run.
  \<open>ht_interfere\<close> is what other threads do to the registry, and the passing of time, between two
  steps of the handler itself.

  An \<open>Instant\<close> is a number of nanoseconds. Windows keeps it as a \<open>Duration\<close>, whose seconds are a
  \<open>u64\<close>: \<open>checked_add\<close> fails above that.
\<close>

section \<open>Handlers as state transformers\<close>

type_synonym ('s, 'e, 'a) stateful = "'s \<Rightarrow> 's \<times> ('e, 'a) result"

definition bind_stateful ::
    "('s, 'e, 'a) stateful \<Rightarrow> ('a \<Rightarrow> ('s, 'e, 'b) stateful) \<Rightarrow> ('s, 'e, 'b) stateful" where
  "bind_stateful m f = (\<lambda>s. case m s of
     (s', Inl e) \<Rightarrow> (s', Inl e)
   | (s', Inr a) \<Rightarrow> f a s')"

definition return_stateful :: "'a \<Rightarrow> ('s, 'e, 'a) stateful" where
  "return_stateful a = (\<lambda>s. (s, Inr a))"

definition fail_stateful :: "'e \<Rightarrow> ('s, 'e, 'a) stateful" where
  "fail_stateful e = (\<lambda>s. (s, Inl e))"

definition lift_stateful :: "('e, 'a) result \<Rightarrow> ('s, 'e, 'a) stateful" where
  "lift_stateful r = (\<lambda>s. (s, r))"

definition map_err_stateful :: "('e \<Rightarrow> 'f) \<Rightarrow> ('s, 'e, 'a) stateful \<Rightarrow> ('s, 'f, 'a) stateful" where
  "map_err_stateful g m = (\<lambda>s. case m s of (s', r) \<Rightarrow> (s', map_err g r))"

text \<open>The result of a call as a value: \<open>match call { Ok .. Err .. }\<close>.\<close>

definition catch_stateful :: "('s, 'e, 'a) stateful \<Rightarrow> ('s, 'f, ('e, 'a) result) stateful" where
  "catch_stateful m = (\<lambda>s. case m s of (s', r) \<Rightarrow> (s', Inr r))"

fun fold_stateful ::
    "('a \<Rightarrow> 'b \<Rightarrow> ('s, 'e, 'b) stateful) \<Rightarrow> 'a list \<Rightarrow> 'b \<Rightarrow> ('s, 'e, 'b) stateful" where
  "fold_stateful f [] acc = return_stateful acc"
| "fold_stateful f (x # xs) acc = bind_stateful (f x acc) (fold_stateful f xs)"

lemma bind_stateful_eq_Inr:
  "bind_stateful m f s = (t, Inr b) \<longleftrightarrow> (\<exists>a s'. m s = (s', Inr a) \<and> f a s' = (t, Inr b))"
  by (auto simp: bind_stateful_def split: prod.splits sum.splits)

lemma stateful_eq_Inr:
  "return_stateful a s = (t, Inr b) \<longleftrightarrow> t = s \<and> b = a"
  "fail_stateful e s = (t, Inr b) \<longleftrightarrow> False"
  "lift_stateful r s = (t, Inr b) \<longleftrightarrow> t = s \<and> r = Inr b"
  "map_err_stateful g m s = (t, Inr b) \<longleftrightarrow> m s = (t, Inr b)"
  "catch_stateful m s = (t, Inr r) \<longleftrightarrow> m s = (t, r)"
  by (auto simp: return_stateful_def fail_stateful_def lift_stateful_def map_err_stateful_def
      catch_stateful_def map_err_eq_Inr split: prod.splits)

text \<open>What a loop that succeeds keeps, from what each of its turns keeps.\<close>

lemma fold_stateful_induct:
  assumes "fold_stateful f xs acc s = (t, Inr acc')" and "P acc"
    and "\<And>x a s a' s'. x \<in> set xs \<Longrightarrow> P a \<Longrightarrow> f x a s = (s', Inr a') \<Longrightarrow> P a'"
  shows "P acc'"
  using assms
proof (induction xs arbitrary: acc s)
  case Nil
  then show ?case by (simp add: stateful_eq_Inr)
next
  case (Cons x xs)
  from Cons.prems(1) obtain a s' where step: "f x acc s = (s', Inr a)"
    and rest: "fold_stateful f xs a s' = (t, Inr acc')"
    by (auto simp: bind_stateful_eq_Inr)
  have "P a" using Cons.prems(3) [OF _ Cons.prems(2) step] by simp
  then show ?case by (rule Cons.IH [OF rest]) (rule Cons.prems(3), auto)
qed

text \<open>The same with the turns already taken.\<close>

lemma fold_stateful_prefix:
  assumes "fold_stateful f xs acc s = (t, Inr acc')" and "P pre acc"
    and "\<And>pre x a s a' s' post. all = pre @ x # post \<Longrightarrow> P pre a \<Longrightarrow> f x a s = (s', Inr a')
      \<Longrightarrow> P (pre @ [x]) a'"
    and "all = pre @ xs"
  shows "P all acc'"
  using assms
proof (induction xs arbitrary: acc s pre)
  case Nil
  then show ?case by (simp add: stateful_eq_Inr)
next
  case (Cons x xs)
  from Cons.prems(1) obtain a s' where step: "f x acc s = (s', Inr a)"
    and rest: "fold_stateful f xs a s' = (t, Inr acc')"
    by (auto simp: bind_stateful_eq_Inr)
  have "P (pre @ [x]) a" using Cons.prems(3) [OF _ Cons.prems(2) step] Cons.prems(4) by simp
  then show ?case by (rule Cons.IH [OF rest]) (rule Cons.prems(3), auto simp: Cons.prems(4))
qed

lemmas fold_stateful_all = fold_stateful_prefix [where pre = "[]", simplified, OF _ _ _ refl]

section \<open>The world of a handler\<close>

record 'x broker_world =
  bw_registry :: registry_state
  bw_now :: nat
  bw_bounded_steps :: nat
  bw_rest :: 'x

record request_context =
  rc_deadline :: nat
  rc_key :: active_request_key

record 'x broker_host =
  ht_interfere :: "'x broker_world \<Rightarrow> 'x broker_world"
  ht_order :: "request_table \<Rightarrow> request_table"
  ht_compare :: ordinal_compare
  ht_verify_claim :: "authenticated_connection \<Rightarrow> caller_claim
    \<Rightarrow> ('x broker_world, authorizer_error, caller_authorization) stateful"
  ht_register_root :: "caller_authorization \<Rightarrow> root_authorization \<Rightarrow> u64 \<Rightarrow> request_context
    \<Rightarrow> ('x broker_world, authorizer_error, root_capability) stateful"
  ht_authorize_registered_root :: "caller_authorization \<Rightarrow> root_authorization \<Rightarrow> root_capability
    \<Rightarrow> request_context \<Rightarrow> ('x broker_world, authorizer_error, authorized_pinned_root) stateful"
  ht_filter_disclosable_candidates :: "authorized_pinned_root \<Rightarrow> backend_journal_candidate list
    \<Rightarrow> request_context \<Rightarrow> ('x broker_world, authorizer_error, backend_journal_candidate list) stateful"
  ht_query_existing_journal :: "authorized_pinned_root \<Rightarrow> request_context
    \<Rightarrow> ('x broker_world, backend_error, existing_journal_state) stateful"
  ht_read_existing_journal_page :: "authorized_pinned_root \<Rightarrow> existing_journal_metadata
    \<Rightarrow> journal_range \<Rightarrow> bounded_journal_page_builder \<Rightarrow> request_context
    \<Rightarrow> ('x broker_world, backend_error, backend_journal_candidate list \<times> journal_read_proof) stateful"
  ht_read_existing_journal_volume_page :: "existing_journal_volume_read \<Rightarrow> request_context
    \<Rightarrow> ('x broker_world, backend_error, shared_backend_journal_page) stateful"

text \<open>
  A call of the registry with \<open>Instant::now()\<close> as its argument: other threads may run before the
  clock is read and again before the lock is taken.
\<close>

definition on_registry ::
    "'x broker_host \<Rightarrow> (nat \<Rightarrow> registry_state \<Rightarrow> registry_state \<times> ('e, 'a) result)
      \<Rightarrow> ('x broker_world, 'e, 'a) stateful" where
  "on_registry host operation world =
     (let before = ht_interfere host world; locked = ht_interfere host before;
          (registry, r) = operation (bw_now before) (bw_registry locked) in
      (locked\<lparr>bw_registry := registry\<rparr>, r))"

text \<open>A call of \<open>register\<close>, which reads the clock while it holds the lock.\<close>

definition on_registry_now ::
    "'x broker_host \<Rightarrow> (nat \<Rightarrow> registry_state \<Rightarrow> registry_state \<times> ('e, 'a) result)
      \<Rightarrow> ('x broker_world, 'e, 'a) stateful" where
  "on_registry_now host operation world =
     (let locked = ht_interfere host world;
          (registry, r) = operation (bw_now locked) (bw_registry locked) in
      (locked\<lparr>bw_registry := registry\<rparr>, r))"

section \<open>The request context\<close>

definition MAX_BACKEND_STEP :: nat where
  "MAX_BACKEND_STEP = 250 * 1000000"

definition context_check ::
    "'x broker_host \<Rightarrow> request_context \<Rightarrow> ('x broker_world, backend_error, unit) stateful" where
  "context_check host self =
     map_err_stateful (\<lambda>e. case e of RequestTimedOut \<Rightarrow> BackendTimedOut | _ \<Rightarrow> BackendCancelled)
       (on_registry host (\<lambda>now registry. (registry, check_request (rc_key self) now registry)))"

text \<open>\<open>saturating_duration_since\<close>: truncated subtraction.\<close>

definition context_remaining :: "'x broker_host \<Rightarrow> request_context \<Rightarrow> 'x broker_world \<Rightarrow> 'x broker_world \<times> nat" where
  "context_remaining host self world =
     (let world = ht_interfere host world in (world, rc_deadline self - bw_now world))"

definition context_bounded_step ::
    "'x broker_host \<Rightarrow> request_context \<Rightarrow> ('x broker_world, backend_error, nat) stateful" where
  "context_bounded_step host self =
     bind_stateful (context_check host self) (\<lambda>_ world.
       case checked_add (bw_bounded_steps world) 1 of
         None \<Rightarrow> (world, Inl BackendTimedOut)
       | Some steps \<Rightarrow>
           let (world, remaining) = context_remaining host self (world\<lparr>bw_bounded_steps := steps\<rparr>) in
           (world, Inr (min remaining MAX_BACKEND_STEP)))"

definition context_new ::
    "active_request_key \<Rightarrow> nat \<Rightarrow> ('x broker_world, 'e, request_context) stateful" where
  "context_new key deadline world =
     (world\<lparr>bw_bounded_steps := 0\<rparr>, Inr \<lparr>rc_deadline = deadline, rc_key = key\<rparr>)"

section \<open>Failures\<close>

definition failure_response :: "u64 \<Rightarrow> bytes option \<Rightarrow> broker_failure_code \<Rightarrow> broker_response" where
  "failure_response request_id client_instance code =
     FailureResponse request_id client_instance (BrokerFailure code)"

fun map_authorizer_failure :: "authorizer_error \<Rightarrow> broker_failure" where
  "map_authorizer_failure AuthorizerCallerRejected = BrokerFailure CallerRejected"
| "map_authorizer_failure AuthorizerRootUnauthorized = BrokerFailure RootUnauthorized"
| "map_authorizer_failure AuthorizerRootIdentityMismatch = BrokerFailure RootIdentityMismatch"
| "map_authorizer_failure AuthorizerUnsupportedFilesystem = BrokerFailure JournalUnavailable"

fun map_backend_failure :: "backend_error \<Rightarrow> broker_failure" where
  "map_backend_failure BackendRootUnavailable = BrokerFailure RootIdentityMismatch"
| "map_backend_failure BackendJournalUnavailable = BrokerFailure JournalUnavailable"
| "map_backend_failure BackendJournalDiscontinuous = BrokerFailure JournalDiscontinuous"
| "map_backend_failure BackendVolumeMismatch = BrokerFailure VolumeMismatch"
| "map_backend_failure BackendRecordUnsupported = BrokerFailure RecordUnsupported"
| "map_backend_failure BackendEvidenceLimitExceeded = BrokerFailure EvidenceLimitExceeded"
| "map_backend_failure BackendTimedOut = BrokerFailure TimedOut"
| "map_backend_failure BackendCancelled = BrokerFailure Cancelled"
| "map_backend_failure BackendErrorUnavailable = BrokerFailure BackendUnavailable"

fun map_active_failure :: "active_request_error \<Rightarrow> broker_failure" where
  "map_active_failure AlreadyActive = BrokerFailure ActiveLimitExceeded"
| "map_active_failure LimitExceeded = BrokerFailure ActiveLimitExceeded"
| "map_active_failure active_request_error.TerminalDeliveryBackpressure = BrokerFailure broker_failure_code.TerminalDeliveryBackpressure"
| "map_active_failure NotActive = BrokerFailure RequestNotActive"
| "map_active_failure ConnectionNotOpen = BrokerFailure RequestNotActive"
| "map_active_failure ConnectionGenerationMismatch = BrokerFailure RequestNotActive"
| "map_active_failure RequestCancelled = BrokerFailure Cancelled"
| "map_active_failure RequestTimedOut = BrokerFailure TimedOut"

definition deadline_from_timeout ::
    "'x broker_host \<Rightarrow> u32 \<Rightarrow> ('x broker_world, broker_failure, nat) stateful" where
  "deadline_from_timeout host timeout_ms world =
     (let world = ht_interfere host world; deadline = bw_now world + unat timeout_ms * 1000000 in
      (world, if deadline < 2 ^ 64 * 1000000000 then Inr deadline else Inl (BrokerFailure TimedOut)))"

end
