(* ===== verification/Service_Translation.thy ===== *)
theory Service_Translation
  imports Service_World
begin

text \<open>
  From what the journal backend reports to what a client may be told: the free functions of
  \<open>journal_broker/service.rs\<close> that check an authorised root, place candidates, cross-root moves and
  pending renames under it, and bound a response, with the check of a backend's volume page
  (\<open>journal_broker/service/shared_page_validation.rs\<close>).
\<close>

section \<open>Authorised roots\<close>

definition validate_pinned_root ::
    "ordinal_compare \<Rightarrow> root_authorization \<Rightarrow> pinned_broker_root \<Rightarrow> (broker_failure, unit) result" where
  "validate_pinned_root compare declared pinned =
     (if pb_volume_id pinned \<noteq> ra_volume_id declared then Inl (BrokerFailure VolumeMismatch)
      else if pb_root_identity pinned \<noteq> ra_root_identity declared
      then Inl (BrokerFailure RootIdentityMismatch)
      else let mismatch = (\<lambda>_. BrokerFailure RootIdentityMismatch);
               comparisons = semantics_components (pb_name_semantics pinned) in
        bind_result (map_err mismatch (validate_root_path (ra_canonical_root_utf16 declared))) (\<lambda>declared_path.
        bind_result (map_err mismatch (validate_root_path (pb_canonical_root_utf16 pinned))) (\<lambda>pinned_path.
        bind_result (map_err mismatch (scope_under_root compare declared_path pinned_path comparisons)) (\<lambda>scope.
        if scope \<noteq> Some ScopeRoot then Inl (BrokerFailure RootIdentityMismatch)
        else bind_result (map_err mismatch (scope_under_root compare pinned_path declared_path comparisons))
          (\<lambda>scope.
        if scope \<noteq> Some ScopeRoot then Inl (BrokerFailure RootIdentityMismatch) else Inr ())))))"

definition validate_authorized_root_facts ::
    "ordinal_compare \<Rightarrow> caller_authorization \<Rightarrow> root_authorization \<Rightarrow> authorized_pinned_root
      \<Rightarrow> (broker_failure, unit) result" where
  "validate_authorized_root_facts compare caller root authorized =
     (if ca_connection_id (ap_caller authorized) \<noteq> ca_connection_id caller
         \<or> ca_connection_generation (ap_caller authorized) \<noteq> ca_connection_generation caller
         \<or> ca_client_instance (ap_caller authorized) \<noteq> ca_client_instance caller
         \<or> ca_opaque_namespace (ap_caller authorized) \<noteq> ca_opaque_namespace caller
         \<or> ap_declared_root authorized \<noteq> root
      then Inl (BrokerFailure RootIdentityMismatch)
      else validate_pinned_root compare root (ap_pinned_root authorized))"

definition validate_requested_range ::
    "read_journal_range_request \<Rightarrow> existing_journal_metadata \<Rightarrow> (broker_failure, unit) result" where
  "validate_requested_range request metadata =
     (if jm_journal_id metadata \<noteq> rj_journal_id request
         \<or> sint (rj_start_usn request) < sint (jm_first_usn metadata)
         \<or> sint (rj_end_usn request) > sint (jm_next_usn metadata)
      then Inl (BrokerFailure JournalDiscontinuous) else Inr ())"

section \<open>Candidates\<close>

definition to_candidate_scope :: "root_relative_scope \<Rightarrow> candidate_scope" where
  "to_candidate_scope scope = (case scope of
     ScopeRoot \<Rightarrow> RootScope
   | ScopeRelative path \<Rightarrow> RelativePath path)"

definition isolated_candidate_kind :: "bool \<Rightarrow> candidate_kind" where
  "isolated_candidate_kind is_directory = (if is_directory then Subtree else Path)"

text \<open>
  The scope, previous scope and kind a candidate gets from where its current and previous paths
  lie; none when both lie outside the root.
\<close>

fun candidate_placement ::
    "candidate_kind \<Rightarrow> bool \<Rightarrow> root_relative_scope option \<Rightarrow> root_relative_scope option
      \<Rightarrow> (candidate_scope \<times> candidate_scope option \<times> candidate_kind) option" where
  "candidate_placement kind is_directory None None = None"
| "candidate_placement kind is_directory (Some current) (Some previous) =
     Some (to_candidate_scope current, Some (to_candidate_scope previous), kind)"
| "candidate_placement kind is_directory (Some current) None =
     Some (to_candidate_scope current, None, isolated_candidate_kind is_directory)"
| "candidate_placement kind is_directory None (Some previous) =
     Some (to_candidate_scope previous, None, isolated_candidate_kind is_directory)"

text \<open>The candidate of a placement; one that touches the root itself becomes a subtree change.\<close>

definition placed_candidate ::
    "backend_journal_candidate \<Rightarrow> candidate_scope \<times> candidate_scope option \<times> candidate_kind \<Rightarrow> broker_candidate" where
  "placed_candidate candidate = (\<lambda>(scope, previous_scope, kind).
     let (kind, previous_scope) =
       (if scope = RootScope \<or> previous_scope = Some RootScope then (Subtree, None)
        else (kind, previous_scope)) in
     \<lparr>bc_scope = scope, bc_previous_scope = previous_scope,
      bc_file_reference = jc_file_reference candidate, bc_usn = jc_usn candidate,
      bc_kind = kind, bc_is_directory = jc_is_directory candidate\<rparr>)"

definition previous_candidate_scope ::
    "ordinal_compare \<Rightarrow> normalized_windows_path \<Rightarrow> name_comparison_semantics list \<Rightarrow> u16 list option
      \<Rightarrow> (broker_failure, root_relative_scope option) result" where
  "previous_candidate_scope compare canonical_root comparisons previous_path = (case previous_path of
     None \<Rightarrow> Inr None
   | Some path \<Rightarrow> map_err (\<lambda>_. BrokerFailure RecordUnsupported)
       (bind_result (normalize_backend_path path) (\<lambda>path.
         scope_under_root compare path canonical_root comparisons)))"

definition constrain_candidate ::
    "ordinal_compare \<Rightarrow> authorized_pinned_root \<Rightarrow> normalized_windows_path \<Rightarrow> backend_journal_candidate
      \<Rightarrow> (broker_failure, broker_candidate option) result" where
  "constrain_candidate compare root canonical_root candidate =
     (let comparisons = semantics_components (pb_name_semantics (ap_pinned_root root)) in
      if jc_volume_id candidate \<noteq> pb_volume_id (ap_pinned_root root)
      then Inl (BrokerFailure VolumeMismatch)
      else bind_result (map_err (\<lambda>_. BrokerFailure RecordUnsupported)
          (normalize_backend_path (jc_absolute_path_utf16 candidate))) (\<lambda>current.
        bind_result (map_err (\<lambda>_. BrokerFailure RootIdentityMismatch)
          (scope_under_root compare current canonical_root comparisons)) (\<lambda>current_scope.
        bind_result (previous_candidate_scope compare canonical_root comparisons
          (jc_previous_absolute_path_utf16 candidate)) (\<lambda>previous_scope.
        case candidate_placement (jc_kind candidate) (jc_is_directory candidate)
            current_scope previous_scope of
          None \<Rightarrow> Inr None
        | Some placement \<Rightarrow>
            bind_result (map_err (\<lambda>_. BrokerFailure RecordUnsupported)
              (broker_candidate_validate (placed_candidate candidate placement))) (\<lambda>_.
            Inr (Some (placed_candidate candidate placement)))))))"

fun constrain_each ::
    "ordinal_compare \<Rightarrow> authorized_pinned_root \<Rightarrow> normalized_windows_path \<Rightarrow> backend_journal_candidate list
      \<Rightarrow> (broker_failure, broker_candidate list) result" where
  "constrain_each compare root canonical_root [] = Inr []"
| "constrain_each compare root canonical_root (candidate # rest) =
     bind_result (constrain_candidate compare root canonical_root candidate) (\<lambda>constrained.
     bind_result (constrain_each compare root canonical_root rest) (\<lambda>candidates.
     Inr (case constrained of None \<Rightarrow> candidates | Some c \<Rightarrow> c # candidates)))"

definition constrain_candidates ::
    "ordinal_compare \<Rightarrow> authorized_pinned_root \<Rightarrow> backend_journal_candidate list
      \<Rightarrow> (broker_failure, broker_candidate list) result" where
  "constrain_candidates compare root backend_candidates =
     bind_result (map_err map_backend_failure (normalized_root (ap_pinned_root root))) (\<lambda>canonical_root.
     constrain_each compare root canonical_root backend_candidates)"

definition shared_failure_outcome ::
    "caller_claim \<Rightarrow> shared_journal_root_request \<Rightarrow> broker_failure_code \<Rightarrow> shared_journal_root_outcome" where
  "shared_failure_outcome caller root code =
     \<lparr>so_binding = binding_from_request caller (sr_root root),
      so_requested_start_usn = sr_start_usn root, so_covered_until_usn = None,
      so_is_complete = False, so_candidates = [], so_failure = Some (BrokerFailure code)\<rparr>"

section \<open>Translations that may fail for one root\<close>

definition min_usn :: "i64 \<Rightarrow> i64 \<Rightarrow> i64" where
  "min_usn a b = (if sint a \<le> sint b then a else b)"

definition lower_translation_barrier :: "i64 option \<Rightarrow> i64 \<Rightarrow> i64 option" where
  "lower_translation_barrier barrier candidate =
     Some (case barrier of None \<Rightarrow> candidate | Some current \<Rightarrow> min_usn current candidate)"

text \<open>\<open>slice.get(i)\<close>.\<close>

definition nth_option :: "'a list \<Rightarrow> nat \<Rightarrow> 'a option" where
  "nth_option xs i = (if i < length xs then Some (xs ! i) else None)"

text \<open>The relative path of a translation that left exactly one candidate, not the root itself.\<close>

fun single_relative_path :: "broker_candidate list \<Rightarrow> str option" where
  "single_relative_path [c] = (case bc_scope c of RelativePath path \<Rightarrow> Some path | RootScope \<Rightarrow> None)"
| "single_relative_path _ = None"

text \<open>
  One path as a candidate of a root: copied within bounds, filtered by what the caller may see,
  placed under the root. The error says which of the three steps refused it.
\<close>

datatype endpoint_error = EndpointBackend broker_failure_code | EndpointDisclosure broker_failure_code

fun endpoint_failure :: "endpoint_error \<Rightarrow> broker_failure_code" where
  "endpoint_failure (EndpointBackend code) = code"
| "endpoint_failure (EndpointDisclosure code) = code"

definition translate_endpoint ::
    "'x broker_host \<Rightarrow> authorized_pinned_root \<Rightarrow> str \<Rightarrow> u16 list \<Rightarrow> bytes \<Rightarrow> i64 \<Rightarrow> bool \<Rightarrow> request_context
      \<Rightarrow> ('x broker_world, endpoint_error, str) stateful" where
  "translate_endpoint host root volume_id path file_reference usn is_directory ctx =
     bind_stateful (lift_stateful (map_err (\<lambda>e. EndpointBackend (failure_code_of (map_backend_failure e)))
       (copy_from_bounded volume_id path None file_reference usn
         (if is_directory then Subtree else Path) is_directory))) (\<lambda>candidate.
     bind_stateful (map_err_stateful
         (\<lambda>e. EndpointDisclosure (failure_code_of (map_authorizer_failure e)))
         (ht_filter_disclosable_candidates host root [candidate] ctx)) (\<lambda>candidates.
     bind_stateful (lift_stateful (map_err (\<lambda>f. EndpointDisclosure (failure_code_of f))
       (constrain_candidates (ht_compare host) root candidates))) (\<lambda>candidates.
     lift_stateful (ok_or (single_relative_path candidates) (EndpointDisclosure RecordUnsupported)))))"

record 'a root_translation =
  tr_translated :: "'a list"
  tr_pending :: "shared_journal_pending_rename list"
  tr_failures :: "(nat \<times> broker_failure_code) list"
  tr_barrier :: "i64 option"

definition root_translation_new :: "'a root_translation" where
  "root_translation_new = \<lparr>tr_translated = [], tr_pending = [], tr_failures = [], tr_barrier = None\<rparr>"

definition fail_translation ::
    "(nat \<times> broker_failure_code) list \<Rightarrow> i64 \<Rightarrow> 'a root_translation \<Rightarrow> 'a root_translation" where
  "fail_translation failures barrier tr =
     tr\<lparr>tr_failures := tr_failures tr @ failures,
        tr_barrier := lower_translation_barrier (tr_barrier tr) barrier\<rparr>"

subsection \<open>Pending renames\<close>

definition translate_pending_step ::
    "'x broker_host \<Rightarrow> caller_claim \<Rightarrow> read_journal_volume_request \<Rightarrow> (nat \<times> authorized_pinned_root) list
      \<Rightarrow> i64 \<Rightarrow> request_context \<Rightarrow> backend_pending_rename \<Rightarrow> shared_journal_pending_rename root_translation
      \<Rightarrow> ('x broker_world, broker_failure, shared_journal_pending_rename root_translation) stateful" where
  "translate_pending_step host caller request admitted covered_until_usn ctx pending tr =
     (case nth_option admitted (bn_root_index pending) of
        None \<Rightarrow> fail_stateful (BrokerFailure RecordUnsupported)
      | Some (request_index, root) \<Rightarrow>
          let minimum_start = the (minimum_start_usn request);
              requested = rv_roots request ! request_index;
              failure_barrier =
                (if sint (bn_old_usn pending) \<ge> sint minimum_start
                    \<and> sint (bn_old_usn pending) < sint covered_until_usn
                 then bn_old_usn pending else minimum_start) in
          if \<not> is_reference_length (length (bn_file_reference pending))
             \<or> sint (bn_old_usn pending) < sint (sr_start_usn requested)
             \<or> sint (bn_old_usn pending) \<ge> sint covered_until_usn
          then return_stateful
            (fail_translation [(bn_root_index pending, RecordUnsupported)] failure_barrier tr)
          else bind_stateful (catch_stateful (translate_endpoint host root (ra_volume_id (sr_root requested))
              (bn_previous_absolute_path_utf16 pending) (bn_file_reference pending)
              (bn_old_usn pending) (bn_is_directory pending) ctx)) (\<lambda>translated.
            return_stateful (case translated of
              Inl (EndpointBackend code) \<Rightarrow>
                fail_translation [(bn_root_index pending, code)] failure_barrier tr
            | Inl (EndpointDisclosure code) \<Rightarrow>
                fail_translation [(bn_root_index pending, code)] (bn_old_usn pending) tr
            | Inr previous_relative_path \<Rightarrow> tr\<lparr>tr_translated := tr_translated tr @
                [\<lparr>sp_binding = binding_from_request caller (sr_root requested),
                  sp_file_reference = bn_file_reference pending, sp_old_usn = bn_old_usn pending,
                  sp_previous_relative_path = previous_relative_path,
                  sp_is_directory = bn_is_directory pending\<rparr>]\<rparr>)))"

definition translate_shared_pending_renames ::
    "'x broker_host \<Rightarrow> caller_claim \<Rightarrow> read_journal_volume_request \<Rightarrow> (nat \<times> authorized_pinned_root) list
      \<Rightarrow> backend_pending_rename list \<Rightarrow> i64 \<Rightarrow> request_context
      \<Rightarrow> ('x broker_world, broker_failure, shared_journal_pending_rename root_translation) stateful" where
  "translate_shared_pending_renames host caller request admitted backend_pending covered_until_usn ctx =
     fold_stateful (translate_pending_step host caller request admitted covered_until_usn ctx)
       backend_pending root_translation_new"

subsection \<open>Cross-root moves\<close>

record handoff_source =
  hs_root :: authorized_pinned_root
  hs_binding :: response_binding
  hs_carry_id :: "str option"
  hs_root_index :: "nat option"

text \<open>Where a move started: under a root of this read, or in a rename carried from an earlier one.\<close>

fun handoff_source_of ::
    "caller_claim \<Rightarrow> read_journal_volume_request \<Rightarrow> (nat \<times> authorized_pinned_root) list
      \<Rightarrow> backend_pending_rename_carry list \<Rightarrow> backend_journal_handoff \<Rightarrow> nat option \<Rightarrow> nat option
      \<Rightarrow> (broker_failure, handoff_source) result" where
  "handoff_source_of caller request admitted pending_renames handoff (Some previous_root_index) None =
     (case nth_option admitted previous_root_index of
        None \<Rightarrow> Inl (BrokerFailure RecordUnsupported)
      | Some (previous_request_index, previous_root) \<Rightarrow>
          Inr \<lparr>hs_root = previous_root,
            hs_binding = binding_from_request caller (sr_root (rv_roots request ! previous_request_index)),
            hs_carry_id = None, hs_root_index = Some previous_root_index\<rparr>)"
| "handoff_source_of caller request admitted pending_renames handoff None (Some previous_pending_index) =
     bind_result (ok_or (nth_option pending_renames previous_pending_index)
       (BrokerFailure RecordUnsupported)) (\<lambda>pending.
     bind_result (ok_or (cr_root pending) (BrokerFailure RecordUnsupported)) (\<lambda>previous_root.
     bind_result (ok_or (nth_option (rv_pending_renames request) previous_pending_index)
       (BrokerFailure RecordUnsupported)) (\<lambda>requested.
     if pr_file_reference requested \<noteq> bh_file_reference handoff
        \<or> pr_is_directory requested \<noteq> bh_is_directory handoff
        \<or> pr_old_usn requested \<noteq> bh_old_usn handoff
     then Inl (BrokerFailure RecordUnsupported)
     else Inr \<lparr>hs_root = previous_root, hs_binding = binding_from_request caller (pr_root requested),
       hs_carry_id = Some (pr_carry_id requested), hs_root_index = cr_read_root_index pending\<rparr>)))"
| "handoff_source_of caller request admitted pending_renames handoff _ _ =
     Inl (BrokerFailure RecordUnsupported)"

text \<open>\<open>if let Some(index) = previous_root_index { failures.push((index, code)) }\<close>.\<close>

definition source_failures :: "handoff_source \<Rightarrow> broker_failure_code \<Rightarrow> (nat \<times> broker_failure_code) list" where
  "source_failures source code = (case hs_root_index source of None \<Rightarrow> [] | Some index \<Rightarrow> [(index, code)])"

definition preserve_verified_handoff_source ::
    "handoff_source \<Rightarrow> backend_journal_handoff \<Rightarrow> str \<Rightarrow> 'a root_translation \<Rightarrow> 'a root_translation" where
  "preserve_verified_handoff_source source handoff previous_relative_path tr =
     (let tr = (if hs_carry_id source = None
        then tr\<lparr>tr_pending := tr_pending tr @
          [\<lparr>sp_binding = hs_binding source, sp_file_reference = bh_file_reference handoff,
            sp_old_usn = bh_old_usn handoff, sp_previous_relative_path = previous_relative_path,
            sp_is_directory = bh_is_directory handoff\<rparr>]\<rparr>
        else tr) in
      tr\<lparr>tr_barrier := lower_translation_barrier (tr_barrier tr) (bh_usn handoff)\<rparr>)"

definition safe_old_barrier :: "read_journal_volume_request \<Rightarrow> i64 \<Rightarrow> backend_journal_handoff \<Rightarrow> i64" where
  "safe_old_barrier request covered_until_usn handoff =
     (let minimum_start = the (minimum_start_usn request) in
      if sint (bh_old_usn handoff) \<ge> sint minimum_start
         \<and> sint (bh_old_usn handoff) < sint (bh_usn handoff)
         \<and> sint (bh_old_usn handoff) < sint covered_until_usn
      then bh_old_usn handoff else minimum_start)"

text \<open>The checks of a move before its paths are translated.\<close>

definition handoff_out_of_range ::
    "read_journal_volume_request \<Rightarrow> (nat \<times> authorized_pinned_root) list \<Rightarrow> nat \<Rightarrow> i64
      \<Rightarrow> backend_journal_handoff \<Rightarrow> bool" where
  "handoff_out_of_range request admitted current_request_index covered_until_usn handoff =
     (let previous_request_start = (case bh_previous_root_index handoff of
          Some index \<Rightarrow> sr_start_usn (rv_roots request ! fst (admitted ! index))
        | None \<Rightarrow> bh_old_usn handoff) in
      \<not> is_reference_length (length (bh_file_reference handoff))
      \<or> sint (bh_old_usn handoff) < sint previous_request_start
      \<or> sint (bh_old_usn handoff) < 0
      \<or> sint (bh_old_usn handoff) \<ge> sint (bh_usn handoff)
      \<or> sint (bh_usn handoff) < sint (sr_start_usn (rv_roots request ! current_request_index))
      \<or> sint (bh_usn handoff) \<ge> sint covered_until_usn)"

text \<open>The source of a carried rename must be the path the client carried.\<close>

definition carried_path_differs :: "read_journal_volume_request \<Rightarrow> backend_journal_handoff \<Rightarrow> str \<Rightarrow> bool" where
  "carried_path_differs request handoff previous_relative_path =
     (case bh_previous_pending_index handoff of
        None \<Rightarrow> False
      | Some index \<Rightarrow>
          pr_previous_relative_path (rv_pending_renames request ! index) \<noteq> previous_relative_path)"

text \<open>The target of a move whose source has been translated.\<close>

definition translate_handoff_target ::
    "'x broker_host \<Rightarrow> caller_claim \<Rightarrow> root_authorization \<Rightarrow> authorized_pinned_root \<Rightarrow> request_context
      \<Rightarrow> handoff_source \<Rightarrow> backend_journal_handoff \<Rightarrow> str \<Rightarrow> shared_journal_handoff root_translation
      \<Rightarrow> ('x broker_world, broker_failure, shared_journal_handoff root_translation) stateful" where
  "translate_handoff_target host caller current_declared current_root ctx source handoff
       previous_relative_path tr =
     bind_stateful (catch_stateful (translate_endpoint host current_root (ra_volume_id current_declared)
       (bh_current_absolute_path_utf16 handoff) (bh_file_reference handoff) (bh_usn handoff)
       (bh_is_directory handoff) ctx)) (\<lambda>current.
     return_stateful (case current of
       Inl e \<Rightarrow> preserve_verified_handoff_source source handoff previous_relative_path
         (tr\<lparr>tr_failures := tr_failures tr @ [(bh_current_root_index handoff, endpoint_failure e)]\<rparr>)
     | Inr current_relative_path \<Rightarrow> tr\<lparr>tr_translated := tr_translated tr @
         [\<lparr>sh_previous_binding = hs_binding source,
           sh_current_binding = binding_from_request caller current_declared,
           sh_file_reference = bh_file_reference handoff, sh_usn = bh_usn handoff,
           sh_previous_relative_path = previous_relative_path,
           sh_current_relative_path = current_relative_path,
           sh_is_directory = bh_is_directory handoff,
           sh_previous_carry_id = hs_carry_id source\<rparr>]\<rparr>))"

definition translate_handoff_step ::
    "'x broker_host \<Rightarrow> caller_claim \<Rightarrow> read_journal_volume_request \<Rightarrow> (nat \<times> authorized_pinned_root) list
      \<Rightarrow> backend_pending_rename_carry list \<Rightarrow> i64 \<Rightarrow> request_context \<Rightarrow> backend_journal_handoff
      \<Rightarrow> shared_journal_handoff root_translation
      \<Rightarrow> ('x broker_world, broker_failure, shared_journal_handoff root_translation) stateful" where
  "translate_handoff_step host caller request admitted pending_renames covered_until_usn ctx handoff tr =
     (case nth_option admitted (bh_current_root_index handoff) of
        None \<Rightarrow> fail_stateful (BrokerFailure RecordUnsupported)
      | Some (current_request_index, current_root) \<Rightarrow>
          bind_stateful (lift_stateful (handoff_source_of caller request admitted pending_renames handoff
            (bh_previous_root_index handoff) (bh_previous_pending_index handoff))) (\<lambda>source.
          let old_barrier = safe_old_barrier request covered_until_usn handoff in
          if handoff_out_of_range request admitted current_request_index covered_until_usn handoff
          then return_stateful (fail_translation (source_failures source RecordUnsupported
            @ [(bh_current_root_index handoff, RecordUnsupported)]) old_barrier tr)
          else bind_stateful (catch_stateful (translate_endpoint host (hs_root source)
              (pb_volume_id (ap_pinned_root (hs_root source))) (bh_previous_absolute_path_utf16 handoff)
              (bh_file_reference handoff) (bh_old_usn handoff) (bh_is_directory handoff) ctx)) (\<lambda>previous.
            case previous of
              Inl e \<Rightarrow> return_stateful
                (fail_translation (source_failures source (endpoint_failure e)) old_barrier tr)
            | Inr previous_relative_path \<Rightarrow>
                if carried_path_differs request handoff previous_relative_path
                then return_stateful
                  (fail_translation (source_failures source RecordUnsupported) old_barrier tr)
                else translate_handoff_target host caller
                  (sr_root (rv_roots request ! current_request_index)) current_root ctx source handoff
                  previous_relative_path tr)))"

definition translate_shared_handoffs ::
    "'x broker_host \<Rightarrow> caller_claim \<Rightarrow> read_journal_volume_request \<Rightarrow> (nat \<times> authorized_pinned_root) list
      \<Rightarrow> backend_pending_rename_carry list \<Rightarrow> backend_journal_handoff list \<Rightarrow> i64 \<Rightarrow> request_context
      \<Rightarrow> ('x broker_world, broker_failure, shared_journal_handoff root_translation) stateful" where
  "translate_shared_handoffs host caller request admitted pending_renames backend_handoffs
       covered_until_usn ctx =
     fold_stateful (translate_handoff_step host caller request admitted pending_renames
       covered_until_usn ctx) backend_handoffs root_translation_new"

section \<open>Limits of a response\<close>

text \<open>One record with its evidence bytes added to the totals.\<close>

definition count_shared :: "nat option \<Rightarrow> nat \<times> nat \<Rightarrow> (broker_failure, nat \<times> nat) result" where
  "count_shared evidence_bytes = (\<lambda>(records, evidence).
     bind_result (ok_or (checked_add records 1) (BrokerFailure EvidenceLimitExceeded)) (\<lambda>records.
     bind_result (ok_or evidence_bytes (BrokerFailure EvidenceLimitExceeded)) (\<lambda>n.
     bind_result (ok_or (checked_add evidence n) (BrokerFailure EvidenceLimitExceeded)) (\<lambda>evidence.
     Inr (records, evidence)))))"

definition validate_shared_response_limits ::
    "shared_journal_root_outcome list \<Rightarrow> shared_journal_handoff list \<Rightarrow> shared_journal_pending_rename list
      \<Rightarrow> nat \<Rightarrow> nat \<Rightarrow> (broker_failure, unit) result" where
  "validate_shared_response_limits outcomes handoffs pending_renames maximum_records maximum_evidence_bytes =
     bind_result (fold_result (\<lambda>candidate. count_shared (candidate_evidence_bytes candidate))
       (concat (map so_candidates outcomes)) (0, 0)) (\<lambda>counts.
     bind_result (fold_result (\<lambda>handoff. count_shared (handoff_evidence_bytes handoff)) handoffs counts)
       (\<lambda>counts.
     bind_result (fold_result (\<lambda>pending. count_shared (pending_rename_evidence_bytes pending))
       pending_renames counts) (\<lambda>(records, evidence).
     if records > maximum_records \<or> evidence > maximum_evidence_bytes
     then Inl (BrokerFailure EvidenceLimitExceeded) else Inr ())))"

section \<open>Volume pages of the backend\<close>

definition is_ok :: "('e, 'a) result \<Rightarrow> bool" where
  "is_ok r = (case r of Inl _ \<Rightarrow> False | Inr _ \<Rightarrow> True)"

definition invalid_backend_handoff ::
    "journal_range \<Rightarrow> shared_backend_journal_page \<Rightarrow> nat \<Rightarrow> backend_journal_handoff \<Rightarrow> bool" where
  "invalid_backend_handoff bounds page expected_roots handoff \<longleftrightarrow>
     (bh_previous_root_index handoff \<noteq> None) = (bh_previous_pending_index handoff \<noteq> None)
     \<or> (case bh_previous_root_index handoff of None \<Rightarrow> False | Some index \<Rightarrow> index \<ge> expected_roots)
     \<or> bh_current_root_index handoff \<ge> expected_roots
     \<or> bh_previous_root_index handoff = Some (bh_current_root_index handoff)
     \<or> (case bh_previous_root_index handoff of None \<Rightarrow> False
          | Some index \<Rightarrow> \<not> is_ok (sj_candidates_by_root page ! index))
     \<or> \<not> is_ok (sj_candidates_by_root page ! bh_current_root_index handoff)
     \<or> \<not> is_reference_length (length (bh_file_reference handoff))
     \<or> sint (bh_usn handoff) < sint (jg_start_usn bounds)
     \<or> (case sj_proof page of None \<Rightarrow> True
          | Some proof \<Rightarrow> sint (bh_usn handoff) \<ge> sint (jp_covered_until_usn proof))"

text \<open>The scan of a root's candidates: in range, covered, and in strictly ascending order.\<close>

fun invalid_backend_candidates ::
    "journal_range \<Rightarrow> journal_read_proof option \<Rightarrow> i64 option \<Rightarrow> backend_journal_candidate list \<Rightarrow> bool" where
  "invalid_backend_candidates bounds proof previous [] = False"
| "invalid_backend_candidates bounds proof previous (candidate # rest) =
     (sint (jc_usn candidate) < sint (jg_start_usn bounds)
      \<or> (case proof of None \<Rightarrow> True
           | Some proof \<Rightarrow> sint (jc_usn candidate) \<ge> sint (jp_covered_until_usn proof))
      \<or> (case previous of None \<Rightarrow> False | Some usn \<Rightarrow> sint (jc_usn candidate) \<le> sint usn)
      \<or> invalid_backend_candidates bounds proof (Some (jc_usn candidate)) rest)"

definition invalid_backend_page ::
    "journal_range \<Rightarrow> shared_backend_journal_page \<Rightarrow> nat \<Rightarrow> bool" where
  "invalid_backend_page bounds page expected_roots \<longleftrightarrow>
     length (sj_candidates_by_root page) \<noteq> expected_roots
     \<or> length (sj_rename_barriers_by_root page) \<noteq> expected_roots
     \<or> list_ex (\<lambda>barrier. case barrier of None \<Rightarrow> False
          | Some usn \<Rightarrow> sint usn < sint (jg_start_usn bounds) \<or> sint usn \<ge> sint (jg_end_usn bounds))
        (sj_rename_barriers_by_root page)
     \<or> length (sj_handoffs page) > MAX_SHARED_HANDOFFS
     \<or> list_ex is_ok (sj_candidates_by_root page) \<noteq> (sj_proof page \<noteq> None)
     \<or> (sj_proof page = None \<and> sj_handoffs page \<noteq> [])
     \<or> list_ex (invalid_backend_handoff bounds page expected_roots) (sj_handoffs page)
     \<or> list_ex (\<lambda>pending. bn_root_index pending \<ge> expected_roots
          \<or> \<not> is_ok (sj_candidates_by_root page ! bn_root_index pending)) (sj_pending_renames page)
     \<or> list_ex (\<lambda>r. case r of Inl _ \<Rightarrow> False
          | Inr candidates \<Rightarrow> invalid_backend_candidates bounds (sj_proof page) None candidates)
        (sj_candidates_by_root page)"

definition validate_shared_backend_page ::
    "existing_journal_metadata \<Rightarrow> journal_range \<Rightarrow> shared_backend_journal_page \<Rightarrow> nat
      \<Rightarrow> (broker_failure, unit) result" where
  "validate_shared_backend_page before bounds page expected_roots =
     bind_result (ok_or (read_interval_new (jg_start_usn bounds) (jg_end_usn bounds))
       (BrokerFailure JournalDiscontinuous)) (\<lambda>interval.
     if invalid_backend_page bounds page expected_roots then Inl (BrokerFailure JournalDiscontinuous)
     else (case sj_proof page of
        None \<Rightarrow> Inr ()
      | Some proof \<Rightarrow>
          bind_result (map_err map_backend_failure (journal_metadata_validate (jp_after proof))) (\<lambda>after.
          if jm_journal_id after \<noteq> jm_journal_id before
             \<or> sint (jm_first_usn after) > sint (jg_start_usn bounds)
             \<or> sint (jm_next_usn after) < sint (jg_end_usn bounds)
             \<or> \<not> admits_coverage interval (jp_covered_until_usn proof) (jp_is_complete proof)
          then Inl (BrokerFailure JournalDiscontinuous) else Inr ())))"

end
