(* ===== verification/Broker_Service.thy ===== *)
theory Broker_Service
  imports Service_Translation
begin

text \<open>
  The request handlers of the broker service (\<open>BrokerService\<close> in \<open>journal_broker/service.rs\<close>):
  from a received frame to the frame that answers it. A handler runs in the world of
  \<open>Service_World\<close>; the closures whose result is inspected after \<open>active.finish\<close> are separate
  definitions.
\<close>

type_synonym ('x, 'a) handler = "('x broker_world, broker_failure, 'a) stateful"

section \<open>Requests in the registry\<close>

definition active_key :: "u64 \<Rightarrow> caller_authorization \<Rightarrow> active_request_key" where
  "active_key request_id caller =
     \<lparr>ak_connection_id = ca_connection_id caller,
      ak_connection_generation = ca_connection_generation caller,
      ak_authentication_namespace = ca_opaque_namespace caller,
      ak_client_instance = ca_client_instance caller, ak_request_id = request_id\<rparr>"

definition verify_caller ::
    "'x broker_host \<Rightarrow> authenticated_connection \<Rightarrow> caller_claim \<Rightarrow> ('x, caller_authorization) handler" where
  "verify_caller host authenticated claim =
     map_err_stateful map_authorizer_failure (ht_verify_claim host authenticated claim)"

definition begin_request ::
    "'x broker_host \<Rightarrow> u64 \<Rightarrow> caller_authorization \<Rightarrow> u32 \<Rightarrow> ('x, active_request_key \<times> nat) handler" where
  "begin_request host request_id caller timeout_ms =
     bind_stateful (deadline_from_timeout host timeout_ms) (\<lambda>deadline.
     let key = active_key request_id caller in
     bind_stateful (map_err_stateful map_active_failure
       (on_registry_now host (\<lambda>now. begin_query (ht_order host) key deadline now))) (\<lambda>_.
     return_stateful (key, deadline)))"

text \<open>
  A handler body run between \<open>begin_request\<close> and \<open>finish\<close>: its own result counts only when the
  registry says the request completed.
\<close>

definition finish_with ::
    "'x broker_host \<Rightarrow> active_request_key \<Rightarrow> ('x, 'a) handler \<Rightarrow> ('x, 'a) handler" where
  "finish_with host key body =
     bind_stateful (catch_stateful body) (\<lambda>r.
     bind_stateful (catch_stateful (on_registry host (finish_request key))) (\<lambda>terminal.
     lift_stateful (case terminal of
       Inr TerminalCompleted \<Rightarrow> r
     | Inr TerminalCancelled \<Rightarrow> Inl (BrokerFailure Cancelled)
     | Inr TerminalTimedOut \<Rightarrow> Inl (BrokerFailure TimedOut)
     | Inr TerminalAborted \<Rightarrow> Inl (BrokerFailure RequestNotActive)
     | Inl _ \<Rightarrow> Inl (BrokerFailure RequestNotActive))))"

definition authorize_root ::
    "'x broker_host \<Rightarrow> caller_authorization \<Rightarrow> root_authorization \<Rightarrow> root_capability \<Rightarrow> request_context
      \<Rightarrow> ('x, authorized_pinned_root) handler" where
  "authorize_root host caller root capability ctx =
     bind_stateful (map_err_stateful map_authorizer_failure
       (ht_authorize_registered_root host caller root capability ctx)) (\<lambda>authorized.
     bind_stateful (lift_stateful
       (validate_authorized_root_facts (ht_compare host) caller root authorized)) (\<lambda>_.
     return_stateful authorized))"

definition check_context :: "'x broker_host \<Rightarrow> request_context \<Rightarrow> ('x, unit) handler" where
  "check_context host ctx = map_err_stateful map_backend_failure (context_check host ctx)"

definition step_context :: "'x broker_host \<Rightarrow> request_context \<Rightarrow> ('x, nat) handler" where
  "step_context host ctx = map_err_stateful map_backend_failure (context_bounded_step host ctx)"

section \<open>Queries and registrations\<close>

definition journal_response_of ::
    "u64 \<Rightarrow> response_binding \<Rightarrow> existing_journal_state \<Rightarrow> (broker_failure, broker_response) result" where
  "journal_response_of request_id binding journal = (case journal of
     JournalSupported metadata \<Rightarrow>
       bind_result (map_err map_backend_failure (journal_metadata_validate metadata)) (\<lambda>metadata.
       Inr (JournalResponse request_id \<lparr>jr_binding = binding, jr_capability = Supported,
         jr_journal_id = Some (jm_journal_id metadata), jr_first_usn = Some (jm_first_usn metadata),
         jr_next_usn = Some (jm_next_usn metadata)\<rparr>))
   | JournalLiveOnly \<Rightarrow>
       Inr (JournalResponse request_id \<lparr>jr_binding = binding, jr_capability = LiveOnly,
         jr_journal_id = None, jr_first_usn = None, jr_next_usn = None\<rparr>))"

definition query_journal_body ::
    "'x broker_host \<Rightarrow> u64 \<Rightarrow> query_journal_request \<Rightarrow> caller_authorization \<Rightarrow> active_request_key \<Rightarrow> nat
      \<Rightarrow> ('x, broker_response) handler" where
  "query_journal_body host request_id request caller key deadline =
     bind_stateful (context_new key deadline) (\<lambda>ctx.
     bind_stateful (authorize_root host caller (qj_root request) (qj_root_capability request) ctx) (\<lambda>root.
     bind_stateful (step_context host ctx) (\<lambda>_.
     bind_stateful (map_err_stateful map_backend_failure (ht_query_existing_journal host root ctx)) (\<lambda>journal.
     bind_stateful (check_context host ctx) (\<lambda>_.
     lift_stateful (journal_response_of request_id
       (binding_from_request (qj_caller request) (qj_root request)) journal))))))"

definition query_journal ::
    "'x broker_host \<Rightarrow> u64 \<Rightarrow> query_journal_request \<Rightarrow> authenticated_connection
      \<Rightarrow> ('x, broker_response) handler" where
  "query_journal host request_id request authenticated =
     bind_stateful (verify_caller host authenticated (qj_caller request)) (\<lambda>caller.
     bind_stateful (begin_request host request_id caller (qj_timeout_ms request)) (\<lambda>(key, deadline).
     finish_with host key (query_journal_body host request_id request caller key deadline)))"

definition register_root_body ::
    "'x broker_host \<Rightarrow> u64 \<Rightarrow> register_root_request \<Rightarrow> caller_authorization \<Rightarrow> active_request_key \<Rightarrow> nat
      \<Rightarrow> ('x, broker_response) handler" where
  "register_root_body host request_id request caller key deadline =
     bind_stateful (context_new key deadline) (\<lambda>ctx.
     bind_stateful (map_err_stateful map_authorizer_failure
       (ht_register_root host caller (rg_root request) (rg_client_root_handle request) ctx))
       (\<lambda>root_capability.
     bind_stateful (lift_stateful (map_err (\<lambda>_. BrokerFailure RootUnauthorized)
       (root_capability_validate root_capability))) (\<lambda>_.
     bind_stateful (check_context host ctx) (\<lambda>_.
     return_stateful (RootRegistered request_id
       (binding_from_request (rg_caller request) (rg_root request)) root_capability)))))"

definition register_root ::
    "'x broker_host \<Rightarrow> u64 \<Rightarrow> register_root_request \<Rightarrow> authenticated_connection
      \<Rightarrow> ('x, broker_response) handler" where
  "register_root host request_id request authenticated =
     bind_stateful (verify_caller host authenticated (rg_caller request)) (\<lambda>caller.
     bind_stateful (begin_request host request_id caller (rg_timeout_ms request)) (\<lambda>(key, deadline).
     finish_with host key (register_root_body host request_id request caller key deadline)))"

section \<open>Accepting reads\<close>

definition accept_read_range ::
    "'x broker_host \<Rightarrow> u64 \<Rightarrow> read_journal_range_request \<Rightarrow> authenticated_connection
      \<Rightarrow> ('x, broker_response) handler" where
  "accept_read_range host request_id request authenticated =
     bind_stateful (verify_caller host authenticated (rj_caller request)) (\<lambda>caller.
     let key = active_key request_id caller in
     bind_stateful (deadline_from_timeout host (rj_timeout_ms request)) (\<lambda>deadline.
     bind_stateful (map_err_stateful map_active_failure
       (on_registry_now host (\<lambda>now. accept_read (ht_order host) key deadline request now))) (\<lambda>_.
     return_stateful (ReadRangeAccepted request_id
       \<lparr>xa_binding = binding_from_request (rj_caller request) (rj_root request),
        xa_journal_id = rj_journal_id request, xa_requested_start_usn = rj_start_usn request,
        xa_requested_end_usn = rj_end_usn request, xa_max_records = rj_max_records request,
        xa_max_evidence_bytes = rj_max_evidence_bytes request\<rparr>))))"

definition accept_read_volume ::
    "'x broker_host \<Rightarrow> u64 \<Rightarrow> read_journal_volume_request \<Rightarrow> authenticated_connection
      \<Rightarrow> ('x, broker_response) handler" where
  "accept_read_volume host request_id request authenticated =
     bind_stateful (verify_caller host authenticated (rv_caller request)) (\<lambda>caller.
     let key = active_key request_id caller in
     bind_stateful (deadline_from_timeout host (rv_timeout_ms request)) (\<lambda>deadline.
     bind_stateful (map_err_stateful map_active_failure
       (on_registry_now host (\<lambda>now. accept_volume_read (ht_order host) key deadline request now))) (\<lambda>_.
     return_stateful (ReadVolumeAccepted request_id
       \<lparr>va_client_instance = cc_client_instance (rv_caller request),
        va_volume_id = ra_volume_id (sr_root (hd (rv_roots request))),
        va_journal_id = rv_journal_id request,
        va_requested_start_usn = the (minimum_start_usn request),
        va_requested_end_usn = rv_end_usn request,
        va_root_count = of_nat (length (rv_roots request)),
        va_max_records = rv_max_records request,
        va_max_evidence_bytes = rv_max_evidence_bytes request\<rparr>))))"

section \<open>Executing a range read\<close>

definition execute_read_range ::
    "'x broker_host \<Rightarrow> u64 \<Rightarrow> active_request_key \<Rightarrow> read_journal_range_request \<Rightarrow> nat
      \<Rightarrow> authenticated_connection \<Rightarrow> ('x, broker_response) handler" where
  "execute_read_range host request_id key request deadline authenticated =
     bind_stateful (verify_caller host authenticated (rj_caller request)) (\<lambda>caller.
     if key \<noteq> active_key request_id caller then fail_stateful (BrokerFailure CallerRejected)
     else bind_stateful (context_new key deadline) (\<lambda>ctx.
     bind_stateful (authorize_root host caller (rj_root request) (rj_root_capability request) ctx) (\<lambda>root.
     bind_stateful (step_context host ctx) (\<lambda>_.
     bind_stateful (map_err_stateful map_backend_failure (ht_query_existing_journal host root ctx)) (\<lambda>journal.
     bind_stateful (lift_stateful (case journal of
         JournalSupported metadata \<Rightarrow> map_err map_backend_failure (journal_metadata_validate metadata)
       | JournalLiveOnly \<Rightarrow> Inl (BrokerFailure JournalUnavailable))) (\<lambda>before.
     bind_stateful (lift_stateful (validate_requested_range request before)) (\<lambda>_.
     let bounds = \<lparr>jg_start_usn = rj_start_usn request, jg_end_usn = rj_end_usn request\<rparr>;
         builder = page_builder_new bounds \<lparr>jl_max_records = unat (rj_max_records request),
           jl_max_evidence_bytes = unat (rj_max_evidence_bytes request)\<rparr> in
     bind_stateful (step_context host ctx) (\<lambda>_.
     bind_stateful (map_err_stateful map_backend_failure
       (ht_read_existing_journal_page host root before bounds builder ctx)) (\<lambda>(offered, proof).
     bind_stateful (check_context host ctx) (\<lambda>_.
     bind_stateful (lift_stateful (map_err map_backend_failure
       (page_builder_finish before proof (fold page_builder_offer offered builder)))) (\<lambda>page.
     bind_stateful (map_err_stateful map_authorizer_failure
       (ht_filter_disclosable_candidates host root (bp_candidates page) ctx)) (\<lambda>disclosable.
     bind_stateful (check_context host ctx) (\<lambda>_.
     bind_stateful (lift_stateful (constrain_candidates (ht_compare host) root disclosable)) (\<lambda>candidates.
     return_stateful (ReadRangeResponse request_id
       \<lparr>xr_binding = binding_from_request (rj_caller request) (rj_root request),
        xr_journal_id = jm_journal_id before, xr_requested_start_usn = rj_start_usn request,
        xr_requested_end_usn = rj_end_usn request, xr_max_records = rj_max_records request,
        xr_max_evidence_bytes = rj_max_evidence_bytes request,
        xr_covered_until_usn = jp_covered_until_usn (bp_proof page),
        xr_is_complete = jp_is_complete (bp_proof page), xr_candidates = candidates\<rparr>)))))))))))))))"

section \<open>Executing a volume read\<close>

subsection \<open>Admission of the roots\<close>

record volume_admission =
  ad_outcomes :: "shared_journal_root_outcome option list"
  ad_admitted :: "(nat \<times> authorized_pinned_root) list"
  ad_before :: "existing_journal_metadata option"

definition volume_admission_new :: "read_journal_volume_request \<Rightarrow> volume_admission" where
  "volume_admission_new request =
     \<lparr>ad_outcomes = map (\<lambda>root. Some (shared_failure_outcome (rv_caller request) root Internal))
        (rv_roots request), ad_admitted = [], ad_before = None\<rparr>"

definition refuse_root ::
    "read_journal_volume_request \<Rightarrow> nat \<Rightarrow> broker_failure_code \<Rightarrow> volume_admission \<Rightarrow> volume_admission" where
  "refuse_root request index code ad = ad\<lparr>ad_outcomes := (ad_outcomes ad)
     [index := Some (shared_failure_outcome (rv_caller request) (rv_roots request ! index) code)]\<rparr>"

definition admit_metadata ::
    "read_journal_volume_request \<Rightarrow> nat \<Rightarrow> authorized_pinned_root \<Rightarrow> (backend_error, existing_journal_state) result
      \<Rightarrow> volume_admission \<Rightarrow> volume_admission" where
  "admit_metadata request index root journal ad = (case journal of
     Inl error \<Rightarrow> refuse_root request index (failure_code_of (map_backend_failure error)) ad
   | Inr JournalLiveOnly \<Rightarrow> refuse_root request index JournalUnavailable ad
   | Inr (JournalSupported metadata) \<Rightarrow> (case journal_metadata_validate metadata of
       Inl error \<Rightarrow> refuse_root request index (failure_code_of (map_backend_failure error)) ad
     | Inr metadata \<Rightarrow>
         if jm_journal_id metadata \<noteq> rv_journal_id request
            \<or> sint (sr_start_usn (rv_roots request ! index)) < sint (jm_first_usn metadata)
            \<or> sint (rv_end_usn request) > sint (jm_next_usn metadata)
         then refuse_root request index JournalDiscontinuous ad
         else ad\<lparr>ad_before := (case ad_before ad of None \<Rightarrow> Some metadata | Some m \<Rightarrow> Some m),
           ad_outcomes := (ad_outcomes ad)[index := None],
           ad_admitted := ad_admitted ad @ [(index, root)]\<rparr>))"

definition admit_root_step ::
    "'x broker_host \<Rightarrow> caller_authorization \<Rightarrow> read_journal_volume_request \<Rightarrow> request_context \<Rightarrow> nat
      \<Rightarrow> volume_admission \<Rightarrow> ('x, volume_admission) handler" where
  "admit_root_step host caller request ctx index ad =
     (let requested = rv_roots request ! index in
      bind_stateful (check_context host ctx) (\<lambda>_.
      bind_stateful (catch_stateful (ht_authorize_registered_root host caller (sr_root requested)
        (sr_root_capability requested) ctx)) (\<lambda>authorized.
      case authorized of
        Inl error \<Rightarrow> return_stateful
          (refuse_root request index (failure_code_of (map_authorizer_failure error)) ad)
      | Inr root \<Rightarrow>
          (case validate_authorized_root_facts (ht_compare host) caller (sr_root requested) root of
             Inl failure \<Rightarrow> return_stateful (refuse_root request index (failure_code_of failure) ad)
           | Inr _ \<Rightarrow>
               bind_stateful (step_context host ctx) (\<lambda>_.
               bind_stateful (catch_stateful (ht_query_existing_journal host root ctx)) (\<lambda>journal.
               return_stateful (admit_metadata request index root journal ad)))))))"

subsection \<open>Carried renames\<close>

definition position :: "('a \<Rightarrow> bool) \<Rightarrow> 'a list \<Rightarrow> nat option" where
  "position P xs = (if list_ex P xs then Some (length (takeWhile (\<lambda>x. \<not> P x) xs)) else None)"

record carried_renames =
  cd_carries :: "backend_pending_rename_carry list"
  cd_failures :: "(nat \<times> broker_failure_code) list"

definition carry_failure :: "nat option \<Rightarrow> broker_failure_code \<Rightarrow> carried_renames \<Rightarrow> carried_renames" where
  "carry_failure declared_admitted_index code cd = (case declared_admitted_index of
     None \<Rightarrow> cd
   | Some index \<Rightarrow> cd\<lparr>cd_failures := cd_failures cd @ [(index, code)]\<rparr>)"

text \<open>The root a carried rename is authorised for, if any, with the failure of an admitted root.\<close>

definition carry_root ::
    "'x broker_host \<Rightarrow> caller_authorization \<Rightarrow> request_context \<Rightarrow> pending_rename_request \<Rightarrow> nat option
      \<Rightarrow> carried_renames \<Rightarrow> ('x, authorized_pinned_root option \<times> carried_renames) handler" where
  "carry_root host caller ctx pending declared_admitted_index cd = (case pr_root_capability pending of
     None \<Rightarrow> return_stateful (None, cd)
   | Some capability \<Rightarrow>
       bind_stateful (catch_stateful
         (ht_authorize_registered_root host caller (pr_root pending) capability ctx)) (\<lambda>authorized.
       return_stateful (case authorized of
         Inl error \<Rightarrow> (None, carry_failure declared_admitted_index
           (failure_code_of (map_authorizer_failure error)) cd)
       | Inr root \<Rightarrow>
           (case validate_authorized_root_facts (ht_compare host) caller (pr_root pending) root of
              Inr _ \<Rightarrow> (Some root, cd)
            | Inl failure \<Rightarrow>
                (None, carry_failure declared_admitted_index (failure_code_of failure) cd)))))"

definition carry_step ::
    "'x broker_host \<Rightarrow> caller_authorization \<Rightarrow> read_journal_volume_request
      \<Rightarrow> (nat \<times> authorized_pinned_root) list \<Rightarrow> request_context \<Rightarrow> pending_rename_request \<Rightarrow> carried_renames
      \<Rightarrow> ('x, carried_renames) handler" where
  "carry_step host caller request admitted ctx pending cd =
     (let declared_admitted_index =
        position (\<lambda>(request_index, _). sr_root (rv_roots request ! request_index) = pr_root pending) admitted in
      bind_stateful (carry_root host caller ctx pending declared_admitted_index cd) (\<lambda>(root, cd).
      return_stateful (cd\<lparr>cd_carries := cd_carries cd @
        [\<lparr>cr_root = root, cr_read_root_index = declared_admitted_index,
          cr_file_reference = pr_file_reference pending, cr_old_usn = pr_old_usn pending,
          cr_previous_relative_path = pr_previous_relative_path pending,
          cr_is_directory = pr_is_directory pending\<rparr>]\<rparr>)))"

subsection \<open>Outcomes of the admitted roots\<close>

record volume_progress =
  vp_outcomes :: "shared_journal_root_outcome option list"
  vp_failed :: "nat list"

text \<open>\<open>failed_admitted.insert\<close> and the failure outcome of the root it stands for.\<close>

definition fail_admitted ::
    "read_journal_volume_request \<Rightarrow> (nat \<times> authorized_pinned_root) list \<Rightarrow> nat \<times> broker_failure_code
      \<Rightarrow> volume_progress \<Rightarrow> volume_progress" where
  "fail_admitted request admitted = (\<lambda>(admitted_index, code) vp.
     let request_index = fst (admitted ! admitted_index) in
     vp\<lparr>vp_failed := List.insert admitted_index (vp_failed vp),
        vp_outcomes := (vp_outcomes vp)[request_index := Some (shared_failure_outcome
          (rv_caller request) (rv_roots request ! request_index) code)]\<rparr>)"

definition read_outcome_of ::
    "read_journal_volume_request \<Rightarrow> shared_journal_root_request \<Rightarrow> journal_read_proof \<Rightarrow> broker_candidate list
      \<Rightarrow> shared_journal_root_outcome" where
  "read_outcome_of request requested proof candidates =
     \<lparr>so_binding = binding_from_request (rv_caller request) (sr_root requested),
      so_requested_start_usn = sr_start_usn requested,
      so_covered_until_usn = Some (jp_covered_until_usn proof),
      so_is_complete = jp_is_complete proof, so_candidates = candidates, so_failure = None\<rparr>"

definition root_not_covered ::
    "read_journal_volume_request \<Rightarrow> shared_journal_root_request \<Rightarrow> journal_read_proof \<Rightarrow> bool" where
  "root_not_covered request requested proof =
     (case read_interval_new (sr_start_usn requested) (rv_end_usn request) of
        None \<Rightarrow> True
      | Some interval \<Rightarrow> \<not> admits_coverage interval (jp_covered_until_usn proof) (jp_is_complete proof))"

definition root_outcome_step ::
    "'x broker_host \<Rightarrow> read_journal_volume_request \<Rightarrow> (nat \<times> authorized_pinned_root) list
      \<Rightarrow> journal_read_proof option \<Rightarrow> request_context
      \<Rightarrow> nat \<times> (backend_error, backend_journal_candidate list) result \<Rightarrow> volume_progress
      \<Rightarrow> ('x, volume_progress) handler" where
  "root_outcome_step host request admitted shared_proof ctx = (\<lambda>(admitted_index, candidates) vp.
     let (index, root) = admitted ! admitted_index; requested = rv_roots request ! index;
         failed = (\<lambda>code. return_stateful (fail_admitted request admitted (admitted_index, code) vp)) in
     if admitted_index \<in> set (vp_failed vp) then return_stateful vp
     else (case candidates of
       Inl error \<Rightarrow> failed (failure_code_of (map_backend_failure error))
     | Inr candidates \<Rightarrow> (case shared_proof of
         None \<Rightarrow> fail_stateful (BrokerFailure Internal)
       | Some proof \<Rightarrow>
           if root_not_covered request requested proof then failed EvidenceLimitExceeded
           else bind_stateful (catch_stateful (ht_filter_disclosable_candidates host root
               (filter (\<lambda>candidate. sint (jc_usn candidate) \<ge> sint (sr_start_usn requested)) candidates)
               ctx)) (\<lambda>disclosable.
             case disclosable of
               Inl error \<Rightarrow> failed (failure_code_of (map_authorizer_failure error))
             | Inr disclosable \<Rightarrow>
                 (case constrain_candidates (ht_compare host) root disclosable of
                    Inl failure \<Rightarrow> failed (failure_code_of failure)
                  | Inr candidates \<Rightarrow> return_stateful (vp\<lparr>vp_outcomes := (vp_outcomes vp)
                      [index := Some (read_outcome_of request requested proof candidates)]\<rparr>))))))"

subsection \<open>Barriers\<close>

fun min_barrier :: "i64 option \<Rightarrow> i64 option \<Rightarrow> i64 option" where
  "min_barrier (Some left) (Some right) = Some (min_usn left right)"
| "min_barrier (Some left) None = Some left"
| "min_barrier None right = right"

text \<open>The lowest rename barrier of the roots that failed.\<close>

definition failed_root_barrier :: "i64 option list \<Rightarrow> nat list \<Rightarrow> i64 option" where
  "failed_root_barrier barriers failed =
     minimum_usn (List.map_filter (\<lambda>index. barriers ! index) failed)"

definition cut_outcome ::
    "read_journal_volume_request \<Rightarrow> shared_journal_root_request \<Rightarrow> i64 \<Rightarrow> shared_journal_root_outcome
      \<Rightarrow> shared_journal_root_outcome" where
  "cut_outcome request requested barrier outcome =
     (if sint barrier \<le> sint (sr_start_usn requested)
      then shared_failure_outcome (rv_caller request) requested EvidenceLimitExceeded
      else outcome\<lparr>so_covered_until_usn := Some (case so_covered_until_usn outcome of
          None \<Rightarrow> barrier | Some covered \<Rightarrow> min_usn covered barrier),
        so_is_complete := False,
        so_candidates := filter (\<lambda>candidate. sint (bc_usn candidate) < sint barrier)
          (so_candidates outcome)\<rparr>)"

fun cut_outcomes ::
    "read_journal_volume_request \<Rightarrow> i64 \<Rightarrow> nat list \<Rightarrow> (nat \<times> nat \<times> authorized_pinned_root) list
      \<Rightarrow> shared_journal_root_outcome option list
      \<Rightarrow> (broker_failure, shared_journal_root_outcome option list) result" where
  "cut_outcomes request barrier failed [] outcomes = Inr outcomes"
| "cut_outcomes request barrier failed ((admitted_index, request_index, _) # rest) outcomes =
     (if admitted_index \<in> set failed then cut_outcomes request barrier failed rest outcomes
      else (case outcomes ! request_index of
        None \<Rightarrow> Inl (BrokerFailure Internal)
      | Some outcome \<Rightarrow> cut_outcomes request barrier failed rest (outcomes[request_index :=
          Some (cut_outcome request (rv_roots request ! request_index) barrier outcome)])))"

text \<open>What a volume read has gathered for its response.\<close>

record volume_result =
  vs_outcomes :: "shared_journal_root_outcome option list"
  vs_handoffs :: "shared_journal_handoff list"
  vs_pending_renames :: "shared_journal_pending_rename list"

definition apply_barrier ::
    "read_journal_volume_request \<Rightarrow> (nat \<times> authorized_pinned_root) list \<Rightarrow> nat list \<Rightarrow> i64 option
      \<Rightarrow> volume_result \<Rightarrow> (broker_failure, volume_result) result" where
  "apply_barrier request admitted failed barrier vs = (case barrier of
     None \<Rightarrow> Inr vs
   | Some barrier \<Rightarrow>
       bind_result (cut_outcomes request barrier failed (enumerate 0 admitted) (vs_outcomes vs)) (\<lambda>outcomes.
       Inr \<lparr>vs_outcomes = outcomes,
         vs_handoffs = filter (\<lambda>handoff. sint (sh_usn handoff) < sint barrier) (vs_handoffs vs),
         vs_pending_renames = filter (\<lambda>pending. sint (sp_old_usn pending) < sint barrier)
           (vs_pending_renames vs)\<rparr>))"

subsection \<open>The read\<close>

text \<open>The moves and pending renames of a page, and the roots they fail.\<close>

definition translate_page ::
    "'x broker_host \<Rightarrow> read_journal_volume_request \<Rightarrow> (nat \<times> authorized_pinned_root) list
      \<Rightarrow> backend_pending_rename_carry list \<Rightarrow> shared_backend_journal_page \<Rightarrow> request_context \<Rightarrow> volume_progress
      \<Rightarrow> ('x, volume_progress \<times> shared_journal_handoff list \<times> shared_journal_pending_rename list
           \<times> i64 option) handler" where
  "translate_page host request admitted carries shared ctx vp = (case sj_proof shared of
     None \<Rightarrow> return_stateful (vp, [], [], None)
   | Some proof \<Rightarrow>
       bind_stateful (translate_shared_handoffs host (rv_caller request) request admitted carries
         (sj_handoffs shared) (jp_covered_until_usn proof) ctx) (\<lambda>moved.
       let vp = fold (fail_admitted request admitted) (tr_failures moved) vp in
       bind_stateful (translate_shared_pending_renames host (rv_caller request) request admitted
         (sj_pending_renames shared) (jp_covered_until_usn proof) ctx) (\<lambda>waiting.
       return_stateful (fold (fail_admitted request admitted) (tr_failures waiting) vp,
         tr_translated moved, tr_pending moved @ tr_translated waiting,
         min_barrier (tr_barrier moved) (tr_barrier waiting)))))"

definition admitted_start_usns ::
    "read_journal_volume_request \<Rightarrow> (nat \<times> authorized_pinned_root) list \<Rightarrow> i64 list" where
  "admitted_start_usns request admitted =
     map (\<lambda>(index, _). sr_start_usn (rv_roots request ! index)) admitted"

text \<open>What the service makes of a page that passed validation.\<close>

definition conclude_page ::
    "'x broker_host \<Rightarrow> read_journal_volume_request \<Rightarrow> (nat \<times> authorized_pinned_root) list \<Rightarrow> carried_renames
      \<Rightarrow> shared_backend_journal_page \<Rightarrow> request_context \<Rightarrow> shared_journal_root_outcome option list
      \<Rightarrow> ('x, volume_result) handler" where
  "conclude_page host request admitted carried shared ctx outcomes =
     bind_stateful (fold_stateful (root_outcome_step host request admitted (sj_proof shared) ctx)
       (enumerate 0 (take (length admitted) (sj_candidates_by_root shared)))
       (fold (fail_admitted request admitted) (cd_failures carried)
          \<lparr>vp_outcomes = outcomes, vp_failed = []\<rparr>)) (\<lambda>vp.
     bind_stateful (translate_page host request admitted (cd_carries carried) shared ctx vp)
       (\<lambda>(vp, handoffs, pending_renames, translation_barrier).
     let barrier = min_barrier
       (failed_root_barrier (sj_rename_barriers_by_root shared) (vp_failed vp)) translation_barrier in
     lift_stateful (apply_barrier request admitted (vp_failed vp) barrier
       \<lparr>vs_outcomes = vp_outcomes vp, vs_handoffs = handoffs, vs_pending_renames = pending_renames\<rparr>)))"

definition read_admitted_roots ::
    "'x broker_host \<Rightarrow> caller_authorization \<Rightarrow> read_journal_volume_request \<Rightarrow> request_context
      \<Rightarrow> volume_admission \<Rightarrow> ('x, volume_result) handler" where
  "read_admitted_roots host caller request ctx ad =
     (let admitted = ad_admitted ad in
      bind_stateful (lift_stateful (ok_or (ad_before ad) (BrokerFailure Internal))) (\<lambda>metadata.
      bind_stateful (lift_stateful (ok_or (minimum_usn (admitted_start_usns request admitted))
        (BrokerFailure Internal))) (\<lambda>start_usn.
      let bounds = \<lparr>jg_start_usn = start_usn, jg_end_usn = rv_end_usn request\<rparr> in
      bind_stateful (fold_stateful (carry_step host caller request admitted ctx)
        (rv_pending_renames request) \<lparr>cd_carries = [], cd_failures = []\<rparr>) (\<lambda>carried.
      bind_stateful (step_context host ctx) (\<lambda>_.
      bind_stateful (map_err_stateful map_backend_failure (ht_read_existing_journal_volume_page host
        \<lparr>ev_roots = map snd admitted, ev_root_start_usns = admitted_start_usns request admitted,
         ev_pending_renames = cd_carries carried, ev_journal = metadata, ev_range = bounds,
         ev_limits = \<lparr>jl_max_records = unat (rv_max_records request),
           jl_max_evidence_bytes = unat (rv_max_evidence_bytes request)\<rparr>\<rparr> ctx)) (\<lambda>shared.
      bind_stateful (lift_stateful
        (validate_shared_backend_page metadata bounds shared (length admitted))) (\<lambda>_.
      conclude_page host request admitted carried shared ctx (ad_outcomes ad))))))))"

text \<open>\<open>collect::<Option<Vec<_>>>\<close>.\<close>

fun collect_options :: "'a option list \<Rightarrow> 'a list option" where
  "collect_options [] = Some []"
| "collect_options (None # rest) = None"
| "collect_options (Some x # rest) = map_option ((#) x) (collect_options rest)"

definition execute_read_volume ::
    "'x broker_host \<Rightarrow> u64 \<Rightarrow> active_request_key \<Rightarrow> read_journal_volume_request \<Rightarrow> nat
      \<Rightarrow> authenticated_connection \<Rightarrow> ('x, broker_response) handler" where
  "execute_read_volume host request_id key request deadline authenticated =
     bind_stateful (verify_caller host authenticated (rv_caller request)) (\<lambda>caller.
     if key \<noteq> active_key request_id caller then fail_stateful (BrokerFailure CallerRejected)
     else bind_stateful (context_new key deadline) (\<lambda>ctx.
     bind_stateful (fold_stateful (admit_root_step host caller request ctx)
       [0..<length (rv_roots request)] (volume_admission_new request)) (\<lambda>ad.
     bind_stateful (if ad_admitted ad = []
       then return_stateful \<lparr>vs_outcomes = ad_outcomes ad, vs_handoffs = [], vs_pending_renames = []\<rparr>
       else read_admitted_roots host caller request ctx ad) (\<lambda>vs.
     bind_stateful (lift_stateful (ok_or (collect_options (vs_outcomes vs)) (BrokerFailure Internal)))
       (\<lambda>outcomes.
     bind_stateful (lift_stateful (validate_shared_response_limits outcomes (vs_handoffs vs)
       (vs_pending_renames vs) (unat (rv_max_records request)) (unat (rv_max_evidence_bytes request)))) (\<lambda>_.
     bind_stateful (check_context host ctx) (\<lambda>_.
     return_stateful (ReadVolumeResponse request_id
       \<lparr>vr_client_instance = cc_client_instance (rv_caller request),
        vr_volume_id = ra_volume_id (sr_root (hd (rv_roots request))),
        vr_journal_id = rv_journal_id request, vr_requested_end_usn = rv_end_usn request,
        vr_max_records = rv_max_records request,
        vr_max_evidence_bytes = rv_max_evidence_bytes request,
        vr_outcomes = outcomes, vr_handoffs = vs_handoffs vs,
        vr_pending_renames = vs_pending_renames vs\<rparr>))))))))"

section \<open>Cancellation\<close>

text \<open>The control guard is dropped when the handler returns, whatever it returns.\<close>

definition cancel ::
    "'x broker_host \<Rightarrow> u64 \<Rightarrow> caller_claim \<Rightarrow> u64 \<Rightarrow> authenticated_connection
      \<Rightarrow> ('x, broker_response) handler" where
  "cancel host request_id claim target_request_id authenticated =
     bind_stateful (verify_caller host authenticated claim) (\<lambda>caller.
     bind_stateful (map_err_stateful map_active_failure
       (on_registry host (\<lambda>_. begin_control (active_key request_id caller)))) (\<lambda>control.
     bind_stateful (catch_stateful (map_err_stateful map_active_failure
       (on_registry host (\<lambda>_. cancel_request (active_key target_request_id caller))))) (\<lambda>cancelled.
     bind_stateful (on_registry host (\<lambda>_ registry.
       (fst (drop_control_guard control registry), Inr ()))) (\<lambda>_.
     lift_stateful (bind_result cancelled (\<lambda>_.
       Inr (CancelledResponse request_id (ca_client_instance caller) target_request_id)))))))"

section \<open>Frames\<close>

definition or_failure ::
    "u64 \<Rightarrow> bytes \<Rightarrow> ('x, broker_response) handler \<Rightarrow> 'x broker_world \<Rightarrow> 'x broker_world \<times> broker_response" where
  "or_failure request_id client_instance handler world = (case handler world of
     (world, Inl failure) \<Rightarrow>
       (world, failure_response request_id (Some client_instance) (failure_code_of failure))
   | (world, Inr response) \<Rightarrow> (world, response))"

fun handle_request ::
    "'x broker_host \<Rightarrow> broker_request \<Rightarrow> authenticated_connection \<Rightarrow> 'x broker_world
      \<Rightarrow> 'x broker_world \<times> broker_response" where
  "handle_request host (RegisterRoot request_id request) authenticated =
     or_failure request_id (cc_client_instance (rg_caller request))
       (register_root host request_id request authenticated)"
| "handle_request host (QueryJournal request_id request) authenticated =
     or_failure request_id (cc_client_instance (qj_caller request))
       (query_journal host request_id request authenticated)"
| "handle_request host (ReadRange request_id request) authenticated =
     or_failure request_id (cc_client_instance (rj_caller request))
       (accept_read_range host request_id request authenticated)"
| "handle_request host (ReadVolume request_id request) authenticated =
     or_failure request_id (cc_client_instance (rv_caller request))
       (accept_read_volume host request_id request authenticated)"
| "handle_request host (Cancel request_id caller target_request_id) authenticated =
     or_failure request_id (cc_client_instance caller)
       (cancel host request_id caller target_request_id authenticated)"

definition malformed_response :: "bytes \<Rightarrow> wire_error \<Rightarrow> broker_response" where
  "malformed_response payload error =
     (let code = (case error of
          UnsupportedVersion _ \<Rightarrow> ProtocolMismatch
        | LengthExceeded \<Rightarrow> RequestTooLarge
        | LengthOverflow \<Rightarrow> RequestTooLarge
        | _ \<Rightarrow> MalformedFrame) in
      failure_response (case inspect_request_header payload of
          Inl _ \<Rightarrow> 0 | Inr header \<Rightarrow> ih_request_id header) None code)"

definition encode_response_frame :: "broker_response \<Rightarrow> (broker_failure, bytes) result" where
  "encode_response_frame response =
     bind_result (map_err (\<lambda>_. BrokerFailure Internal) (encode_response response)) (\<lambda>payload.
     map_err (\<lambda>_. BrokerFailure Internal) (encode_frame payload))"

definition handle_frame ::
    "'x broker_host \<Rightarrow> bytes \<Rightarrow> authenticated_connection \<Rightarrow> ('x, bytes) handler" where
  "handle_frame host frame authenticated world =
     (let (world, response) = (case decode_frame frame of
          Inl _ \<Rightarrow> (world, failure_response 0 None MalformedFrame)
        | Inr payload \<Rightarrow> (case decode_request payload of
            Inl error \<Rightarrow> (world, malformed_response payload error)
          | Inr request \<Rightarrow> handle_request host request authenticated world)) in
      (world, encode_response_frame response))"

section \<open>Executing accepted reads\<close>

definition execution_key :: "u64 \<Rightarrow> bytes \<Rightarrow> authenticated_connection \<Rightarrow> active_request_key" where
  "execution_key request_id client_instance authenticated =
     \<lparr>ak_connection_id = ac_connection_id authenticated,
      ak_connection_generation = ac_connection_generation authenticated,
      ak_authentication_namespace = ac_opaque_token_binding authenticated,
      ak_client_instance = client_instance, ak_request_id = request_id\<rparr>"

definition execute_accepted ::
    "'x broker_host \<Rightarrow> u64 \<Rightarrow> active_request_key \<Rightarrow> accepted_read \<Rightarrow> authenticated_connection
      \<Rightarrow> ('x, broker_response) handler" where
  "execute_accepted host request_id key accepted authenticated = (case ar_request accepted of
     AcceptedRoot request \<Rightarrow>
       execute_read_range host request_id key request (ar_deadline accepted) authenticated
   | AcceptedVolume request \<Rightarrow>
       execute_read_volume host request_id key request (ar_deadline accepted) authenticated)"

text \<open>The response of an executed read: its result only when the registry says it completed.\<close>

definition execution_response ::
    "u64 \<Rightarrow> bytes \<Rightarrow> (broker_failure, broker_response) result
      \<Rightarrow> (active_request_error, request_terminal) result \<Rightarrow> broker_response" where
  "execution_response request_id client_instance r terminal =
     (let failed = failure_response request_id (Some client_instance) in
      case terminal of
        Inr TerminalCancelled \<Rightarrow> failed Cancelled
      | Inr TerminalTimedOut \<Rightarrow> failed TimedOut
      | Inr TerminalCompleted \<Rightarrow> (case r of
          Inl failure \<Rightarrow> failed (failure_code_of failure)
        | Inr response \<Rightarrow> response)
      | Inr TerminalAborted \<Rightarrow> failed RequestNotActive
      | Inl _ \<Rightarrow> failed RequestNotActive)"

definition execute_accepted_read ::
    "'x broker_host \<Rightarrow> u64 \<Rightarrow> bytes \<Rightarrow> authenticated_connection \<Rightarrow> 'x broker_world
      \<Rightarrow> 'x broker_world \<times> broker_response" where
  "execute_accepted_read host request_id client_instance authenticated world =
     (let key = execution_key request_id client_instance authenticated;
          (world, begun) = on_registry host (begin_execution key) world in
      case begun of
        Inl error \<Rightarrow> (world, failure_response request_id (Some client_instance)
          (failure_code_of (map_active_failure error)))
      | Inr accepted \<Rightarrow>
          let (world, r) = execute_accepted host request_id key accepted authenticated world;
              (world, terminal) = on_registry host (finish_request key) world in
          (world, execution_response request_id client_instance r terminal))"

definition execute_accepted_read_frame ::
    "'x broker_host \<Rightarrow> u64 \<Rightarrow> bytes \<Rightarrow> authenticated_connection \<Rightarrow> ('x, bytes) handler" where
  "execute_accepted_read_frame host request_id client_instance authenticated world =
     (let (world, response) = execute_accepted_read host request_id client_instance authenticated world in
      (world, encode_response_frame response))"

record terminal_frame =
  tf_request_id :: u64
  tf_frame :: bytes

definition terminal_failure_code :: "request_terminal \<Rightarrow> broker_failure_code" where
  "terminal_failure_code terminal = (case terminal of
     TerminalCancelled \<Rightarrow> Cancelled
   | TerminalTimedOut \<Rightarrow> TimedOut
   | TerminalAborted \<Rightarrow> RequestNotActive
   | TerminalCompleted \<Rightarrow> Internal)"

definition encode_recorded_terminal :: "recorded_terminal \<Rightarrow> (broker_failure, terminal_frame) result" where
  "encode_recorded_terminal terminal =
     bind_result (encode_response_frame (failure_response (ak_request_id (rt_key terminal))
       (Some (ak_client_instance (rt_key terminal))) (terminal_failure_code (rt_terminal terminal))))
       (\<lambda>frame. Inr \<lparr>tf_request_id = ak_request_id (rt_key terminal), tf_frame = frame\<rparr>)"

definition abort_accepted_read ::
    "'x broker_host \<Rightarrow> u64 \<Rightarrow> bytes \<Rightarrow> authenticated_connection \<Rightarrow> ('x, terminal_frame) handler" where
  "abort_accepted_read host request_id client_instance authenticated =
     bind_stateful (map_err_stateful map_active_failure (on_registry host
       (abort_accepted (execution_key request_id client_instance authenticated)))) (\<lambda>terminal.
     lift_stateful (encode_recorded_terminal terminal))"

record terminal_frame_batch =
  tb_frames :: "terminal_frame list"
  tb_must_close :: bool

fun encode_terminals :: "recorded_terminal list \<Rightarrow> (broker_failure, terminal_frame list) result" where
  "encode_terminals [] = Inr []"
| "encode_terminals (terminal # rest) =
     bind_result (encode_recorded_terminal terminal) (\<lambda>frame.
     bind_result (encode_terminals rest) (\<lambda>frames. Inr (frame # frames)))"

definition reap_accepted_reads ::
    "'x broker_host \<Rightarrow> authenticated_connection \<Rightarrow> ('x, terminal_frame_batch) handler" where
  "reap_accepted_reads host authenticated =
     bind_stateful (map_err_stateful map_active_failure (on_registry host
       (reap_accepted (ht_order host) (ac_connection_id authenticated)
         (ac_connection_generation authenticated)))) (\<lambda>drain.
     bind_stateful (lift_stateful (encode_terminals (td_terminals drain))) (\<lambda>frames.
     return_stateful \<lparr>tb_frames = frames, tb_must_close = td_must_close drain\<rparr>))"

definition service_open_connection ::
    "'x broker_host \<Rightarrow> authenticated_connection \<Rightarrow> ('x, unit) handler" where
  "service_open_connection host authenticated =
     map_err_stateful map_active_failure (on_registry host (\<lambda>_. open_connection
       (ac_connection_id authenticated) (ac_connection_generation authenticated)))"

definition service_disconnect ::
    "'x broker_host \<Rightarrow> authenticated_connection \<Rightarrow> ('x, unit) handler" where
  "service_disconnect host authenticated =
     on_registry host (\<lambda>_ registry. (disconnect (ac_connection_id authenticated)
       (ac_connection_generation authenticated) registry, Inr ()))"

end
