(* ===== verification/Broker_Client.thy ===== *)
theory Broker_Client
  imports Broker_Service
begin

text \<open>
  What the client of the broker (\<open>journal_broker/client.rs\<close>) checks of the responses it receives:
  from the frame the transport delivers to the response an operation returns, each with the error
  the operation fails with. The transport, the clock and the registry of pending requests are not
  part of these checks.
\<close>

datatype broker_client_error =
    Closed | CloseInProgress | TransportPoisoned | InvalidRequest | RequestIdExhausted
  | RequestMismatch | ResponseBindingMismatch | RangeBindingMismatch | EvidenceBindingMismatch
  | ClientProtocolMismatch | MalformedResponse | ClientCancelled | ForeignPendingHandle
  | ClientRequestNotActive | PendingLimitExceeded | UnexpectedResponse
  | Remote broker_failure | Transport string | Frame broker_frame_error

definition map_local_wire :: "wire_error \<Rightarrow> broker_client_error" where
  "map_local_wire error = InvalidRequest"

section \<open>Frames\<close>

definition request_frame :: "broker_request \<Rightarrow> (broker_client_error, bytes) result" where
  "request_frame request =
     bind_result (map_err map_local_wire (encode_request request)) (\<lambda>payload.
     map_err Frame (encode_frame payload))"

fun client_frame_error :: "broker_frame_error \<Rightarrow> broker_client_error" where
  "client_frame_error LengthRejected = ClientProtocolMismatch"
| "client_frame_error FrameLengthOverflow = ClientProtocolMismatch"
| "client_frame_error Truncated = MalformedResponse"
| "client_frame_error FrameTrailingBytes = MalformedResponse"

definition client_wire_error :: "wire_error \<Rightarrow> broker_client_error" where
  "client_wire_error error = (case error of
     UnsupportedVersion _ \<Rightarrow> ClientProtocolMismatch
   | _ \<Rightarrow> MalformedResponse)"

definition client_failure ::
    "u64 \<Rightarrow> bytes \<Rightarrow> u64 \<Rightarrow> bytes option \<Rightarrow> broker_failure \<Rightarrow> broker_client_error" where
  "client_failure request_id expected_client_instance returned_id client_instance failure =
     (if returned_id \<noteq> 0 \<and> returned_id \<noteq> request_id then RequestMismatch
      else if (case client_instance of None \<Rightarrow> False | Some v \<Rightarrow> v \<noteq> expected_client_instance)
      then ResponseBindingMismatch
      else (case failure_code_of failure of
          ProtocolMismatch \<Rightarrow> ClientProtocolMismatch
        | MalformedFrame \<Rightarrow> MalformedResponse
        | Cancelled \<Rightarrow> ClientCancelled
        | RequestNotActive \<Rightarrow> ClientRequestNotActive
        | _ \<Rightarrow> if returned_id = 0 \<or> client_instance = None then ResponseBindingMismatch
               else Remote failure))"

text \<open>\<open>receive_response\<close> from the frame on.\<close>

definition receive_frame ::
    "u64 \<Rightarrow> bytes \<Rightarrow> bytes \<Rightarrow> (broker_client_error, broker_response) result" where
  "receive_frame request_id expected_client_instance response_frame =
     bind_result (map_err client_frame_error (decode_frame response_frame)) (\<lambda>response_payload.
     bind_result (map_err client_wire_error (decode_response response_payload)) (\<lambda>response.
     case response of
       FailureResponse returned_id client_instance failure \<Rightarrow>
         Inl (client_failure request_id expected_client_instance returned_id client_instance failure)
     | _ \<Rightarrow> if response_request_id response \<noteq> request_id then Inl RequestMismatch else Inr response))"

definition validate_binding ::
    "response_binding \<Rightarrow> bytes \<Rightarrow> root_authorization \<Rightarrow> (broker_client_error, unit) result" where
  "validate_binding binding client_instance root =
     (if rb_client_instance binding \<noteq> client_instance
         \<or> rb_root_id binding \<noteq> ra_root_id root
         \<or> rb_root_generation binding \<noteq> ra_root_generation root
         \<or> rb_volume_id binding \<noteq> ra_volume_id root
      then Inl ResponseBindingMismatch else Inr ())"

section \<open>Queries, registrations and cancellations\<close>

fun check_journal ::
    "bytes \<Rightarrow> root_authorization \<Rightarrow> broker_response \<Rightarrow> (broker_client_error, broker_response) result" where
  "check_journal client_instance expected_root (JournalResponse i r) =
     bind_result (validate_binding (jr_binding r) client_instance expected_root) (\<lambda>_.
     Inr (JournalResponse i r))"
| "check_journal _ _ _ = Inl UnexpectedResponse"

fun check_registered ::
    "bytes \<Rightarrow> root_authorization \<Rightarrow> broker_response \<Rightarrow> (broker_client_error, root_capability) result" where
  "check_registered client_instance expected_root (RootRegistered _ binding root_capability) =
     bind_result (validate_binding binding client_instance expected_root) (\<lambda>_.
     bind_result (map_err map_local_wire (root_capability_validate root_capability)) (\<lambda>_.
     Inr root_capability))"
| "check_registered _ _ _ = Inl UnexpectedResponse"

fun check_cancelled ::
    "caller_claim \<Rightarrow> u64 \<Rightarrow> broker_response \<Rightarrow> (broker_client_error, unit) result" where
  "check_cancelled caller target_request_id (CancelledResponse _ client_instance returned_target) =
     (if client_instance = cc_client_instance caller \<and> returned_target = target_request_id
      then Inr () else Inl UnexpectedResponse)"
| "check_cancelled _ _ _ = Inl UnexpectedResponse"

section \<open>Range reads\<close>

record pending_read_range =
  pe_client_instance :: bytes
  pe_expected_root :: root_authorization
  pe_expected_journal :: u64
  pe_expected_start :: i64
  pe_expected_end :: i64
  pe_expected_max_records :: u32
  pe_expected_max_evidence_bytes :: u32

definition expect_range :: "read_journal_range_request \<Rightarrow> pending_read_range" where
  "expect_range request =
     \<lparr>pe_client_instance = cc_client_instance (rj_caller request), pe_expected_root = rj_root request,
      pe_expected_journal = rj_journal_id request, pe_expected_start = rj_start_usn request,
      pe_expected_end = rj_end_usn request, pe_expected_max_records = rj_max_records request,
      pe_expected_max_evidence_bytes = rj_max_evidence_bytes request\<rparr>"

fun check_range_accepted ::
    "pending_read_range \<Rightarrow> broker_response \<Rightarrow> (broker_client_error, unit) result" where
  "check_range_accepted self (ReadRangeAccepted _ r) =
     bind_result (validate_binding (xa_binding r) (pe_client_instance self) (pe_expected_root self)) (\<lambda>_.
     if xa_journal_id r \<noteq> pe_expected_journal self
        \<or> xa_requested_start_usn r \<noteq> pe_expected_start self
        \<or> xa_requested_end_usn r \<noteq> pe_expected_end self
        \<or> xa_max_records r \<noteq> pe_expected_max_records self
        \<or> xa_max_evidence_bytes r \<noteq> pe_expected_max_evidence_bytes self
     then Inl RangeBindingMismatch else Inr ())"
| "check_range_accepted _ _ = Inl UnexpectedResponse"

text \<open>One turn of the loop over the candidates, with the previous USN and the evidence so far.\<close>

definition check_range_candidate ::
    "pending_read_range \<Rightarrow> i64 \<Rightarrow> broker_candidate \<Rightarrow> i64 option \<times> nat
      \<Rightarrow> (broker_client_error, i64 option \<times> nat) result" where
  "check_range_candidate self covered_until_usn candidate = (\<lambda>(previous_usn, evidence_bytes).
     if sint (bc_usn candidate) < sint (pe_expected_start self)
        \<or> sint (bc_usn candidate) \<ge> sint covered_until_usn
        \<or> (case previous_usn of None \<Rightarrow> False | Some previous \<Rightarrow> sint (bc_usn candidate) \<le> sint previous)
     then Inl RangeBindingMismatch
     else bind_result (ok_or (candidate_evidence_bytes candidate) EvidenceBindingMismatch) (\<lambda>n.
       bind_result (ok_or (checked_add evidence_bytes n) EvidenceBindingMismatch) (\<lambda>evidence_bytes.
       if evidence_bytes > unat (pe_expected_max_evidence_bytes self) then Inl EvidenceBindingMismatch
       else Inr (Some (bc_usn candidate), evidence_bytes))))"

fun check_range ::
    "pending_read_range \<Rightarrow> broker_response \<Rightarrow> (broker_client_error, broker_response) result" where
  "check_range self (ReadRangeResponse i r) =
     bind_result (validate_binding (xr_binding r) (pe_client_instance self) (pe_expected_root self)) (\<lambda>_.
     if xr_journal_id r \<noteq> pe_expected_journal self
        \<or> xr_requested_start_usn r \<noteq> pe_expected_start self
        \<or> xr_requested_end_usn r \<noteq> pe_expected_end self
        \<or> xr_max_records r \<noteq> pe_expected_max_records self
        \<or> xr_max_evidence_bytes r \<noteq> pe_expected_max_evidence_bytes self
        \<or> sint (xr_covered_until_usn r) \<le> sint (pe_expected_start self)
        \<or> sint (xr_covered_until_usn r) > sint (pe_expected_end self)
        \<or> xr_is_complete r \<noteq> (xr_covered_until_usn r = pe_expected_end self)
     then Inl RangeBindingMismatch
     else if length (xr_candidates r) > unat (pe_expected_max_records self)
     then Inl EvidenceBindingMismatch
     else bind_result (fold_result (check_range_candidate self (xr_covered_until_usn r))
         (xr_candidates r) (None, 0)) (\<lambda>_.
       Inr (ReadRangeResponse i r)))"
| "check_range _ _ = Inl UnexpectedResponse"

section \<open>Volume reads\<close>

record pending_read_volume =
  pv_client_instance :: bytes
  pv_expected_roots :: "(root_authorization \<times> i64) list"
  pv_expected_pending_renames :: "pending_rename_request list"
  pv_expected_journal :: u64
  pv_expected_end :: i64
  pv_expected_max_records :: u32
  pv_expected_max_evidence_bytes :: u32

definition expect_volume :: "read_journal_volume_request \<Rightarrow> pending_read_volume" where
  "expect_volume request =
     \<lparr>pv_client_instance = cc_client_instance (rv_caller request),
      pv_expected_roots = map (\<lambda>root. (sr_root root, sr_start_usn root)) (rv_roots request),
      pv_expected_pending_renames = rv_pending_renames request,
      pv_expected_journal = rv_journal_id request, pv_expected_end = rv_end_usn request,
      pv_expected_max_records = rv_max_records request,
      pv_expected_max_evidence_bytes = rv_max_evidence_bytes request\<rparr>"

fun check_volume_accepted ::
    "read_journal_volume_request \<Rightarrow> broker_response \<Rightarrow> (broker_client_error, unit) result" where
  "check_volume_accepted request (ReadVolumeAccepted _ r) =
     (if va_client_instance r = cc_client_instance (rv_caller request)
         \<and> va_volume_id r = ra_volume_id (sr_root (hd (rv_roots request)))
         \<and> va_journal_id r = rv_journal_id request
         \<and> va_requested_start_usn r = the (minimum_start_usn request)
         \<and> va_requested_end_usn r = rv_end_usn request
         \<and> unat (va_root_count r) = length (rv_roots request)
         \<and> va_max_records r = rv_max_records request
         \<and> va_max_evidence_bytes r = rv_max_evidence_bytes request
      then Inr () else Inl RangeBindingMismatch)"
| "check_volume_accepted _ _ = Inl RangeBindingMismatch"

text \<open>The outcomes, zipped with the roots that were asked for.\<close>

fun check_outcomes ::
    "bytes \<Rightarrow> (shared_journal_root_outcome \<times> root_authorization \<times> i64) list
      \<Rightarrow> (broker_client_error, unit) result" where
  "check_outcomes client_instance [] = Inr ()"
| "check_outcomes client_instance ((outcome, root, requested_start) # rest) =
     bind_result (validate_binding (so_binding outcome) client_instance root) (\<lambda>_.
     if so_requested_start_usn outcome \<noteq> requested_start then Inl RangeBindingMismatch
     else check_outcomes client_instance rest)"

text \<open>One end of a move, or a pending rename: a root of this read whose outcome covers the USN.\<close>

definition check_endpoint ::
    "pending_read_volume \<Rightarrow> bytes \<Rightarrow> shared_journal_root_outcome list \<Rightarrow> i64 \<Rightarrow> response_binding
      \<Rightarrow> (broker_client_error, unit) result" where
  "check_endpoint self client_instance outcomes usn endpoint =
     (case List.find (\<lambda>(root, _). ra_root_id root = rb_root_id endpoint
             \<and> ra_root_generation root = rb_root_generation endpoint
             \<and> ra_volume_id root = rb_volume_id endpoint) (pv_expected_roots self) of
        None \<Rightarrow> Inl RangeBindingMismatch
      | Some (expected_root, requested_start) \<Rightarrow>
          bind_result (validate_binding endpoint client_instance expected_root) (\<lambda>_.
          case List.find (\<lambda>outcome. rb_root_id (so_binding outcome) = rb_root_id endpoint
                 \<and> rb_root_generation (so_binding outcome) = rb_root_generation endpoint) outcomes of
            None \<Rightarrow> Inl RangeBindingMismatch
          | Some outcome \<Rightarrow>
              (case (if so_failure outcome = None then so_covered_until_usn outcome else None) of
                 None \<Rightarrow> Inl RangeBindingMismatch
               | Some covered \<Rightarrow>
                   if so_requested_start_usn outcome \<noteq> requested_start
                      \<or> sint usn < sint requested_start \<or> sint usn \<ge> sint covered
                   then Inl RangeBindingMismatch else Inr ())))"

text \<open>A move out of a carried rename: carried by this read, ended once, and as it was carried.\<close>

definition check_carry ::
    "pending_read_volume \<Rightarrow> bytes \<Rightarrow> shared_journal_handoff \<Rightarrow> str set
      \<Rightarrow> (broker_client_error, str set) result" where
  "check_carry self client_instance handoff consumed_carries = (case sh_previous_carry_id handoff of
     None \<Rightarrow> Inr consumed_carries
   | Some carry_id \<Rightarrow>
       if carry_id \<in> consumed_carries then Inl RangeBindingMismatch
       else (case List.find (\<lambda>pending. pr_carry_id pending = carry_id) (pv_expected_pending_renames self) of
          None \<Rightarrow> Inl RangeBindingMismatch
        | Some pending \<Rightarrow>
            bind_result (validate_binding (sh_previous_binding handoff) client_instance (pr_root pending)) (\<lambda>_.
            if sh_file_reference handoff \<noteq> pr_file_reference pending
               \<or> sh_previous_relative_path handoff \<noteq> pr_previous_relative_path pending
               \<or> sh_is_directory handoff \<noteq> pr_is_directory pending
               \<or> sint (sh_usn handoff) \<le> sint (pr_old_usn pending)
            then Inl RangeBindingMismatch else Inr (insert carry_id consumed_carries))))"

definition check_handoff ::
    "pending_read_volume \<Rightarrow> bytes \<Rightarrow> shared_journal_root_outcome list \<Rightarrow> shared_journal_handoff \<Rightarrow> str set
      \<Rightarrow> (broker_client_error, str set) result" where
  "check_handoff self client_instance outcomes handoff consumed_carries =
     bind_result (check_carry self client_instance handoff consumed_carries) (\<lambda>consumed_carries.
     bind_result (each_result (check_endpoint self client_instance outcomes (sh_usn handoff))
       (if sh_previous_carry_id handoff \<noteq> None then [sh_current_binding handoff]
        else [sh_previous_binding handoff, sh_current_binding handoff])) (\<lambda>_.
     Inr consumed_carries))"

fun check_volume ::
    "pending_read_volume \<Rightarrow> broker_response \<Rightarrow> (broker_client_error, broker_response) result" where
  "check_volume self (ReadVolumeResponse i r) =
     (if vr_client_instance r \<noteq> pv_client_instance self
         \<or> vr_journal_id r \<noteq> pv_expected_journal self
         \<or> vr_requested_end_usn r \<noteq> pv_expected_end self
         \<or> vr_max_records r \<noteq> pv_expected_max_records self
         \<or> vr_max_evidence_bytes r \<noteq> pv_expected_max_evidence_bytes self
         \<or> length (vr_outcomes r) \<noteq> length (pv_expected_roots self)
         \<or> (case pv_expected_roots self of [] \<Rightarrow> True
              | (root, _) # _ \<Rightarrow> ra_volume_id root \<noteq> vr_volume_id r)
      then Inl RangeBindingMismatch
      else bind_result (check_outcomes (vr_client_instance r)
          (zip (vr_outcomes r) (pv_expected_roots self))) (\<lambda>_.
        bind_result (each_result (\<lambda>pending. check_endpoint self (vr_client_instance r) (vr_outcomes r)
          (sp_old_usn pending) (sp_binding pending)) (vr_pending_renames r)) (\<lambda>_.
        bind_result (fold_result (check_handoff self (vr_client_instance r) (vr_outcomes r))
          (vr_handoffs r) {}) (\<lambda>_.
        Inr (ReadVolumeResponse i r)))))"
| "check_volume _ _ = Inl UnexpectedResponse"

end
