(* ===== verification/Client_World.thy ===== *)
theory Client_World
  imports Broker_Client
begin

text \<open>
  The state the threads of a broker client share (\<open>ClientDispatcher\<close> of \<open>journal_broker/client.rs\<close>),
  and the procedures that run on it. A procedure is a function from the world to the world it leaves
  and its result, or \<open>None\<close> when it does not return. Other threads run before every access to an
  atomic, a lock, the transport or the clock: the field \<open>ch_interfere\<close> of the host is all they do
  until the access. Locks only exclude some of these interleavings, so they are not part of the
  world; whether a lock is poisoned or taken is up to the host.
\<close>

section \<open>Procedures\<close>

type_synonym ('w, 'a) proc = "'w \<Rightarrow> ('w \<times> 'a) option"

definition return_proc :: "'a \<Rightarrow> ('w, 'a) proc" where
  "return_proc a = (\<lambda>w. Some (w, a))"

definition bind_proc :: "('w, 'a) proc \<Rightarrow> ('a \<Rightarrow> ('w, 'b) proc) \<Rightarrow> ('w, 'b) proc" where
  "bind_proc f k = (\<lambda>w. Option.bind (f w) (\<lambda>r. k (snd r) (fst r)))"

text \<open>The operator \<open>?\<close>: an error is returned at once.\<close>

definition try_proc ::
    "('w, ('e, 'a) result) proc \<Rightarrow> ('a \<Rightarrow> ('w, ('e, 'b) result) proc) \<Rightarrow> ('w, ('e, 'b) result) proc" where
  "try_proc f k = bind_proc f (\<lambda>r. case r of Inl e \<Rightarrow> return_proc (Inl e) | Inr a \<Rightarrow> k a)"

definition map_proc :: "('a \<Rightarrow> 'b) \<Rightarrow> ('w, 'a) proc \<Rightarrow> ('w, 'b) proc" where
  "map_proc g f = bind_proc f (\<lambda>a. return_proc (g a))"

text \<open>The operator \<open>||\<close>.\<close>

definition or_proc :: "('w, bool) proc \<Rightarrow> ('w, bool) proc \<Rightarrow> ('w, bool) proc" where
  "or_proc f g = bind_proc f (\<lambda>b. if b then return_proc True else g)"

primrec each_proc :: "('a \<Rightarrow> ('w, unit) proc) \<Rightarrow> 'a list \<Rightarrow> ('w, unit) proc" where
  "each_proc f [] = return_proc ()"
| "each_proc f (x # xs) = bind_proc (f x) (\<lambda>_. each_proc f xs)"

lemma bind_proc_apply: "bind_proc f k w = Option.bind (f w) (\<lambda>r. k (snd r) (fst r))"
  by (simp add: bind_proc_def)

lemma bind_proc_mono [partial_function_mono]:
  assumes "\<And>w. mono_option (\<lambda>f. B f w)" and "\<And>y w. mono_option (\<lambda>f. C y f w)"
  shows "mono_option (\<lambda>f. bind_proc (B f) (\<lambda>y. C y f) w)"
  unfolding bind_proc_apply using assms by (intro bind_mono) simp_all

lemma if_proc_mono [partial_function_mono]:
  assumes "mono_option (\<lambda>f. B f w)" and "mono_option (\<lambda>f. C f w)"
  shows "mono_option (\<lambda>f. (if b then B f else C f) w)"
  using assms by (cases b) simp_all

lemma bind_proc_eq_Some:
  "bind_proc f k w = Some (w', b) \<longleftrightarrow> (\<exists>w1 a. f w = Some (w1, a) \<and> k a w1 = Some (w', b))"
  by (auto simp: bind_proc_def bind_eq_Some_conv)

section \<open>Shared state\<close>

definition REGISTERED :: u8 where "REGISTERED = 0"
definition AWAITING_RESPONSE :: u8 where "AWAITING_RESPONSE = 1"
definition ACTIVE_READ :: u8 where "ACTIVE_READ = 2"
definition CANCEL_IN_FLIGHT :: u8 where "CANCEL_IN_FLIGHT = 3"
definition ABANDON_QUEUED :: u8 where "ABANDON_QUEUED = 4"
definition TERMINAL :: u8 where "TERMINAL = 5"
definition CLOSE_UNCONFIRMED :: u8 where "CLOSE_UNCONFIRMED = 0"
definition CLOSE_IN_PROGRESS :: u8 where "CLOSE_IN_PROGRESS = 1"
definition CLOSE_CONFIRMED :: u8 where "CLOSE_CONFIRMED = 2"
definition CLOSE_POISONED :: u8 where "CLOSE_POISONED = 3"
definition MAX_BUSINESS_REQUESTS_PER_CLIENT :: nat where "MAX_BUSINESS_REQUESTS_PER_CLIENT = 8"
definition MAX_CONTROL_REQUESTS_PER_CLIENT :: nat where "MAX_CONTROL_REQUESTS_PER_CLIENT = 2"

text \<open>Durations and instants in nanoseconds.\<close>

definition TRANSPORT_POLL_TIMEOUT :: nat where "TRANSPORT_POLL_TIMEOUT = 250000000"
definition POLL_BACKOFF_MIN :: nat where "POLL_BACKOFF_MIN = 50000"
definition POLL_BACKOFF_MAX :: nat where "POLL_BACKOFF_MAX = 2000000"
definition MAINTENANCE_STEPS_PER_OPERATION :: nat where
  "MAINTENANCE_STEPS_PER_OPERATION = MAX_BUSINESS_REQUESTS_PER_CLIENT"

lemmas lifecycle_states = REGISTERED_def AWAITING_RESPONSE_def ACTIVE_READ_def CANCEL_IN_FLIGHT_def
  ABANDON_QUEUED_def TERMINAL_def

datatype 'a adapter_poll = Ready 'a | Pending

datatype request_class = Business | Control

record request_entry =
  re_lifecycle :: u8
  re_class :: request_class
  re_is_registered :: bool
  re_epoch :: u64

datatype finish_outcome = Committed | Superseded

text \<open>A shared pointer to an entry is its position among the entries that were ever allocated.\<close>

type_synonym entry_ref = nat

record cleanup_task =
  ct_target_request_id :: u64
  ct_caller :: caller_claim
  ct_entry :: entry_ref
  ct_prior :: u8
  ct_epoch :: u64

record client_dispatcher =
  cd_connection_id :: bytes
  cd_connection_generation :: u64
  cd_connection_nonce :: u64
  cd_operation_epoch :: u64
  cd_transport_poisoned :: bool
  cd_poison_requested :: bool
  cd_next_request_id :: u64
  cd_admission_closed :: bool
  cd_transport_close_state :: u8
  cd_business_count :: u64
  cd_control_count :: u64
  cd_requests :: "(u64 \<times> entry_ref) list"
  cd_cleanup_queue :: "cleanup_task list"
  cd_cleanup_capacity :: nat
  cd_cleanup_receiver :: bool

text \<open>
  The world of one thread: the dispatcher, the entries, the transport and the clock it shares, and
  what the other threads are up to. \<open>cw_transit\<close> counts, for the accounting of the capacity only,
  the slots that other threads hold between two accesses: taken and not yet given to an entry, or
  taken from an entry and not yet given back.
\<close>

record ('t, 'x) client_world =
  cw_dispatcher :: client_dispatcher
  cw_entries :: "request_entry list"
  cw_transport :: 't
  cw_now :: nat
  cw_transit :: "request_class \<Rightarrow> nat"
  cw_rest :: 'x

text \<open>What a call of the transport comes to: \<open>catch_unwind\<close> turns a panic into a value.\<close>

datatype 'a adapter_result = AdapterPanicked | AdapterFailed string | AdapterPolled "'a adapter_poll"

record ('t, 'x) client_host =
  ch_interfere :: "('t, 'x) client_world \<Rightarrow> ('t, 'x) client_world"
  ch_try_send_frame :: "bytes \<Rightarrow> 't \<Rightarrow> 't \<times> unit adapter_result"
  ch_poll_response :: "u64 \<Rightarrow> 't \<Rightarrow> 't \<times> bytes adapter_result"
  ch_try_discard :: "u64 \<Rightarrow> 't \<Rightarrow> 't \<times> unit adapter_result"
  ch_begin_abandon :: "u64 \<Rightarrow> (u64 \<times> bytes) option \<Rightarrow> bool \<Rightarrow> 't \<Rightarrow> 't \<times> unit adapter_result"
  ch_poll_abandon :: "u64 \<Rightarrow> 't \<Rightarrow> 't \<times> unit adapter_result"
  ch_begin_close :: "'t \<Rightarrow> 't \<times> unit adapter_result"
  ch_poll_close :: "'t \<Rightarrow> 't \<times> unit adapter_result"
  ch_requests_poisoned :: "('t, 'x) client_world \<Rightarrow> bool"
  ch_cleanup_poisoned :: "('t, 'x) client_world \<Rightarrow> bool"
  ch_requests_free :: "('t, 'x) client_world \<Rightarrow> bool"
  ch_gate_free :: "('t, 'x) client_world \<Rightarrow> bool"
  ch_drain_order :: "(u64 \<times> entry_ref) list \<Rightarrow> (u64 \<times> entry_ref) list"

type_synonym ('t, 'x, 'a) client_proc = "(('t, 'x) client_world, 'a) proc"
type_synonym ('t, 'x, 'a) client_op = "('t, 'x, (broker_client_error, 'a) result) client_proc"

section \<open>Accesses\<close>

definition access ::
    "('t, 'x) client_host \<Rightarrow> (('t, 'x) client_world \<Rightarrow> ('t, 'x) client_world \<times> 'a) \<Rightarrow> ('t, 'x, 'a) client_proc" where
  "access host f = (\<lambda>w. Some (f (ch_interfere host w)))"

definition load :: "('t, 'x) client_host \<Rightarrow> (('t, 'x) client_world \<Rightarrow> 'a) \<Rightarrow> ('t, 'x, 'a) client_proc" where
  "load host g = access host (\<lambda>w. (w, g w))"

definition store ::
    "('t, 'x) client_host \<Rightarrow> (client_dispatcher \<Rightarrow> client_dispatcher) \<Rightarrow> ('t, 'x, unit) client_proc" where
  "store host g = access host (\<lambda>w. (w\<lparr>cw_dispatcher := g (cw_dispatcher w)\<rparr>, ()))"

definition entry_of :: "('t, 'x) client_world \<Rightarrow> entry_ref \<Rightarrow> request_entry" where
  "entry_of w r = cw_entries w ! r"

definition lifecycle_of :: "('t, 'x) client_world \<Rightarrow> entry_ref \<Rightarrow> u8" where
  "lifecycle_of w r = re_lifecycle (entry_of w r)"

text \<open>The fields of an entry that never change are read without an access.\<close>

definition entry_epoch :: "entry_ref \<Rightarrow> ('t, 'x, u64) client_proc" where
  "entry_epoch r = (\<lambda>w. Some (w, re_epoch (entry_of w r)))"

definition entry_class :: "entry_ref \<Rightarrow> ('t, 'x, request_class) client_proc" where
  "entry_class r = (\<lambda>w. Some (w, re_class (entry_of w r)))"

definition lifecycle_exchange ::
    "('t, 'x) client_host \<Rightarrow> entry_ref \<Rightarrow> u8 \<Rightarrow> u8 \<Rightarrow> ('t, 'x, (u8, unit) result) client_proc" where
  "lifecycle_exchange host r current new = access host (\<lambda>w.
     if lifecycle_of w r = current
     then (w\<lparr>cw_entries := (cw_entries w)[r := (entry_of w r)\<lparr>re_lifecycle := new\<rparr>]\<rparr>, Inr ())
     else (w, Inl (lifecycle_of w r)))"

definition close_state_exchange ::
    "('t, 'x) client_host \<Rightarrow> u8 \<Rightarrow> u8 \<Rightarrow> ('t, 'x, (u8, unit) result) client_proc" where
  "close_state_exchange host current new = access host (\<lambda>w.
     if cd_transport_close_state (cw_dispatcher w) = current
     then (w\<lparr>cw_dispatcher := (cw_dispatcher w)\<lparr>cd_transport_close_state := new\<rparr>\<rparr>, Inr ())
     else (w, Inl (cd_transport_close_state (cw_dispatcher w))))"

text \<open>\<open>Instant::now().checked_add(duration)\<close>.\<close>

definition deadline_after :: "('t, 'x) client_host \<Rightarrow> nat \<Rightarrow> ('t, 'x, nat option) client_proc" where
  "deadline_after host duration = load host (\<lambda>w.
     if cw_now w + duration < 2 ^ 64 * 1000000000 then Some (cw_now w + duration) else None)"

definition before_deadline :: "('t, 'x) client_host \<Rightarrow> nat \<Rightarrow> ('t, 'x, bool) client_proc" where
  "before_deadline host deadline = load host (\<lambda>w. cw_now w < deadline)"

text \<open>\<open>PollBackoff::park\<close>: the delay of the next turn; the thread is parked meanwhile.\<close>

definition backoff_park :: "('t, 'x) client_host \<Rightarrow> nat \<Rightarrow> nat \<Rightarrow> ('t, 'x, nat) client_proc" where
  "backoff_park host deadline delay =
     bind_proc (load host cw_now) (\<lambda>now.
     if deadline - now = 0 then return_proc delay
     else bind_proc (load host (\<lambda>_. ())) (\<lambda>_. return_proc (min (delay * 2) POLL_BACKOFF_MAX)))"

end
