(* ===== verification/Client_Dispatcher.thy ===== *)
theory Client_Dispatcher
  imports Client_World
begin

text \<open>
  The operations of \<open>ClientDispatcher\<close> (\<open>journal_broker/client.rs\<close>): registration, completion and
  abandonment of requests, the calls of the transport, and its poisoning and closing.
\<close>

section \<open>Capacity and registration\<close>

definition class_limit :: "request_class \<Rightarrow> nat" where
  "class_limit class = (case class of
     Business \<Rightarrow> MAX_BUSINESS_REQUESTS_PER_CLIENT | Control \<Rightarrow> MAX_CONTROL_REQUESTS_PER_CLIENT)"

definition class_count :: "request_class \<Rightarrow> client_dispatcher \<Rightarrow> u64" where
  "class_count class d = (case class of Business \<Rightarrow> cd_business_count d | Control \<Rightarrow> cd_control_count d)"

definition set_class_count :: "request_class \<Rightarrow> u64 \<Rightarrow> client_dispatcher \<Rightarrow> client_dispatcher" where
  "set_class_count class n d = (case class of
     Business \<Rightarrow> d\<lparr>cd_business_count := n\<rparr> | Control \<Rightarrow> d\<lparr>cd_control_count := n\<rparr>)"

definition reserve_capacity :: "('t, 'x) client_host \<Rightarrow> request_class \<Rightarrow> ('t, 'x, bool) client_proc" where
  "reserve_capacity host class = access host (\<lambda>w.
     let n = class_count class (cw_dispatcher w) in
     if unat n < class_limit class
     then (w\<lparr>cw_dispatcher := set_class_count class (n + 1) (cw_dispatcher w)\<rparr>, True) else (w, False))"

definition release_capacity :: "('t, 'x) client_host \<Rightarrow> request_class \<Rightarrow> ('t, 'x, unit) client_proc" where
  "release_capacity host class = store host (\<lambda>d. set_class_count class (class_count class d - 1) d)"

definition take_request_id :: "('t, 'x) client_host \<Rightarrow> ('t, 'x, u64) client_op" where
  "take_request_id host = access host (\<lambda>w.
     let current = cd_next_request_id (cw_dispatcher w) in
     if unat current + 1 < 2 ^ 64
     then (w\<lparr>cw_dispatcher := (cw_dispatcher w)\<lparr>cd_next_request_id := current + 1\<rparr>\<rparr>, Inr current)
     else (w, Inl RequestIdExhausted))"

text \<open>The entry is allocated and inserted while the map is locked.\<close>

definition insert_entry ::
    "('t, 'x) client_host \<Rightarrow> u64 \<Rightarrow> request_class \<Rightarrow> u64 \<Rightarrow> ('t, 'x, entry_ref) client_proc" where
  "insert_entry host request_id class epoch = access host (\<lambda>w.
     let r = length (cw_entries w); d = cw_dispatcher w;
         entry = \<lparr>re_lifecycle = REGISTERED, re_class = class, re_is_registered = True, re_epoch = epoch\<rparr> in
     (w\<lparr>cw_entries := cw_entries w @ [entry],
        cw_dispatcher := d\<lparr>cd_requests := AList.update request_id r (cd_requests d)\<rparr>\<rparr>, r))"

definition register_request ::
    "('t, 'x) client_host \<Rightarrow> request_class \<Rightarrow> ('t, 'x, u64 \<times> entry_ref) client_op" where
  "register_request host class =
     bind_proc (load host (\<lambda>w. cd_admission_closed (cw_dispatcher w))) (\<lambda>closed.
     if closed then return_proc (Inl Closed) else
     bind_proc (reserve_capacity host class) (\<lambda>reserved.
     if \<not> reserved then return_proc (Inl PendingLimitExceeded) else
     bind_proc (load host (ch_requests_poisoned host)) (\<lambda>poisoned.
     if poisoned
     then bind_proc (release_capacity host class) (\<lambda>_. return_proc (Inl PendingLimitExceeded)) else
     bind_proc (load host (\<lambda>w. cd_admission_closed (cw_dispatcher w))) (\<lambda>closed.
     if closed then bind_proc (release_capacity host class) (\<lambda>_. return_proc (Inl Closed)) else
     bind_proc (take_request_id host) (\<lambda>taken. case taken of
       Inl error \<Rightarrow> bind_proc (release_capacity host class) (\<lambda>_. return_proc (Inl error))
     | Inr request_id \<Rightarrow>
         bind_proc (load host (\<lambda>w. cd_operation_epoch (cw_dispatcher w))) (\<lambda>epoch.
         bind_proc (insert_entry host request_id class epoch) (\<lambda>r.
         return_proc (Inr (request_id, r)))))))))"

definition claim_retirement :: "('t, 'x) client_host \<Rightarrow> entry_ref \<Rightarrow> ('t, 'x, bool) client_proc" where
  "claim_retirement host r = access host (\<lambda>w.
     if re_is_registered (entry_of w r)
     then (w\<lparr>cw_entries := (cw_entries w)[r := (entry_of w r)\<lparr>re_is_registered := False\<rparr>]\<rparr>, True)
     else (w, False))"

definition retire_capacity :: "('t, 'x) client_host \<Rightarrow> entry_ref \<Rightarrow> ('t, 'x, unit) client_proc" where
  "retire_capacity host r =
     bind_proc (claim_retirement host r) (\<lambda>claimed.
     if claimed then bind_proc (entry_class r) (release_capacity host) else return_proc ())"

definition remove_request_entry :: "('t, 'x) client_host \<Rightarrow> u64 \<Rightarrow> ('t, 'x, unit) client_proc" where
  "remove_request_entry host request_id =
     store host (\<lambda>d. d\<lparr>cd_requests := AList.delete request_id (cd_requests d)\<rparr>)"

definition transition ::
    "('t, 'x) client_host \<Rightarrow> entry_ref \<Rightarrow> u8 \<Rightarrow> u8 \<Rightarrow> ('t, 'x, unit) client_op" where
  "transition host r current new =
     map_proc (map_err (\<lambda>_. ClientRequestNotActive)) (lifecycle_exchange host r current new)"

section \<open>Ending requests\<close>

text \<open>
  The loop that makes an entry terminal, from the state it last saw: whether this thread did it.
\<close>

partial_function (option) terminate_entry ::
    "('t, 'x) client_host \<Rightarrow> entry_ref \<Rightarrow> u8 \<Rightarrow> ('t, 'x) client_world
      \<Rightarrow> (('t, 'x) client_world \<times> bool) option" where
  "terminate_entry host r state w =
     (if state = TERMINAL then Some (w, False)
      else bind_proc (lifecycle_exchange host r state TERMINAL) (\<lambda>exchanged. case exchanged of
         Inr _ \<Rightarrow> return_proc True
       | Inl current \<Rightarrow> terminate_entry host r current) w)"

definition clear_entry :: "('t, 'x) client_host \<Rightarrow> u64 \<times> entry_ref \<Rightarrow> ('t, 'x, unit) client_proc" where
  "clear_entry host = (\<lambda>(_, r).
     bind_proc (load host (\<lambda>w. lifecycle_of w r)) (\<lambda>state.
     bind_proc (terminate_entry host r state) (\<lambda>_.
     retire_capacity host r)))"

definition drain_requests :: "('t, 'x) client_host \<Rightarrow> ('t, 'x, (u64 \<times> entry_ref) list) client_proc" where
  "drain_requests host = access host (\<lambda>w.
     (w\<lparr>cw_dispatcher := (cw_dispatcher w)\<lparr>cd_requests := []\<rparr>\<rparr>,
      ch_drain_order host (cd_requests (cw_dispatcher w))))"

definition clear_requests_locked :: "('t, 'x) client_host \<Rightarrow> ('t, 'x, unit) client_proc" where
  "clear_requests_locked host = bind_proc (drain_requests host) (each_proc (clear_entry host))"

definition sweep_entry :: "('t, 'x) client_host \<Rightarrow> u64 \<times> entry_ref \<Rightarrow> ('t, 'x, unit) client_proc" where
  "sweep_entry host = (\<lambda>(request_id, r).
     bind_proc (load host (\<lambda>w. lifecycle_of w r)) (\<lambda>state.
     if state \<noteq> TERMINAL then return_proc ()
     else bind_proc (retire_capacity host r) (\<lambda>_. remove_request_entry host request_id)))"

definition sweep_terminal_entries :: "('t, 'x) client_host \<Rightarrow> ('t, 'x, unit) client_proc" where
  "sweep_terminal_entries host =
     bind_proc (load host (\<lambda>w. ch_drain_order host (cd_requests (cw_dispatcher w)))) (each_proc (sweep_entry host))"

section \<open>Poisoning\<close>

partial_function (option) poison_close_state ::
    "('t, 'x) client_host \<Rightarrow> u8 \<Rightarrow> ('t, 'x) client_world \<Rightarrow> (('t, 'x) client_world \<times> unit) option" where
  "poison_close_state host state w =
     (if state \<noteq> CLOSE_CONFIRMED \<and> state \<noteq> CLOSE_POISONED
      then bind_proc (close_state_exchange host state CLOSE_POISONED) (\<lambda>exchanged. case exchanged of
         Inr _ \<Rightarrow> return_proc ()
       | Inl current \<Rightarrow> poison_close_state host current) w
      else Some (w, ()))"

definition apply_poison_locked :: "('t, 'x) client_host \<Rightarrow> ('t, 'x, unit) client_proc" where
  "apply_poison_locked host =
     bind_proc (access host (\<lambda>w. (w\<lparr>cw_dispatcher := (cw_dispatcher w)\<lparr>cd_transport_poisoned := True\<rparr>\<rparr>,
       \<not> cd_transport_poisoned (cw_dispatcher w)))) (\<lambda>is_new.
     bind_proc (if is_new
       then bind_proc (store host (\<lambda>d. d\<lparr>cd_admission_closed := True\<rparr>)) (\<lambda>_.
         store host (\<lambda>d. d\<lparr>cd_operation_epoch := cd_operation_epoch d + 1\<rparr>))
       else return_proc ()) (\<lambda>_.
     bind_proc (load host (\<lambda>w. cd_transport_close_state (cw_dispatcher w))) (\<lambda>state.
     poison_close_state host state)))"

definition apply_requested_poison :: "('t, 'x) client_host \<Rightarrow> ('t, 'x, bool) client_proc" where
  "apply_requested_poison host =
     bind_proc (load host (\<lambda>w. cd_poison_requested (cw_dispatcher w))) (\<lambda>requested.
     if requested
     then bind_proc (apply_poison_locked host) (\<lambda>_.
       bind_proc (clear_requests_locked host) (\<lambda>_. return_proc True))
     else return_proc False)"

definition apply_deferred_poison_and_sweep :: "('t, 'x) client_host \<Rightarrow> ('t, 'x, unit) client_proc" where
  "apply_deferred_poison_and_sweep host =
     bind_proc (apply_requested_poison host) (\<lambda>_. sweep_terminal_entries host)"

definition poison_transport :: "('t, 'x) client_host \<Rightarrow> ('t, 'x, unit) client_proc" where
  "poison_transport host =
     bind_proc (store host (\<lambda>d. d\<lparr>cd_admission_closed := True\<rparr>)) (\<lambda>_.
     bind_proc (store host (\<lambda>d. d\<lparr>cd_poison_requested := True\<rparr>)) (\<lambda>_.
     apply_deferred_poison_and_sweep host))"

definition poison_transport_nonblocking :: "('t, 'x) client_host \<Rightarrow> ('t, 'x, unit) client_proc" where
  "poison_transport_nonblocking host =
     bind_proc (store host (\<lambda>d. d\<lparr>cd_admission_closed := True\<rparr>)) (\<lambda>_.
     bind_proc (store host (\<lambda>d. d\<lparr>cd_poison_requested := True\<rparr>)) (\<lambda>_.
     bind_proc (load host (ch_gate_free host)) (\<lambda>gate_free.
     bind_proc (if gate_free then apply_poison_locked host else return_proc ()) (\<lambda>_.
     bind_proc (load host (ch_requests_free host)) (\<lambda>requests_free.
     if requests_free then clear_requests_locked host else return_proc ())))))"

text \<open>Whether the transport is poisoned, about to be, or in a later epoch.\<close>

definition superseded :: "('t, 'x) client_host \<Rightarrow> u64 \<Rightarrow> ('t, 'x, bool) client_proc" where
  "superseded host epoch =
     or_proc (load host (\<lambda>w. cd_transport_poisoned (cw_dispatcher w)))
       (load host (\<lambda>w. cd_operation_epoch (cw_dispatcher w) \<noteq> epoch))"

definition unusable :: "('t, 'x) client_host \<Rightarrow> u64 \<Rightarrow> ('t, 'x, bool) client_proc" where
  "unusable host epoch =
     or_proc (load host (\<lambda>w. cd_poison_requested (cw_dispatcher w))) (superseded host epoch)"

section \<open>Transport\<close>

definition transport_step ::
    "('t, 'x) client_host \<Rightarrow> u64 \<Rightarrow> ('t \<Rightarrow> 't \<times> 'a adapter_result) \<Rightarrow> ('t, 'x, 'a adapter_poll) client_op" where
  "transport_step host epoch step =
     bind_proc (unusable host epoch) (\<lambda>closed.
     if closed then return_proc (Inl Closed) else
     bind_proc (unusable host epoch) (\<lambda>closed.
     if closed then return_proc (Inl Closed) else
     bind_proc (access host (\<lambda>w. let (t, r) = step (cw_transport w) in (w\<lparr>cw_transport := t\<rparr>, r))) (\<lambda>r.
     case r of
       AdapterPanicked \<Rightarrow> return_proc (Inl (Transport ''transport poll panicked''))
     | AdapterFailed error \<Rightarrow> return_proc (Inl (Transport error))
     | AdapterPolled poll \<Rightarrow>
         bind_proc (unusable host epoch) (\<lambda>closed.
         return_proc (if closed then Inl Closed else Inr poll)))))"

partial_function (option) poll_transport ::
    "('t, 'x) client_host \<Rightarrow> u64 \<Rightarrow> nat \<Rightarrow> ('t \<Rightarrow> 't \<times> unit adapter_result) \<Rightarrow> nat \<Rightarrow> ('t, 'x) client_world
      \<Rightarrow> (('t, 'x) client_world \<times> (broker_client_error, unit) result) option" where
  "poll_transport host epoch deadline step delay w =
     bind_proc (transport_step host epoch step) (\<lambda>polled. case polled of
       Inl error \<Rightarrow> return_proc (Inl error)
     | Inr (Ready _) \<Rightarrow> return_proc (Inr ())
     | Inr Pending \<Rightarrow>
         bind_proc (before_deadline host deadline) (\<lambda>early.
         if early
         then bind_proc (backoff_park host deadline delay) (poll_transport host epoch deadline step)
         else bind_proc (poison_transport host) (\<lambda>_. return_proc (Inl TransportPoisoned)))) w"

definition poll_transport_until ::
    "('t, 'x) client_host \<Rightarrow> u64 \<Rightarrow> nat \<Rightarrow> ('t \<Rightarrow> 't \<times> unit adapter_result) \<Rightarrow> ('t, 'x, unit) client_op" where
  "poll_transport_until host epoch deadline step = poll_transport host epoch deadline step POLL_BACKOFF_MIN"

section \<open>Operations on requests\<close>

definition activate_read :: "('t, 'x) client_host \<Rightarrow> entry_ref \<Rightarrow> ('t, 'x, unit) client_op" where
  "activate_read host r =
     bind_proc (apply_requested_poison host) (\<lambda>poisoned.
     if poisoned then return_proc (Inl Closed) else
     bind_proc (entry_epoch r) (\<lambda>epoch.
     bind_proc (superseded host epoch) (\<lambda>closed.
     if closed then return_proc (Inl Closed) else
     map_proc (map_err (\<lambda>_. Closed)) (lifecycle_exchange host r AWAITING_RESPONSE ACTIVE_READ))))"

definition retire_registry_only :: "('t, 'x) client_host \<Rightarrow> u64 \<Rightarrow> entry_ref \<Rightarrow> ('t, 'x, unit) client_proc" where
  "retire_registry_only host request_id r =
     bind_proc (retire_capacity host r) (\<lambda>_. remove_request_entry host request_id)"

definition finish_client_request ::
    "('t, 'x) client_host \<Rightarrow> u64 \<Rightarrow> entry_ref \<Rightarrow> ('t, 'x, finish_outcome) client_proc" where
  "finish_client_request host request_id r =
     bind_proc (apply_requested_poison host) (\<lambda>_.
     bind_proc (entry_epoch r) (\<lambda>epoch.
     bind_proc (superseded host epoch) (\<lambda>closed.
     if closed then bind_proc (retire_registry_only host request_id r) (\<lambda>_. return_proc Superseded) else
     bind_proc (load host (\<lambda>w. lifecycle_of w r)) (\<lambda>state.
     bind_proc (terminate_entry host r state) (\<lambda>committed.
     bind_proc (retire_registry_only host request_id r) (\<lambda>_.
     if \<not> committed then return_proc Superseded else
     bind_proc (transport_step host epoch (ch_try_discard host request_id)) (\<lambda>discarded.
     bind_proc (case discarded of
         Inr (Ready _) \<Rightarrow> return_proc ()
       | Inr Pending \<Rightarrow> poison_transport host
       | Inl Closed \<Rightarrow> return_proc ()
       | Inl _ \<Rightarrow> poison_transport host) (\<lambda>_.
     return_proc Committed))))))))"

definition finish_result ::
    "('t, 'x) client_host \<Rightarrow> u64 \<Rightarrow> entry_ref \<Rightarrow> (broker_client_error, 'a) result \<Rightarrow> ('t, 'x, 'a) client_op" where
  "finish_result host request_id r outcome =
     map_proc (\<lambda>finished. case finished of Committed \<Rightarrow> outcome | Superseded \<Rightarrow> Inl Closed)
       (finish_client_request host request_id r)"

definition register_awaiting ::
    "('t, 'x) client_host \<Rightarrow> request_class \<Rightarrow> ('t, 'x, u64 \<times> entry_ref) client_op" where
  "register_awaiting host class =
     try_proc (register_request host class) (\<lambda>(request_id, r).
     bind_proc (transition host r REGISTERED AWAITING_RESPONSE) (\<lambda>moved. case moved of
       Inl error \<Rightarrow> bind_proc (finish_client_request host request_id r) (\<lambda>_. return_proc (Inl error))
     | Inr _ \<Rightarrow> return_proc (Inr (request_id, r))))"

definition encode_cancel_frame ::
    "('t, 'x) client_host \<Rightarrow> caller_claim \<Rightarrow> u64 \<Rightarrow> ('t, 'x, u64 \<times> entry_ref \<times> bytes) client_op" where
  "encode_cancel_frame host caller target_request_id =
     try_proc (register_awaiting host Control) (\<lambda>(request_id, r).
     case request_frame (Cancel request_id caller target_request_id) of
       Inl error \<Rightarrow> bind_proc (finish_client_request host request_id r) (\<lambda>_. return_proc (Inl error))
     | Inr frame \<Rightarrow> return_proc (Inr (request_id, r, frame)))"

definition fail_cleanup_nonblocking :: "('t, 'x) client_host \<Rightarrow> u64 \<Rightarrow> entry_ref \<Rightarrow> ('t, 'x, unit) client_proc" where
  "fail_cleanup_nonblocking host request_id r =
     bind_proc (lifecycle_exchange host r ABANDON_QUEUED TERMINAL) (\<lambda>_.
     bind_proc (retire_capacity host r) (\<lambda>_.
     bind_proc (load host (ch_requests_free host)) (\<lambda>requests_free.
     bind_proc (if requests_free then remove_request_entry host request_id else return_proc ()) (\<lambda>_.
     poison_transport_nonblocking host))))"

text \<open>\<open>try_send\<close> on the cleanup channel: whether the task was queued.\<close>

definition try_send_cleanup :: "('t, 'x) client_host \<Rightarrow> cleanup_task \<Rightarrow> ('t, 'x, bool) client_proc" where
  "try_send_cleanup host task = access host (\<lambda>w. let d = cw_dispatcher w in
     if cd_cleanup_receiver d \<and> length (cd_cleanup_queue d) < cd_cleanup_capacity d
     then (w\<lparr>cw_dispatcher := d\<lparr>cd_cleanup_queue := cd_cleanup_queue d @ [task]\<rparr>\<rparr>, True) else (w, False))"

definition queue_abandon_from ::
    "('t, 'x) client_host \<Rightarrow> u64 \<Rightarrow> caller_claim \<Rightarrow> entry_ref \<Rightarrow> u8 \<Rightarrow> ('t, 'x, unit) client_proc" where
  "queue_abandon_from host target_request_id caller r prior =
     bind_proc (entry_epoch r) (\<lambda>epoch.
     bind_proc (try_send_cleanup host \<lparr>ct_target_request_id = target_request_id, ct_caller = caller,
       ct_entry = r, ct_prior = prior, ct_epoch = epoch\<rparr>) (\<lambda>queued.
     if queued then return_proc () else fail_cleanup_nonblocking host target_request_id r))"

definition queue_abandon ::
    "('t, 'x) client_host \<Rightarrow> u64 \<Rightarrow> caller_claim \<Rightarrow> entry_ref \<Rightarrow> ('t, 'x, unit) client_proc" where
  "queue_abandon host target_request_id caller r =
     bind_proc (lifecycle_exchange host r ACTIVE_READ ABANDON_QUEUED) (\<lambda>active. case active of
       Inr _ \<Rightarrow> queue_abandon_from host target_request_id caller r ACTIVE_READ
     | Inl _ \<Rightarrow>
         bind_proc (lifecycle_exchange host r CANCEL_IN_FLIGHT ABANDON_QUEUED) (\<lambda>cancelling. case cancelling of
           Inr _ \<Rightarrow> queue_abandon_from host target_request_id caller r CANCEL_IN_FLIGHT
         | Inl _ \<Rightarrow> return_proc ()))"

section \<open>Cleanup\<close>

text \<open>Telling the transport that the read is abandoned, with the cancellation to send for it.\<close>

definition abandon_over_transport ::
    "('t, 'x) client_host \<Rightarrow> cleanup_task \<Rightarrow> nat \<Rightarrow> (u64 \<times> bytes) option \<Rightarrow> bool \<Rightarrow> ('t, 'x, unit) client_op" where
  "abandon_over_transport host task deadline cancel_frame close_connection =
     bind_proc (load host (\<lambda>w. cd_transport_poisoned (cw_dispatcher w))) (\<lambda>poisoned.
     if poisoned then return_proc (Inl TransportPoisoned) else
     bind_proc (transport_step host (ct_epoch task)
       (ch_begin_abandon host (ct_target_request_id task) cancel_frame close_connection)) (\<lambda>begun. case begun of
       Inr (Ready _) \<Rightarrow> return_proc (Inr ())
     | Inr Pending \<Rightarrow> poll_transport_until host (ct_epoch task) deadline
         (ch_poll_abandon host (ct_target_request_id task))
     | Inl error \<Rightarrow> return_proc (Inl error)))"

definition process_queued_abandon ::
    "('t, 'x) client_host \<Rightarrow> cleanup_task \<Rightarrow> nat \<Rightarrow> ('t, 'x, unit) client_op" where
  "process_queued_abandon host task deadline =
     (let r = ct_entry task in
     bind_proc (load host (\<lambda>w. lifecycle_of w r)) (\<lambda>state.
     if state \<noteq> ABANDON_QUEUED then return_proc (Inr ()) else
     bind_proc (retire_registry_only host (ct_target_request_id task) r) (\<lambda>_.
     bind_proc (superseded host (ct_epoch task)) (\<lambda>closed.
     if closed
     then bind_proc (lifecycle_exchange host r ABANDON_QUEUED TERMINAL) (\<lambda>_. return_proc (Inr ())) else
     try_proc (poll_transport_until host (ct_epoch task) deadline
       (ch_try_discard host (ct_target_request_id task))) (\<lambda>_.
     bind_proc (if ct_prior task = ACTIVE_READ
       then map_proc (\<lambda>encoded. case encoded of Inr sent \<Rightarrow> Some sent | Inl _ \<Rightarrow> None)
         (encode_cancel_frame host (ct_caller task) (ct_target_request_id task))
       else return_proc None) (\<lambda>sent.
     let cancel_frame = map_option (\<lambda>(request_id, _, frame). (request_id, frame)) sent;
         close_connection = (ct_prior task = ACTIVE_READ \<and> sent = None) in
     bind_proc (if close_connection then poison_transport host else return_proc ()) (\<lambda>_.
     bind_proc (abandon_over_transport host task deadline cancel_frame close_connection) (\<lambda>outcome.
     bind_proc (lifecycle_exchange host r ABANDON_QUEUED TERMINAL) (\<lambda>_.
     bind_proc (case sent of
         Some (request_id, cancel_entry, _) \<Rightarrow>
           map_proc (\<lambda>_. ()) (finish_client_request host request_id cancel_entry)
       | None \<Rightarrow> return_proc ()) (\<lambda>_.
     bind_proc (case outcome of Inl _ \<Rightarrow> poison_transport host | Inr _ \<Rightarrow> return_proc ()) (\<lambda>_.
     return_proc outcome)))))))))))"

text \<open>\<open>try_recv\<close> on the cleanup channel, when its receiver was kept.\<close>

definition try_recv_cleanup :: "('t, 'x) client_host \<Rightarrow> ('t, 'x, cleanup_task option) client_proc" where
  "try_recv_cleanup host = access host (\<lambda>w. let d = cw_dispatcher w in
     case cd_cleanup_queue d of
       task # rest \<Rightarrow> if cd_cleanup_receiver d
         then (w\<lparr>cw_dispatcher := d\<lparr>cd_cleanup_queue := rest\<rparr>\<rparr>, Some task) else (w, None)
     | [] \<Rightarrow> (w, None))"

primrec maintenance_loop ::
    "('t, 'x) client_host \<Rightarrow> nat \<Rightarrow> nat \<Rightarrow> nat \<Rightarrow> ('t, 'x, nat) client_op" where
  "maintenance_loop host deadline 0 processed =
     bind_proc (apply_deferred_poison_and_sweep host) (\<lambda>_. return_proc (Inr processed))"
| "maintenance_loop host deadline (Suc steps) processed =
     bind_proc (before_deadline host deadline) (\<lambda>early.
     if \<not> early
     then bind_proc (apply_deferred_poison_and_sweep host) (\<lambda>_. return_proc (Inr processed)) else
     bind_proc (load host (ch_cleanup_poisoned host)) (\<lambda>poisoned.
     if poisoned then return_proc (Inl TransportPoisoned) else
     bind_proc (try_recv_cleanup host) (\<lambda>received. case received of
       None \<Rightarrow> bind_proc (sweep_terminal_entries host) (\<lambda>_. return_proc (Inr processed))
     | Some task \<Rightarrow>
         bind_proc (process_queued_abandon host task deadline) (\<lambda>abandoned. case abandoned of
           Inr _ \<Rightarrow> maintenance_loop host deadline steps (processed + 1)
         | Inl error \<Rightarrow>
             bind_proc (fail_cleanup_nonblocking host (ct_target_request_id task) (ct_entry task)) (\<lambda>_.
             bind_proc (apply_deferred_poison_and_sweep host) (\<lambda>_.
             return_proc (Inl error)))))))"

definition poll_maintenance :: "('t, 'x) client_host \<Rightarrow> nat \<Rightarrow> nat \<Rightarrow> ('t, 'x, nat) client_op" where
  "poll_maintenance host max_steps requested_deadline =
     bind_proc (deadline_after host TRANSPORT_POLL_TIMEOUT) (\<lambda>hard. case hard of
       None \<Rightarrow> return_proc (Inl TransportPoisoned)
     | Some hard_deadline \<Rightarrow>
         bind_proc (apply_deferred_poison_and_sweep host) (\<lambda>_.
         maintenance_loop host (min requested_deadline hard_deadline) max_steps 0))"

definition maintain_before_operation :: "('t, 'x) client_host \<Rightarrow> ('t, 'x, unit) client_op" where
  "maintain_before_operation host =
     bind_proc (deadline_after host TRANSPORT_POLL_TIMEOUT) (\<lambda>deadline. case deadline of
       None \<Rightarrow> return_proc (Inl TransportPoisoned)
     | Some deadline \<Rightarrow>
         map_proc (\<lambda>maintained. bind_result maintained (\<lambda>_. Inr ()))
           (poll_maintenance host MAINTENANCE_STEPS_PER_OPERATION deadline))"

end
