(* ===== verification/Client_Operations.thy ===== *)
theory Client_Operations
  imports Client_Dispatcher
begin

text \<open>
  The operations of a broker client (\<open>JournalBrokerClient\<close>, \<open>PendingReadRange\<close> and
  \<open>PendingReadVolume\<close> of \<open>journal_broker/client.rs\<close>) on the shared dispatcher: sending, receiving,
  cancelling, abandoning and closing.
\<close>

section \<open>Closing\<close>

text \<open>Closing the admission, ending the epoch and clearing the requests: the next epoch.\<close>

definition begin_close_epoch :: "('t, 'x) client_host \<Rightarrow> ('t, 'x, u64) client_proc" where
  "begin_close_epoch host =
     bind_proc (store host (\<lambda>d. d\<lparr>cd_admission_closed := True\<rparr>)) (\<lambda>_.
     bind_proc (access host (\<lambda>w. let d = cw_dispatcher w in
       (w\<lparr>cw_dispatcher := d\<lparr>cd_operation_epoch := cd_operation_epoch d + 1\<rparr>\<rparr>, cd_operation_epoch d + 1))) (\<lambda>epoch.
     bind_proc (clear_requests_locked host) (\<lambda>_. return_proc epoch)))"

definition fail_close_before_poison :: "('t, 'x) client_host \<Rightarrow> u64 \<Rightarrow> ('t, 'x, unit) client_proc" where
  "fail_close_before_poison host epoch =
     bind_proc (unusable host epoch) (\<lambda>closed.
     if closed then return_proc () else
     bind_proc (begin_close_epoch host) (\<lambda>close_epoch.
     bind_proc (deadline_after host TRANSPORT_POLL_TIMEOUT) (\<lambda>deadline. case deadline of
       None \<Rightarrow> poison_transport host
     | Some deadline \<Rightarrow>
         bind_proc (transport_step host close_epoch (ch_begin_close host)) (\<lambda>begun.
         bind_proc (case begun of
             Inr Pending \<Rightarrow> map_proc (\<lambda>_. ()) (poll_transport_until host close_epoch deadline (ch_poll_close host))
           | _ \<Rightarrow> return_proc ()) (\<lambda>_.
         poison_transport host)))))"

definition poison_pending :: "('t, 'x) client_host \<Rightarrow> ('t, 'x, bool) client_proc" where
  "poison_pending host =
     or_proc (load host (\<lambda>w. cd_poison_requested (cw_dispatcher w)))
       (load host (\<lambda>w. cd_transport_poisoned (cw_dispatcher w)))"

text \<open>What the end of the transport's own closing makes of the close state.\<close>

fun conclude_close ::
    "('t, 'x) client_host \<Rightarrow> (broker_client_error, unit) result \<Rightarrow> ('t, 'x, unit) client_op" where
  "conclude_close host (Inr _) =
     map_proc (map_err (\<lambda>_. CloseInProgress)) (close_state_exchange host CLOSE_IN_PROGRESS CLOSE_CONFIRMED)"
| "conclude_close host (Inl TransportPoisoned) = return_proc (Inl TransportPoisoned)"
| "conclude_close host (Inl error) =
     bind_proc (close_state_exchange host CLOSE_IN_PROGRESS CLOSE_UNCONFIRMED) (\<lambda>_. return_proc (Inl error))"

definition close_in_progress :: "('t, 'x) client_host \<Rightarrow> ('t, 'x, unit) client_op" where
  "close_in_progress host =
     bind_proc (poison_pending host) (\<lambda>poisoned.
     if poisoned
     then bind_proc (store host (\<lambda>d. d\<lparr>cd_transport_close_state := CLOSE_POISONED\<rparr>)) (\<lambda>_.
       return_proc (Inl TransportPoisoned)) else
     bind_proc (begin_close_epoch host) (\<lambda>epoch.
     bind_proc (deadline_after host TRANSPORT_POLL_TIMEOUT) (\<lambda>deadline. case deadline of
       None \<Rightarrow> bind_proc (poison_transport host) (\<lambda>_. return_proc (Inl TransportPoisoned))
     | Some deadline \<Rightarrow>
         bind_proc (transport_step host epoch (ch_begin_close host)) (\<lambda>begun.
         bind_proc (case begun of
             Inr (Ready _) \<Rightarrow> return_proc (Inr ())
           | Inr Pending \<Rightarrow> poll_transport_until host epoch deadline (ch_poll_close host)
           | Inl error \<Rightarrow> return_proc (Inl error)) (conclude_close host)))))"

definition close_transport :: "('t, 'x) client_host \<Rightarrow> ('t, 'x, unit) client_op" where
  "close_transport host =
     bind_proc (apply_deferred_poison_and_sweep host) (\<lambda>_.
     bind_proc (poison_pending host) (\<lambda>poisoned.
     if poisoned then return_proc (Inl TransportPoisoned) else
     bind_proc (close_state_exchange host CLOSE_UNCONFIRMED CLOSE_IN_PROGRESS) (\<lambda>exchanged. case exchanged of
       Inr _ \<Rightarrow> close_in_progress host
     | Inl state \<Rightarrow> return_proc (
         if state = CLOSE_CONFIRMED then Inr ()
         else if state = CLOSE_POISONED then Inl TransportPoisoned
         else if state = CLOSE_IN_PROGRESS then Inl CloseInProgress
         else Inl (Transport ''invalid close state'')))))"

section \<open>Sending and receiving\<close>

partial_function (option) send_frame ::
    "('t, 'x) client_host \<Rightarrow> bytes \<Rightarrow> u64 \<Rightarrow> nat \<Rightarrow> nat \<Rightarrow> ('t, 'x) client_world
      \<Rightarrow> (('t, 'x) client_world \<times> (broker_client_error, unit) result) option" where
  "send_frame host frame epoch deadline delay w =
     bind_proc (transport_step host epoch (ch_try_send_frame host frame)) (\<lambda>sent. case sent of
       Inr (Ready _) \<Rightarrow> return_proc (Inr ())
     | Inr Pending \<Rightarrow>
         bind_proc (before_deadline host deadline) (\<lambda>early.
         if early
         then bind_proc (backoff_park host deadline delay) (send_frame host frame epoch deadline)
         else return_proc (Inl TransportPoisoned))
     | Inl error \<Rightarrow> return_proc (Inl error)) w"

fun is_transport_error :: "broker_client_error \<Rightarrow> bool" where
  "is_transport_error (Transport _) = True"
| "is_transport_error _ = False"

definition send_request :: "('t, 'x) client_host \<Rightarrow> broker_request \<Rightarrow> u64 \<Rightarrow> ('t, 'x, unit) client_op" where
  "send_request host request epoch = (case request_frame request of
     Inl error \<Rightarrow> return_proc (Inl error)
   | Inr frame \<Rightarrow>
       bind_proc (deadline_after host TRANSPORT_POLL_TIMEOUT) (\<lambda>deadline. case deadline of
         None \<Rightarrow> return_proc (Inl TransportPoisoned)
       | Some deadline \<Rightarrow>
           bind_proc (send_frame host frame epoch deadline POLL_BACKOFF_MIN) (\<lambda>sent.
           bind_proc (case sent of
               Inl error \<Rightarrow> if is_transport_error error \<or> error = TransportPoisoned
                 then fail_close_before_poison host epoch else return_proc ()
             | Inr _ \<Rightarrow> return_proc ()) (\<lambda>_.
           return_proc sent))))"

partial_function (option) await_frame ::
    "('t, 'x) client_host \<Rightarrow> u64 \<Rightarrow> u64 \<Rightarrow> nat \<Rightarrow> nat \<Rightarrow> ('t, 'x) client_world
      \<Rightarrow> (('t, 'x) client_world \<times> (broker_client_error, bytes) result) option" where
  "await_frame host request_id epoch deadline delay w =
     bind_proc (transport_step host epoch (ch_poll_response host request_id)) (\<lambda>polled. case polled of
       Inr (Ready frame) \<Rightarrow> return_proc (Inr frame)
     | Inr Pending \<Rightarrow>
         bind_proc (before_deadline host deadline) (\<lambda>early.
         if early
         then bind_proc (backoff_park host deadline delay) (await_frame host request_id epoch deadline)
         else bind_proc (transport_step host epoch (ch_try_discard host request_id)) (\<lambda>_.
           bind_proc (fail_close_before_poison host epoch) (\<lambda>_.
           return_proc (Inl TransportPoisoned))))
     | Inl error \<Rightarrow>
         bind_proc (if is_transport_error error then fail_close_before_poison host epoch else return_proc ()) (\<lambda>_.
         return_proc (Inl error))) w"

definition receive_response ::
    "('t, 'x) client_host \<Rightarrow> u64 \<Rightarrow> nat \<Rightarrow> bytes \<Rightarrow> u64 \<Rightarrow> ('t, 'x, broker_response) client_op" where
  "receive_response host request_id timeout expected_client_instance epoch =
     bind_proc (deadline_after host timeout) (\<lambda>deadline. case deadline of
       None \<Rightarrow> return_proc (Inl TransportPoisoned)
     | Some deadline \<Rightarrow>
         map_proc (\<lambda>received. bind_result received (receive_frame request_id expected_client_instance))
           (await_frame host request_id epoch deadline POLL_BACKOFF_MIN))"

section \<open>Cancelling and abandoning\<close>

definition SECOND :: nat where "SECOND = 1000000000"

definition send_cancel_control ::
    "('t, 'x) client_host \<Rightarrow> u64 \<Rightarrow> caller_claim \<Rightarrow> ('t, 'x, unit) client_op" where
  "send_cancel_control host target_request_id caller =
     try_proc (register_awaiting host Control) (\<lambda>(request_id, r).
     bind_proc (entry_epoch r) (\<lambda>epoch.
     bind_proc (try_proc (send_request host (Cancel request_id caller target_request_id) epoch) (\<lambda>_.
       map_proc (\<lambda>received. bind_result received (check_cancelled caller target_request_id))
         (receive_response host request_id SECOND (cc_client_instance caller) epoch))) (\<lambda>outcome.
     finish_result host request_id r outcome)))"

text \<open>The loop that takes over the cancellation of a request, from the state it last saw.\<close>

partial_function (option) claim_cancellation ::
    "('t, 'x) client_host \<Rightarrow> entry_ref \<Rightarrow> u8 \<Rightarrow> ('t, 'x) client_world
      \<Rightarrow> (('t, 'x) client_world \<times> (broker_client_error, bool) result) option" where
  "claim_cancellation host r state w =
     (if state = AWAITING_RESPONSE \<or> state = ACTIVE_READ
      then bind_proc (lifecycle_exchange host r state CANCEL_IN_FLIGHT) (\<lambda>exchanged. case exchanged of
         Inr _ \<Rightarrow> return_proc (Inr True)
       | Inl current \<Rightarrow> claim_cancellation host r current) w
      else if state = CANCEL_IN_FLIGHT then Some (w, Inr False)
      else Some (w, Inl ClientRequestNotActive))"

text \<open>A cancelled read has ended as it should.\<close>

definition cancelled_is_ok :: "(broker_client_error, 'a) result \<Rightarrow> (broker_client_error, unit) result" where
  "cancelled_is_ok outcome = (case outcome of
     Inr _ \<Rightarrow> Inr () | Inl error \<Rightarrow> if error = ClientCancelled then Inr () else Inl error)"

definition abandon_bounded ::
    "('t, 'x) client_host \<Rightarrow> u64 \<Rightarrow> caller_claim \<Rightarrow> entry_ref \<Rightarrow> ('t, 'x, unit) client_op" where
  "abandon_bounded host target_request_id caller r =
     bind_proc (load host (\<lambda>w. lifecycle_of w r)) (\<lambda>state.
     try_proc (claim_cancellation host r state) (\<lambda>needs_cancel.
     bind_proc (if needs_cancel then send_cancel_control host target_request_id caller
       else return_proc (Inr ())) (\<lambda>cancel_result.
     bind_proc (entry_epoch r) (\<lambda>epoch.
     bind_proc (receive_response host target_request_id SECOND (cc_client_instance caller) epoch) (\<lambda>received.
     bind_proc (finish_result host target_request_id r (cancelled_is_ok received)) (\<lambda>final_result.
     bind_proc (if cancel_result \<noteq> Inr () \<or> final_result \<noteq> Inr ()
       then map_proc (\<lambda>_. ()) (close_transport host) else return_proc ()) (\<lambda>_.
     return_proc (bind_result cancel_result (\<lambda>_. final_result)))))))))"

text \<open>
  How an operation ends a request: a result, a cancellation or a failure of the service finishes it,
  any other error abandons it.
\<close>

fun ends_request :: "(broker_client_error, 'a) result \<Rightarrow> bool" where
  "ends_request (Inr _) = True"
| "ends_request (Inl ClientCancelled) = True"
| "ends_request (Inl (Remote _)) = True"
| "ends_request (Inl _) = False"

definition conclude_request ::
    "('t, 'x) client_host \<Rightarrow> u64 \<Rightarrow> caller_claim \<Rightarrow> entry_ref \<Rightarrow> (broker_client_error, 'a) result
      \<Rightarrow> ('t, 'x, 'a) client_op" where
  "conclude_request host request_id caller r response =
     (if ends_request response then finish_result host request_id r response
      else bind_proc (abandon_bounded host request_id caller r) (\<lambda>_. return_proc response))"

section \<open>Queries and registrations\<close>

definition ensure_open :: "('t, 'x) client_host \<Rightarrow> ('t, 'x, unit) client_op" where
  "ensure_open host = load host (\<lambda>w. if cd_admission_closed (cw_dispatcher w) then Inl Closed else Inr ())"

definition timeout_of :: "u32 \<Rightarrow> nat" where
  "timeout_of timeout_ms = unat timeout_ms * 1000000"

text \<open>The part that queries and registrations share: one request, one response and its check.\<close>

definition exchange ::
    "('t, 'x) client_host \<Rightarrow> (u64 \<Rightarrow> broker_request) \<Rightarrow> caller_claim \<Rightarrow> u32
      \<Rightarrow> (broker_response \<Rightarrow> (broker_client_error, 'a) result) \<Rightarrow> ('t, 'x, 'a) client_op" where
  "exchange host request caller timeout_ms check =
     try_proc (register_awaiting host Business) (\<lambda>(request_id, r).
     bind_proc (entry_epoch r) (\<lambda>epoch.
     bind_proc (send_request host (request request_id) epoch) (\<lambda>sent. case sent of
       Inl error \<Rightarrow> bind_proc (finish_client_request host request_id r) (\<lambda>_. return_proc (Inl error))
     | Inr _ \<Rightarrow>
         bind_proc (receive_response host request_id (timeout_of timeout_ms) (cc_client_instance caller) epoch)
           (\<lambda>received. conclude_request host request_id caller r (bind_result received check)))))"

definition client_query_journal ::
    "('t, 'x) client_host \<Rightarrow> query_journal_request \<Rightarrow> ('t, 'x, broker_response) client_op" where
  "client_query_journal host request =
     try_proc (maintain_before_operation host) (\<lambda>_.
     try_proc (ensure_open host) (\<lambda>_.
     try_proc (return_proc (map_err map_local_wire (query_journal_validate request))) (\<lambda>_.
     exchange host (\<lambda>request_id. QueryJournal request_id request) (qj_caller request) (qj_timeout_ms request)
       (check_journal (cc_client_instance (qj_caller request)) (qj_root request)))))"

definition client_register_root ::
    "('t, 'x) client_host \<Rightarrow> register_root_request \<Rightarrow> ('t, 'x, root_capability) client_op" where
  "client_register_root host request =
     try_proc (maintain_before_operation host) (\<lambda>_.
     try_proc (ensure_open host) (\<lambda>_.
     try_proc (return_proc (map_err map_local_wire (register_root_validate request))) (\<lambda>_.
     exchange host (\<lambda>request_id. RegisterRoot request_id request) (rg_caller request) (rg_timeout_ms request)
       (check_registered (cc_client_instance (rg_caller request)) (rg_root request)))))"

section \<open>Reads\<close>

text \<open>The dispatcher a handle belongs to is named by its address.\<close>

record pending_cancel_handle =
  ph_dispatcher :: nat
  ph_target_request_id :: u64
  ph_client_instance :: bytes
  ph_entry :: entry_ref

text \<open>A pending read, with what it expects of its response.\<close>

record 'p pending_read =
  pd_cancel_handle :: pending_cancel_handle
  pd_expected :: 'p
  pd_timeout :: nat
  pd_caller :: caller_claim
  pd_is_armed :: bool

text \<open>The part that both kinds of reads share: the request, its acceptance and its activation.\<close>

definition begin_read ::
    "('t, 'x) client_host \<Rightarrow> nat \<Rightarrow> (u64 \<Rightarrow> broker_request) \<Rightarrow> caller_claim \<Rightarrow> u32 \<Rightarrow> 'p
      \<Rightarrow> (broker_response \<Rightarrow> (broker_client_error, unit) result) \<Rightarrow> ('t, 'x, 'p pending_read) client_op" where
  "begin_read host dispatcher request caller timeout_ms expected check_accepted =
     try_proc (register_awaiting host Business) (\<lambda>(request_id, r).
     bind_proc (entry_epoch r) (\<lambda>epoch.
     bind_proc (send_request host (request request_id) epoch) (\<lambda>sent. case sent of
       Inl error \<Rightarrow> bind_proc (finish_client_request host request_id r) (\<lambda>_. return_proc (Inl error))
     | Inr _ \<Rightarrow>
         bind_proc (receive_response host request_id (min SECOND (timeout_of timeout_ms))
           (cc_client_instance caller) epoch) (\<lambda>received. case bind_result received check_accepted of
           Inl error \<Rightarrow> bind_proc (abandon_bounded host request_id caller r) (\<lambda>_. return_proc (Inl error))
         | Inr _ \<Rightarrow>
             bind_proc (activate_read host r) (\<lambda>activated. case activated of
               Inl error \<Rightarrow>
                 bind_proc (load host (\<lambda>w. lifecycle_of w r)) (\<lambda>state.
                 bind_proc (if state \<noteq> TERMINAL
                   then map_proc (\<lambda>_. ()) (finish_client_request host request_id r) else return_proc ()) (\<lambda>_.
                 return_proc (Inl error)))
             | Inr _ \<Rightarrow> return_proc (Inr
                 \<lparr>pd_cancel_handle = \<lparr>ph_dispatcher = dispatcher, ph_target_request_id = request_id,
                    ph_client_instance = cc_client_instance caller, ph_entry = r\<rparr>,
                  pd_expected = expected, pd_timeout = timeout_of timeout_ms, pd_caller = caller,
                  pd_is_armed = True\<rparr>))))))"

definition begin_read_range ::
    "('t, 'x) client_host \<Rightarrow> nat \<Rightarrow> read_journal_range_request
      \<Rightarrow> ('t, 'x, pending_read_range pending_read) client_op" where
  "begin_read_range host dispatcher request =
     try_proc (maintain_before_operation host) (\<lambda>_.
     try_proc (ensure_open host) (\<lambda>_.
     try_proc (return_proc (map_err map_local_wire (read_journal_range_validate request))) (\<lambda>_.
     begin_read host dispatcher (\<lambda>request_id. ReadRange request_id request) (rj_caller request)
       (rj_timeout_ms request) (expect_range request) (check_range_accepted (expect_range request)))))"

definition begin_read_volume ::
    "('t, 'x) client_host \<Rightarrow> nat \<Rightarrow> read_journal_volume_request
      \<Rightarrow> ('t, 'x, pending_read_volume pending_read) client_op" where
  "begin_read_volume host dispatcher request =
     try_proc (maintain_before_operation host) (\<lambda>_.
     try_proc (ensure_open host) (\<lambda>_.
     try_proc (return_proc (map_err map_local_wire (read_journal_volume_validate request))) (\<lambda>_.
     begin_read host dispatcher (\<lambda>request_id. ReadVolume request_id request) (rv_caller request)
       (rv_timeout_ms request) (expect_volume request) (check_volume_accepted request))))"

text \<open>\<open>wait\<close> consumes the pending read, so its being disarmed is not seen again.\<close>

definition wait_read ::
    "('t, 'x) client_host \<Rightarrow> ('p \<Rightarrow> broker_response \<Rightarrow> (broker_client_error, broker_response) result)
      \<Rightarrow> 'p pending_read \<Rightarrow> ('t, 'x, broker_response) client_op" where
  "wait_read host check self =
     (let handle = pd_cancel_handle self in
     bind_proc (entry_epoch (ph_entry handle)) (\<lambda>epoch.
     bind_proc (receive_response host (ph_target_request_id handle) (pd_timeout self)
       (ph_client_instance handle) epoch) (\<lambda>received.
     conclude_request host (ph_target_request_id handle) (pd_caller self) (ph_entry handle)
       (bind_result received (check (pd_expected self))))))"

definition wait_range ::
    "('t, 'x) client_host \<Rightarrow> pending_read_range pending_read \<Rightarrow> ('t, 'x, broker_response) client_op" where
  "wait_range host = wait_read host check_range"

definition wait_volume ::
    "('t, 'x) client_host \<Rightarrow> pending_read_volume pending_read \<Rightarrow> ('t, 'x, broker_response) client_op" where
  "wait_volume host = wait_read host check_volume"

definition read_range ::
    "('t, 'x) client_host \<Rightarrow> nat \<Rightarrow> read_journal_range_request \<Rightarrow> ('t, 'x, broker_response) client_op" where
  "read_range host dispatcher request = try_proc (begin_read_range host dispatcher request) (wait_range host)"

definition abandon_read :: "('t, 'x) client_host \<Rightarrow> 'p pending_read \<Rightarrow> ('t, 'x, unit) client_op" where
  "abandon_read host self = abandon_bounded host (ph_target_request_id (pd_cancel_handle self)) (pd_caller self)
     (ph_entry (pd_cancel_handle self))"

definition drop_read :: "('t, 'x) client_host \<Rightarrow> 'p pending_read \<Rightarrow> ('t, 'x, 'p pending_read) client_proc" where
  "drop_read host self =
     (if pd_is_armed self
      then bind_proc (queue_abandon host (ph_target_request_id (pd_cancel_handle self)) (pd_caller self)
        (ph_entry (pd_cancel_handle self))) (\<lambda>_. return_proc (self\<lparr>pd_is_armed := False\<rparr>))
      else return_proc self)"

definition client_cancel ::
    "('t, 'x) client_host \<Rightarrow> nat \<Rightarrow> pending_cancel_handle \<Rightarrow> caller_claim \<Rightarrow> ('t, 'x, unit) client_op" where
  "client_cancel host dispatcher pending caller =
     try_proc (maintain_before_operation host) (\<lambda>_.
     try_proc (ensure_open host) (\<lambda>_.
     if dispatcher \<noteq> ph_dispatcher pending then return_proc (Inl ForeignPendingHandle) else
     try_proc (return_proc (map_err map_local_wire (caller_claim_validate caller))) (\<lambda>_.
     if cc_client_instance caller \<noteq> ph_client_instance pending then return_proc (Inl ResponseBindingMismatch) else
     try_proc (transition host (ph_entry pending) ACTIVE_READ CANCEL_IN_FLIGHT) (\<lambda>_.
     bind_proc (send_cancel_control host (ph_target_request_id pending) caller) (\<lambda>outcome.
     bind_proc (case outcome of
         Inl _ \<Rightarrow> map_proc (\<lambda>_. ()) (lifecycle_exchange host (ph_entry pending) CANCEL_IN_FLIGHT ACTIVE_READ)
       | Inr _ \<Rightarrow> return_proc ()) (\<lambda>_.
     return_proc outcome))))))"

definition client_close :: "('t, 'x) client_host \<Rightarrow> ('t, 'x, unit) client_op" where
  "client_close host = bind_proc (maintain_before_operation host) (\<lambda>_. close_transport host)"

section \<open>A new client\<close>

record 't owned_broker_connection =
  oc_transport :: 't
  oc_connection_id :: bytes
  oc_connection_generation :: u64
  oc_connection_nonce :: u64

definition from_adapter ::
    "'t \<Rightarrow> bytes \<Rightarrow> u64 \<Rightarrow> u64 \<Rightarrow> (broker_client_error, 't owned_broker_connection) result" where
  "from_adapter transport connection_id connection_generation connection_nonce =
     (if connection_id = replicate 16 0 \<or> connection_generation = 0 \<or> connection_nonce = 0
      then Inl InvalidRequest
      else Inr \<lparr>oc_transport = transport, oc_connection_id = connection_id,
        oc_connection_generation = connection_generation, oc_connection_nonce = connection_nonce\<rparr>)"

definition dispatcher_new :: "'t owned_broker_connection \<Rightarrow> nat \<Rightarrow> bool \<Rightarrow> client_dispatcher" where
  "dispatcher_new connection cleanup_capacity retain_cleanup_receiver =
     \<lparr>cd_connection_id = oc_connection_id connection,
      cd_connection_generation = oc_connection_generation connection,
      cd_connection_nonce = oc_connection_nonce connection, cd_operation_epoch = 1,
      cd_transport_poisoned = False, cd_poison_requested = False, cd_next_request_id = 1,
      cd_admission_closed = False, cd_transport_close_state = CLOSE_UNCONFIRMED,
      cd_business_count = 0, cd_control_count = 0, cd_requests = [], cd_cleanup_queue = [],
      cd_cleanup_capacity = cleanup_capacity, cd_cleanup_receiver = retain_cleanup_receiver\<rparr>"

definition client_new :: "'t owned_broker_connection \<Rightarrow> nat \<Rightarrow> 'x \<Rightarrow> ('t, 'x) client_world" where
  "client_new connection now rest =
     \<lparr>cw_dispatcher = dispatcher_new connection MAX_BUSINESS_REQUESTS_PER_CLIENT True, cw_entries = [],
      cw_transport = oc_transport connection, cw_now = now, cw_transit = (\<lambda>_. 0), cw_rest = rest\<rparr>"

section \<open>Errors of a session\<close>

datatype operation_error =
    SessionClosed | SessionCloseInProgress | SessionInvalidRequest | CapacityExceeded
  | SessionProtocolMismatch | SessionCancelled | SessionRequestNotActive | ResponseIntegrity
  | TransportUnavailable | SessionRemote broker_failure_code

fun operation_error_from :: "broker_client_error \<Rightarrow> operation_error" where
  "operation_error_from Closed = SessionClosed"
| "operation_error_from CloseInProgress = SessionCloseInProgress"
| "operation_error_from InvalidRequest = SessionInvalidRequest"
| "operation_error_from (Frame _) = SessionInvalidRequest"
| "operation_error_from RequestIdExhausted = CapacityExceeded"
| "operation_error_from PendingLimitExceeded = CapacityExceeded"
| "operation_error_from ClientProtocolMismatch = SessionProtocolMismatch"
| "operation_error_from ClientCancelled = SessionCancelled"
| "operation_error_from ClientRequestNotActive = SessionRequestNotActive"
| "operation_error_from RequestMismatch = ResponseIntegrity"
| "operation_error_from ResponseBindingMismatch = ResponseIntegrity"
| "operation_error_from RangeBindingMismatch = ResponseIntegrity"
| "operation_error_from EvidenceBindingMismatch = ResponseIntegrity"
| "operation_error_from MalformedResponse = ResponseIntegrity"
| "operation_error_from ForeignPendingHandle = ResponseIntegrity"
| "operation_error_from UnexpectedResponse = ResponseIntegrity"
| "operation_error_from TransportPoisoned = TransportUnavailable"
| "operation_error_from (Transport _) = TransportUnavailable"
| "operation_error_from (Remote failure) = SessionRemote (failure_code_of failure)"

section \<open>The session\<close>

text \<open>The session of a client and its pending reads, with the errors the rest of the program sees.\<close>

type_synonym ('t, 'x, 'a) session_op = "('t, 'x, (operation_error, 'a) result) client_proc"

datatype broker_pending_read_kind =
    PendingRoot "pending_read_range pending_read" | PendingVolume "pending_read_volume pending_read"

record broker_pending_read =
  bp_client :: nat
  bp_pending :: "broker_pending_read_kind option"
  bp_cancel_handle :: pending_cancel_handle

definition pending_read_cancel ::
    "('t, 'x) client_host \<Rightarrow> broker_pending_read \<Rightarrow> caller_claim \<Rightarrow> ('t, 'x, unit) session_op" where
  "pending_read_cancel host self caller =
     map_proc (map_err operation_error_from) (client_cancel host (bp_client self) (bp_cancel_handle self) caller)"

definition pending_read_wait ::
    "('t, 'x) client_host \<Rightarrow> broker_pending_read \<Rightarrow> ('t, 'x, broker_response) session_op" where
  "pending_read_wait host self = (case bp_pending self of
     None \<Rightarrow> return_proc (Inl SessionRequestNotActive)
   | Some (PendingRoot pending) \<Rightarrow> map_proc (map_err operation_error_from) (wait_range host pending)
   | Some (PendingVolume pending) \<Rightarrow> map_proc (map_err operation_error_from) (wait_volume host pending))"

definition session_register_root ::
    "('t, 'x) client_host \<Rightarrow> register_root_request \<Rightarrow> ('t, 'x, root_capability) session_op" where
  "session_register_root host request = map_proc (map_err operation_error_from) (client_register_root host request)"

definition session_query_journal ::
    "('t, 'x) client_host \<Rightarrow> query_journal_request \<Rightarrow> ('t, 'x, broker_response) session_op" where
  "session_query_journal host request = map_proc (map_err operation_error_from) (client_query_journal host request)"

definition session_begin_read_range ::
    "('t, 'x) client_host \<Rightarrow> nat \<Rightarrow> read_journal_range_request \<Rightarrow> ('t, 'x, broker_pending_read) session_op" where
  "session_begin_read_range host dispatcher request =
     map_proc (\<lambda>begun. bind_result (map_err operation_error_from begun) (\<lambda>pending.
       Inr \<lparr>bp_client = dispatcher, bp_pending = Some (PendingRoot pending),
         bp_cancel_handle = pd_cancel_handle pending\<rparr>))
       (begin_read_range host dispatcher request)"

definition session_begin_read_volume ::
    "('t, 'x) client_host \<Rightarrow> nat \<Rightarrow> read_journal_volume_request \<Rightarrow> ('t, 'x, broker_pending_read) session_op" where
  "session_begin_read_volume host dispatcher request =
     map_proc (\<lambda>begun. bind_result (map_err operation_error_from begun) (\<lambda>pending.
       Inr \<lparr>bp_client = dispatcher, bp_pending = Some (PendingVolume pending),
         bp_cancel_handle = pd_cancel_handle pending\<rparr>))
       (begin_read_volume host dispatcher request)"

definition session_close :: "('t, 'x) client_host \<Rightarrow> ('t, 'x, unit) session_op" where
  "session_close host = map_proc (map_err operation_error_from) (client_close host)"

end
