(* ===== verification/Client_Rely.thy ===== *)
theory Client_Rely
  imports Client_Operations
begin

text \<open>
  What the threads of a broker client rely on of each other and keep themselves: how entries,
  identifiers and flags may change, and the accounting of the capacity. Every operation is shown to
  keep it whatever the other threads do between its accesses, as long as they keep it too.
\<close>

section \<open>What never comes back\<close>

definition entry_persists :: "request_entry \<Rightarrow> request_entry \<Rightarrow> bool" where
  "entry_persists e e' \<longleftrightarrow> re_class e' = re_class e \<and> re_epoch e' = re_epoch e
     \<and> (re_lifecycle e = TERMINAL \<longrightarrow> re_lifecycle e' = TERMINAL)
     \<and> (re_is_registered e' \<longrightarrow> re_is_registered e)"

definition dispatcher_persists :: "client_dispatcher \<Rightarrow> client_dispatcher \<Rightarrow> bool" where
  "dispatcher_persists d d' \<longleftrightarrow> cd_next_request_id d \<le> cd_next_request_id d'
     \<and> (cd_admission_closed d \<longrightarrow> cd_admission_closed d')
     \<and> (cd_transport_poisoned d \<longrightarrow> cd_transport_poisoned d')
     \<and> (cd_poison_requested d \<longrightarrow> cd_poison_requested d')"

definition persists :: "('t, 'x) client_world \<Rightarrow> ('t, 'x) client_world \<Rightarrow> bool" where
  "persists w w' \<longleftrightarrow> length (cw_entries w) \<le> length (cw_entries w')
     \<and> (\<forall>r < length (cw_entries w). entry_persists (cw_entries w ! r) (cw_entries w' ! r))
     \<and> dispatcher_persists (cw_dispatcher w) (cw_dispatcher w')"

lemma entry_persists_refl [simp]: "entry_persists e e"
  by (simp add: entry_persists_def)

lemma entry_persists_trans: "entry_persists a b \<Longrightarrow> entry_persists b c \<Longrightarrow> entry_persists a c"
  by (auto simp: entry_persists_def)

lemma dispatcher_persists_refl [simp]: "dispatcher_persists d d"
  by (simp add: dispatcher_persists_def)

lemma persists_refl [simp]: "persists w w"
  by (simp add: persists_def)

lemma persists_trans [trans]: "persists a b \<Longrightarrow> persists b c \<Longrightarrow> persists a c"
  unfolding persists_def dispatcher_persists_def by (auto intro: entry_persists_trans)

section \<open>The accounting\<close>

definition registered :: "request_class \<Rightarrow> request_entry list \<Rightarrow> nat" where
  "registered class entries = length (filter (\<lambda>e. re_is_registered e \<and> re_class e = class) entries)"

definition refs_valid :: "('t, 'x) client_world \<Rightarrow> bool" where
  "refs_valid w \<longleftrightarrow> (\<forall>p \<in> set (cd_requests (cw_dispatcher w)). snd p < length (cw_entries w))
     \<and> (\<forall>task \<in> set (cd_cleanup_queue (cw_dispatcher w)). ct_entry task < length (cw_entries w))"

text \<open>
  With the slots \<open>held\<close> that this thread holds between two accesses: each counter is the number of
  registered entries and of slots in transit, and within its limit.
\<close>

definition accounted :: "(request_class \<Rightarrow> nat) \<Rightarrow> ('t, 'x) client_world \<Rightarrow> bool" where
  "accounted held w \<longleftrightarrow> refs_valid w
     \<and> (\<forall>class. registered class (cw_entries w) + cw_transit w class + held class \<le> class_limit class
          \<and> unat (class_count class (cw_dispatcher w)) = registered class (cw_entries w) + cw_transit w class + held class)"

definition one_more :: "request_class \<Rightarrow> (request_class \<Rightarrow> nat) \<Rightarrow> request_class \<Rightarrow> nat" where
  "one_more c held = held(c := held c + 1)"

definition holds :: "entry_ref set \<Rightarrow> (request_class \<Rightarrow> nat) \<Rightarrow> ('t, 'x) client_world \<Rightarrow> bool" where
  "holds refs held w \<longleftrightarrow> (\<forall>r \<in> refs. r < length (cw_entries w)) \<and> accounted held w"

text \<open>What a thread relies on of the others, and of the order a map is drained in.\<close>

definition cooperates :: "('t, 'x) client_host \<Rightarrow> bool" where
  "cooperates host \<longleftrightarrow> (\<forall>w. persists w (ch_interfere host w)
       \<and> (\<forall>held. accounted held w \<longrightarrow> accounted held (ch_interfere host w)))
     \<and> (\<forall>xs. set (ch_drain_order host xs) = set xs)"

definition triple ::
    "(('t, 'x) client_world \<Rightarrow> bool) \<Rightarrow> ('t, 'x, 'a) client_proc \<Rightarrow> ('a \<Rightarrow> ('t, 'x) client_world \<Rightarrow> bool) \<Rightarrow> bool" where
  "triple P f Q \<longleftrightarrow> (\<forall>w w' a. f w = Some (w', a) \<longrightarrow> persists w w' \<and> (P w \<longrightarrow> Q a w'))"

named_theorems triple_intro

lemma triple_return: "(\<And>w. P w \<Longrightarrow> Q a w) \<Longrightarrow> triple P (return_proc a) Q"
  by (simp add: triple_def return_proc_def)

lemma triple_return_same [triple_intro]: "triple P (return_proc a) (\<lambda>_. P)"
  by (rule triple_return)

lemma triple_bind [triple_intro]:
  "triple P f Q \<Longrightarrow> (\<And>a. triple (Q a) (k a) R) \<Longrightarrow> triple P (bind_proc f k) R"
  unfolding triple_def bind_proc_eq_Some by (meson persists_trans)

lemma triple_map [triple_intro]: "triple P f (\<lambda>a. Q (g a)) \<Longrightarrow> triple P (map_proc g f) Q"
  unfolding map_proc_def by (rule triple_bind) (assumption | rule triple_return)+

lemma triple_weaken: "triple P f Q \<Longrightarrow> (\<And>a w. Q a w \<Longrightarrow> R a w) \<Longrightarrow> triple P f R"
  by (auto simp: triple_def)

lemma triple_try:
  "triple P f (\<lambda>r. case r of Inl _ \<Rightarrow> Q | Inr a \<Rightarrow> R a) \<Longrightarrow> (\<And>a. triple (R a) (k a) T)
    \<Longrightarrow> (\<And>e w. Q w \<Longrightarrow> T (Inl e) w) \<Longrightarrow> triple P (try_proc f k) T"
  unfolding triple_def try_proc_def bind_proc_eq_Some
  by (fastforce simp: return_proc_def intro: persists_trans split: sum.splits)

lemma triple_try_same [triple_intro]:
  "triple P f (\<lambda>_. P) \<Longrightarrow> (\<And>a. triple P (k a) (\<lambda>_. P)) \<Longrightarrow> triple P (try_proc f k) (\<lambda>_. P)"
  by (rule triple_try [where Q = P and R = "\<lambda>_. P"]) (auto elim: triple_weaken split: sum.split)

lemma triple_or [triple_intro]:
  "triple P f (\<lambda>_. P) \<Longrightarrow> triple P g (\<lambda>_. P) \<Longrightarrow> triple P (or_proc f g) (\<lambda>_. P)"
  unfolding or_proc_def by (auto intro!: triple_bind triple_return)

lemma triple_if [triple_intro]:
  "triple P f Q \<Longrightarrow> triple P g Q \<Longrightarrow> triple P (if b then f else g) Q"
  by simp

lemma triple_sum [triple_intro]:
  "(\<And>a. triple P (f a) Q) \<Longrightarrow> (\<And>b. triple P (g b) Q) \<Longrightarrow> triple P (case x of Inl a \<Rightarrow> f a | Inr b \<Rightarrow> g b) Q"
  by (cases x) simp_all

lemma triple_option [triple_intro]:
  "triple P f Q \<Longrightarrow> (\<And>b. triple P (g b) Q) \<Longrightarrow> triple P (case x of None \<Rightarrow> f | Some b \<Rightarrow> g b) Q"
  by (cases x) simp_all

lemma triple_poll [triple_intro]:
  "(\<And>a. triple P (f a) Q) \<Longrightarrow> triple P g Q \<Longrightarrow> triple P (case x of Ready a \<Rightarrow> f a | Pending \<Rightarrow> g) Q"
  by (cases x) simp_all

lemma triple_adapter [triple_intro]:
  "triple P f Q \<Longrightarrow> (\<And>e. triple P (g e) Q) \<Longrightarrow> (\<And>p. triple P (k p) Q)
    \<Longrightarrow> triple P (case x of AdapterPanicked \<Rightarrow> f | AdapterFailed e \<Rightarrow> g e | AdapterPolled p \<Rightarrow> k p) Q"
  by (cases x) simp_all

lemma triple_error [triple_intro]:
  "triple P f Q \<Longrightarrow> triple P g Q \<Longrightarrow> triple P (case e of Closed \<Rightarrow> f | _ \<Rightarrow> g) Q"
  by (cases e) simp_all

lemma triple_pair [triple_intro]:
  "(\<And>a b. triple P (f a b) Q) \<Longrightarrow> triple P (case x of (a, b) \<Rightarrow> f a b) Q"
  by (cases x) simp_all

lemma triple_each [triple_intro]:
  "(\<And>x. x \<in> set xs \<Longrightarrow> triple P (f x) (\<lambda>_. P)) \<Longrightarrow> triple P (each_proc f xs) (\<lambda>_. P)"
  by (induction xs) (auto intro!: triple_return triple_bind)

lemma triple_read [triple_intro]:
  "triple P (entry_epoch r) (\<lambda>_. P)" "triple P (entry_class r) (\<lambda>_. P)"
  by (simp_all add: triple_def entry_epoch_def entry_class_def)

section \<open>Accesses\<close>

lemma persists_dispatcher:
  "dispatcher_persists (cw_dispatcher w) d \<Longrightarrow> persists w (w\<lparr>cw_dispatcher := d\<rparr>)"
  by (simp add: persists_def)

lemma persists_entry:
  "(r < length (cw_entries w) \<Longrightarrow> entry_persists (cw_entries w ! r) e)
    \<Longrightarrow> persists w (w\<lparr>cw_entries := (cw_entries w)[r := e]\<rparr>)"
  by (cases "r < length (cw_entries w)") (auto simp: persists_def nth_list_update)

lemma registered_update:
  assumes "r < length es" and "re_class e = re_class (es ! r)"
  shows "registered class (es[r := e]) + (if re_class e = class \<and> re_is_registered (es ! r) then 1 else 0)
    = registered class es + (if re_class e = class \<and> re_is_registered e then 1 else 0)"
proof -
  have "length (filter P (xs[r := e])) + (if P (xs ! r) then 1 else 0) = length (filter P xs) + (if P e then 1 else 0)"
    if "r < length xs" for P :: "request_entry \<Rightarrow> bool" and xs
    using that
  proof (induction xs arbitrary: r)
    case (Cons x xs)
    then show ?case using Cons.IH [of "r - 1"] by (cases r) auto
  qed simp
  from this [OF assms(1), of "\<lambda>e. re_is_registered e \<and> re_class e = class"] assms(2) show ?thesis
    by (auto simp: registered_def conj_commute)
qed

lemma class_count_fields [simp]:
  "class_count c (set_class_count c' n d) = (if c = c' then n else class_count c d)"
  "cd_requests (set_class_count c n d) = cd_requests d"
  "cd_cleanup_queue (set_class_count c n d) = cd_cleanup_queue d"
  by (cases c; cases c'; simp add: class_count_def set_class_count_def)
    (cases c; simp add: set_class_count_def)+

locale cooperating_threads =
  fixes host :: "('t, 'x) client_host"
  assumes cooperates: "cooperates host"
begin

lemma interference:
  shows "persists w (ch_interfere host w)" and "holds R held w \<Longrightarrow> holds R held (ch_interfere host w)"
    and "set (ch_drain_order host xs) = set xs"
proof -
  show p: "persists w (ch_interfere host w)" "set (ch_drain_order host xs) = set xs"
    using cooperates by (simp_all add: cooperates_def)
  assume "holds R held w"
  moreover have "length (cw_entries w) \<le> length (cw_entries (ch_interfere host w))"
    using p(1) by (simp add: persists_def)
  ultimately show "holds R held (ch_interfere host w)"
    using cooperates by (fastforce simp: holds_def cooperates_def)
qed

lemma triple_access:
  assumes "\<And>w. persists w (fst (f w))" and "\<And>w. holds R held w \<Longrightarrow> Q (snd (f w)) (fst (f w))"
  shows "triple (holds R held) (access host f) Q"
  unfolding triple_def access_def
proof (intro allI impI)
  fix w w' a assume "Some (f (ch_interfere host w)) = Some (w', a)"
  then have f: "f (ch_interfere host w) = (w', a)" by simp
  have "persists w w'" using persists_trans [OF interference(1) assms(1), of w] f by simp
  moreover have "Q a w'" if "holds R held w" using assms(2) [OF interference(2) [OF that]] f by simp
  ultimately show "persists w w' \<and> (holds R held w \<longrightarrow> Q a w')" by blast
qed

lemma triple_load [triple_intro]: "triple (holds R held) (load host g) (\<lambda>_. holds R held)"
  unfolding load_def by (rule triple_access) simp_all

lemma holds_dispatcher:
  assumes "holds R held w" and "\<And>c. class_count c d = class_count c (cw_dispatcher w)"
    and "set (cd_requests d) \<subseteq> set (cd_requests (cw_dispatcher w))"
    and "set (cd_cleanup_queue d) \<subseteq> set (cd_cleanup_queue (cw_dispatcher w))"
  shows "holds R held (w\<lparr>cw_dispatcher := d\<rparr>)"
  using assms by (auto simp: holds_def accounted_def refs_valid_def)

lemma triple_store:
  assumes "\<And>d. dispatcher_persists d (g d)" and "\<And>d c. class_count c (g d) = class_count c d"
    and "\<And>d. set (cd_requests (g d)) \<subseteq> set (cd_requests d)" and "\<And>d. cd_cleanup_queue (g d) = cd_cleanup_queue d"
  shows "triple (holds R held) (store host g) (\<lambda>_. holds R held)"
  unfolding store_def
proof (rule triple_access)
  fix w :: "('t, 'x) client_world"
  show "persists w (fst (w\<lparr>cw_dispatcher := g (cw_dispatcher w)\<rparr>, ()))" by (simp add: persists_dispatcher assms(1))
  assume "holds R held w"
  with assms show "holds R held (fst (w\<lparr>cw_dispatcher := g (cw_dispatcher w)\<rparr>, ()))"
    by (simp add: holds_dispatcher)
qed

lemma triple_stores [triple_intro]:
  "triple (holds R held) (store host (\<lambda>d. d\<lparr>cd_admission_closed := True\<rparr>)) (\<lambda>_. holds R held)"
  "triple (holds R held) (store host (\<lambda>d. d\<lparr>cd_poison_requested := True\<rparr>)) (\<lambda>_. holds R held)"
  "triple (holds R held) (store host (\<lambda>d. d\<lparr>cd_operation_epoch := cd_operation_epoch d + 1\<rparr>)) (\<lambda>_. holds R held)"
  "triple (holds R held) (store host (\<lambda>d. d\<lparr>cd_transport_close_state := n\<rparr>)) (\<lambda>_. holds R held)"
  "triple (holds R held) (remove_request_entry host request_id) (\<lambda>_. holds R held)"
  unfolding remove_request_entry_def
  by (rule triple_store; simp add: dispatcher_persists_def class_count_def AList.delete_eq filter_is_subset
      split: request_class.split)+

lemma class_count_updates [simp]:
  "class_count c (d\<lparr>cd_next_request_id := i\<rparr>) = class_count c d"
  "class_count c (d\<lparr>cd_operation_epoch := e\<rparr>) = class_count c d"
  "class_count c (d\<lparr>cd_requests := xs\<rparr>) = class_count c d"
  "class_count c (d\<lparr>cd_cleanup_queue := q\<rparr>) = class_count c d"
  "class_count c (d\<lparr>cd_transport_close_state := n\<rparr>) = class_count c d"
  "class_count c (d\<lparr>cd_transport_poisoned := b\<rparr>) = class_count c d"
  by (simp_all add: class_count_def split: request_class.split)

lemma triple_close_state_exchange [triple_intro]:
  "triple (holds R held) (close_state_exchange host current new) (\<lambda>_. holds R held)"
  unfolding close_state_exchange_def
  by (rule triple_access) (auto intro!: persists_dispatcher holds_dispatcher simp: dispatcher_persists_def)

text \<open>An entry that changes, and stays registered or not.\<close>

lemma holds_entry:
  assumes "holds R held w" and "r < length (cw_entries w) \<Longrightarrow> re_class e = re_class (cw_entries w ! r)
      \<and> re_is_registered e = re_is_registered (cw_entries w ! r)"
  shows "holds R held (w\<lparr>cw_entries := (cw_entries w)[r := e]\<rparr>)"
proof (cases "r < length (cw_entries w)")
  case True
  with assms(2) have "registered c ((cw_entries w)[r := e]) = registered c (cw_entries w)" for c
    using registered_update [OF True, of e c] by (auto split: if_splits)
  with assms(1) show ?thesis by (simp add: holds_def accounted_def refs_valid_def)
qed (use assms(1) in \<open>simp add: list_update_beyond\<close>)

lemma triple_lifecycle_exchange [triple_intro]:
  assumes "current \<noteq> TERMINAL"
  shows "triple (holds R held) (lifecycle_exchange host r current new) (\<lambda>_. holds R held)"
  unfolding lifecycle_exchange_def
  by (rule triple_access) (use assms in \<open>auto intro!: persists_entry holds_entry
      simp: entry_persists_def entry_of_def lifecycle_of_def\<close>)

lemma triple_take_request_id [triple_intro]:
  "triple (holds R held) (take_request_id host) (\<lambda>_. holds R held)"
  unfolding take_request_id_def
proof (rule triple_access)
  fix w :: "('t, 'x) client_world"
  have "current \<le> current + 1" if "unat current + 1 < 2 ^ 64" for current :: u64
    using that by (simp add: word_le_nat_alt unat_word_ariths)
  then show "persists w (fst (let current = cd_next_request_id (cw_dispatcher w) in
     if unat current + 1 < 2 ^ 64
     then (w\<lparr>cw_dispatcher := (cw_dispatcher w)\<lparr>cd_next_request_id := current + 1\<rparr>\<rparr>, Inr current)
     else (w, Inl RequestIdExhausted)))"
    by (auto intro!: persists_dispatcher simp: Let_def dispatcher_persists_def)
qed (auto intro!: holds_dispatcher simp: Let_def)

section \<open>Capacity\<close>

lemma triple_reserve [triple_intro]:
  "triple (holds R held) (reserve_capacity host c)
    (\<lambda>reserved. if reserved then holds R (one_more c held) else holds R held)"
  unfolding reserve_capacity_def
proof (rule triple_access)
  fix w :: "('t, 'x) client_world"
  let ?f = "let n = class_count c (cw_dispatcher w) in if unat n < class_limit c
     then (w\<lparr>cw_dispatcher := set_class_count c (n + 1) (cw_dispatcher w)\<rparr>, True) else (w, False)"
  have d: "dispatcher_persists d (set_class_count c n d)" for n d
    by (cases c) (simp_all add: dispatcher_persists_def set_class_count_def)
  show "persists w (fst ?f)" by (auto intro!: persists_dispatcher simp: Let_def d)
  assume "holds R held w"
  moreover have "unat (n + 1) = unat n + 1" if "unat n < class_limit c" for n :: u64
  proof -
    have "class_limit c \<le> 8"
      by (cases c) (simp_all add: class_limit_def MAX_BUSINESS_REQUESTS_PER_CLIENT_def MAX_CONTROL_REQUESTS_PER_CLIENT_def)
    with that show ?thesis by (simp add: unat_word_ariths)
  qed
  ultimately show "(if snd ?f then holds R (one_more c held) else holds R held) (fst ?f)"
    by (auto simp: Let_def holds_def accounted_def refs_valid_def one_more_def)
qed

lemma triple_release [triple_intro]:
  "triple (holds R (one_more c held)) (release_capacity host c) (\<lambda>_. holds R held)"
  unfolding release_capacity_def store_def
proof (rule triple_access)
  fix w :: "('t, 'x) client_world"
  let ?f = "(w\<lparr>cw_dispatcher := set_class_count c (class_count c (cw_dispatcher w) - 1) (cw_dispatcher w)\<rparr>, ())"
  have "dispatcher_persists d (set_class_count c n d)" for n d
    by (cases c) (simp_all add: dispatcher_persists_def set_class_count_def)
  then show "persists w (fst ?f)" by (simp add: persists_dispatcher)
  assume h: "holds R (one_more c held) w"
  then have "unat (class_count c (cw_dispatcher w)) = registered c (cw_entries w) + cw_transit w c + (held c + 1)"
    by (simp add: holds_def accounted_def one_more_def)
  then have "unat (class_count c (cw_dispatcher w) - 1) = registered c (cw_entries w) + cw_transit w c + held c"
    by (simp add: unat_sub_if_size word_le_nat_alt)
  with h show "holds R held (fst ?f)"
    by (auto simp: holds_def accounted_def refs_valid_def one_more_def split: if_splits)
qed

lemma set_alist_update: "set (AList.update k v xs) \<subseteq> insert (k, v) (set xs)"
  by (induction xs) auto

lemma triple_insert_entry [triple_intro]:
  "triple (holds R (one_more c held)) (insert_entry host request_id c epoch) (\<lambda>r. holds (insert r R) held)"
  unfolding insert_entry_def
proof (rule triple_access)
  fix w :: "('t, 'x) client_world"
  let ?f = "let r = length (cw_entries w); d = cw_dispatcher w;
         entry = \<lparr>re_lifecycle = REGISTERED, re_class = c, re_is_registered = True, re_epoch = epoch\<rparr> in
     (w\<lparr>cw_entries := cw_entries w @ [entry],
        cw_dispatcher := d\<lparr>cd_requests := AList.update request_id r (cd_requests d)\<rparr>\<rparr>, r)"
  show "persists w (fst ?f)" by (simp add: persists_def nth_append dispatcher_persists_def Let_def)
  assume h: "holds R (one_more c held) w"
  have "registered c' (cw_entries w @ [\<lparr>re_lifecycle = REGISTERED, re_class = c, re_is_registered = True,
      re_epoch = epoch\<rparr>]) = registered c' (cw_entries w) + (if c' = c then 1 else 0)" for c'
    by (simp add: registered_def)
  with h show "holds (insert (snd ?f) R) held (fst ?f)"
    using set_alist_update [of request_id "length (cw_entries w)" "cd_requests (cw_dispatcher w)"]
    by (fastforce simp: Let_def holds_def accounted_def refs_valid_def one_more_def split: if_splits)
qed

lemma accounted_entries:
  assumes "accounted held w" and "length es = length (cw_entries w)"
    and "\<And>c. registered c es + held' c = registered c (cw_entries w) + held c"
  shows "accounted held' (w\<lparr>cw_entries := es\<rparr>)"
proof -
  have eq: "registered c es + cw_transit w c + held' c = registered c (cw_entries w) + cw_transit w c + held c" for c
    using assms(3) [of c] by simp
  show ?thesis using assms(1,2) by (simp add: accounted_def refs_valid_def eq)
qed

lemma triple_claim_retirement:
  assumes "r \<in> R"
  shows "triple (holds R held) (claim_retirement host r) (\<lambda>claimed w. if claimed
    then holds R (one_more (re_class (entry_of w r)) held) w else holds R held w)"
  unfolding claim_retirement_def
proof (rule triple_access)
  fix w :: "('t, 'x) client_world"
  let ?e = "(entry_of w r)\<lparr>re_is_registered := False\<rparr>"
  let ?f = "if re_is_registered (entry_of w r) then (w\<lparr>cw_entries := (cw_entries w)[r := ?e]\<rparr>, True) else (w, False)"
  show "persists w (fst ?f)"
    by (auto intro!: persists_entry simp: entry_persists_def entry_of_def)
  assume h: "holds R held w"
  with assms have r: "r < length (cw_entries w)" by (simp add: holds_def)
  have "registered c ((cw_entries w)[r := ?e]) + (if re_class (cw_entries w ! r) = c then 1 else 0) = registered c (cw_entries w)"
    if "re_is_registered (cw_entries w ! r)" for c
    using registered_update [OF r, of ?e c] that by (simp add: entry_of_def)
  note count = this
  show "if snd ?f then holds R (one_more (re_class (entry_of (fst ?f) r)) held) (fst ?f)
    else holds R held (fst ?f)"
  proof (cases "re_is_registered (entry_of w r)")
    case True
    let ?c = "re_class (cw_entries w ! r)"
    have "accounted (one_more ?c held) (w\<lparr>cw_entries := (cw_entries w)[r := ?e]\<rparr>)"
    proof (rule accounted_entries)
      show "accounted held w" using h by (simp add: holds_def)
      show "registered c ((cw_entries w)[r := ?e]) + one_more ?c held c = registered c (cw_entries w) + held c" for c
        using count [OF True [unfolded entry_of_def], of c] by (simp add: one_more_def split: if_splits)
    qed simp
    with True h r show ?thesis by (simp add: holds_def entry_of_def)
  qed (use h in simp)
qed

lemma triple_retire_capacity [triple_intro]:
  assumes "r \<in> R"
  shows "triple (holds R held) (retire_capacity host r) (\<lambda>_. holds R held)"
  unfolding retire_capacity_def
proof (rule triple_bind [OF triple_claim_retirement [OF assms]])
  fix claimed
  let ?P = "\<lambda>w. holds R (one_more (re_class (entry_of w r)) held) w"
  have "triple ?P (entry_class r) (\<lambda>c. holds R (one_more c held))"
    by (simp add: triple_def entry_class_def)
  then show "triple (\<lambda>w. if claimed then ?P w else holds R held w)
      (if claimed then bind_proc (entry_class r) (release_capacity host) else return_proc ()) (\<lambda>_. holds R held)"
    by (auto intro!: triple_bind [OF _ triple_release] triple_return)
qed

lemma triple_register_request [triple_intro]:
  "triple (holds R held) (register_request host c)
    (\<lambda>outcome. case outcome of Inl _ \<Rightarrow> holds R held | Inr p \<Rightarrow> holds (insert (snd p) R) held)"
  unfolding register_request_def
proof (rule triple_bind [OF triple_load], rule triple_if, goal_cases)
  case 2
  show ?case
  proof (rule triple_bind [OF triple_reserve], goal_cases)
    case (1 reserved)
    then show ?case
      by (cases reserved; simp only: if_True if_False not_True_eq_False not_False_eq_True)
        (rule triple_bind [OF triple_load] triple_if triple_bind [OF triple_release] triple_bind [OF triple_take_request_id]
          triple_sum triple_bind [OF triple_insert_entry] triple_return | simp)+
  qed
qed (simp add: triple_return)

text \<open>The loops, by induction on their turns.\<close>

lemma triple_terminate_entry [triple_intro]:
  "triple (holds R held) (terminate_entry host r state) (\<lambda>_. holds R held)"
proof -
  let ?P = "\<lambda>h r s w y. h = host \<longrightarrow> persists w (fst y) \<and> (holds R held w \<longrightarrow> holds R held (fst y))"
  have "?P host r state w y" if "terminate_entry host r state w = Some y" for w y
  proof (rule terminate_entry.raw_induct [where P = ?P, OF _ that], intro impI)
    fix loop h r state w y
    assume IH: "\<And>r state w b y. loop r state w b = Some y \<Longrightarrow> ?P r state w b y" and h: "h = host"
      and step: "(if state = TERMINAL then Some (w, False)
        else bind_proc (lifecycle_exchange h r state TERMINAL) (\<lambda>exchanged. case exchanged of
          Inl current \<Rightarrow> loop h r current | Inr _ \<Rightarrow> return_proc True) w) = Some y"
    have "triple (holds R held) (loop host r s) (\<lambda>_. holds R held)" for s
      using IH by (fastforce simp: triple_def)
    then have "triple (holds R held) (bind_proc (lifecycle_exchange host r state TERMINAL) (\<lambda>exchanged. case exchanged of
          Inl current \<Rightarrow> loop host r current | Inr _ \<Rightarrow> return_proc True)) (\<lambda>_. holds R held)" if "state \<noteq> TERMINAL"
      using that by - (rule triple_intro | assumption | simp)+
    with step h show "persists w (fst y) \<and> (holds R held w \<longrightarrow> holds R held (fst y))"
      by (cases y) (auto simp: triple_def split: if_splits)
  qed
  then show ?thesis by (fastforce simp: triple_def)
qed

lemma triple_poison_close_state [triple_intro]:
  "triple (holds R held) (poison_close_state host state) (\<lambda>_. holds R held)"
proof -
  let ?P = "\<lambda>h s w y. h = host \<longrightarrow> persists w (fst y) \<and> (holds R held w \<longrightarrow> holds R held (fst y))"
  have "?P host state w y" if "poison_close_state host state w = Some y" for w y
  proof (rule poison_close_state.raw_induct [where P = ?P, OF _ that], intro impI)
    fix loop h state w y
    assume IH: "\<And>h state w y. loop h state w = Some y \<Longrightarrow> ?P h state w y" and h: "h = host"
      and step: "(if state \<noteq> CLOSE_CONFIRMED \<and> state \<noteq> CLOSE_POISONED
        then bind_proc (close_state_exchange h state CLOSE_POISONED) (\<lambda>exchanged. case exchanged of
          Inl current \<Rightarrow> loop h current | Inr _ \<Rightarrow> return_proc ()) w else Some (w, ())) = Some y"
    have "triple (holds R held) (loop host s) (\<lambda>_. holds R held)" for s
      using IH by (fastforce simp: triple_def)
    then have "triple (holds R held) (bind_proc (close_state_exchange host state CLOSE_POISONED) (\<lambda>exchanged. case exchanged of
          Inl current \<Rightarrow> loop host current | Inr _ \<Rightarrow> return_proc ())) (\<lambda>_. holds R held)"
      by - (rule triple_intro | assumption)+
    with step h show "persists w (fst y) \<and> (holds R held w \<longrightarrow> holds R held (fst y))"
      by (cases y) (auto simp: triple_def split: if_splits)
  qed
  then show ?thesis by (fastforce simp: triple_def)
qed

text \<open>The entries of the map, as a thread that goes through them holds them.\<close>

lemma triple_drain:
  "triple (holds R held) (drain_requests host) (\<lambda>ps. holds (snd ` set ps \<union> R) held)"
  "triple (holds R held) (load host (\<lambda>w. ch_drain_order host (cd_requests (cw_dispatcher w))))
    (\<lambda>ps. holds (snd ` set ps \<union> R) held)"
  unfolding drain_requests_def load_def
  by (rule triple_access; auto intro!: persists_dispatcher simp: dispatcher_persists_def holds_def accounted_def
      refs_valid_def interference(3))+

lemma triple_clear_entry:
  assumes "snd p \<in> R"
  shows "triple (holds R held) (clear_entry host p) (\<lambda>_. holds R held)"
  using assms unfolding clear_entry_def by (cases p) (simp, (rule triple_intro | assumption)+)

lemma triple_clear_requests [triple_intro]:
  "triple (holds R held) (clear_requests_locked host) (\<lambda>_. holds R held)"
  unfolding clear_requests_locked_def
proof (rule triple_bind [OF triple_drain(1)])
  fix ps
  have "triple (holds (snd ` set ps \<union> R) held) (each_proc (clear_entry host) ps) (\<lambda>_. holds (snd ` set ps \<union> R) held)"
    by (rule triple_each, rule triple_clear_entry) simp
  then show "triple (holds (snd ` set ps \<union> R) held) (each_proc (clear_entry host) ps) (\<lambda>_. holds R held)"
    by (rule triple_weaken) (simp add: holds_def)
qed

lemma triple_sweep_entry:
  assumes "snd p \<in> R"
  shows "triple (holds R held) (sweep_entry host p) (\<lambda>_. holds R held)"
  using assms unfolding sweep_entry_def by (cases p) (simp, (rule triple_intro | assumption)+)

lemma triple_sweep [triple_intro]:
  "triple (holds R held) (sweep_terminal_entries host) (\<lambda>_. holds R held)"
  unfolding sweep_terminal_entries_def
proof (rule triple_bind [OF triple_drain(2)])
  fix ps
  have "triple (holds (snd ` set ps \<union> R) held) (each_proc (sweep_entry host) ps) (\<lambda>_. holds (snd ` set ps \<union> R) held)"
    by (rule triple_each, rule triple_sweep_entry) simp
  then show "triple (holds (snd ` set ps \<union> R) held) (each_proc (sweep_entry host) ps) (\<lambda>_. holds R held)"
    by (rule triple_weaken) (simp add: holds_def)
qed

lemma triple_swap_poisoned [triple_intro]:
  "triple (holds R held) (access host (\<lambda>w. (w\<lparr>cw_dispatcher := (cw_dispatcher w)\<lparr>cd_transport_poisoned := True\<rparr>\<rparr>,
     \<not> cd_transport_poisoned (cw_dispatcher w)))) (\<lambda>_. holds R held)"
  by (rule triple_access) (auto intro!: persists_dispatcher holds_dispatcher simp: dispatcher_persists_def)

lemma triple_apply_poison [triple_intro]:
  "triple (holds R held) (apply_poison_locked host) (\<lambda>_. holds R held)"
  unfolding apply_poison_locked_def by (rule triple_intro)+

lemma triple_apply_requested [triple_intro]:
  "triple (holds R held) (apply_requested_poison host) (\<lambda>_. holds R held)"
  unfolding apply_requested_poison_def by (rule triple_intro)+

lemma triple_apply_deferred [triple_intro]:
  "triple (holds R held) (apply_deferred_poison_and_sweep host) (\<lambda>_. holds R held)"
  unfolding apply_deferred_poison_and_sweep_def by (rule triple_intro)+

lemma triple_poison_transport [triple_intro]:
  "triple (holds R held) (poison_transport host) (\<lambda>_. holds R held)"
  unfolding poison_transport_def by (rule triple_intro)+

lemma triple_poison_nonblocking [triple_intro]:
  "triple (holds R held) (poison_transport_nonblocking host) (\<lambda>_. holds R held)"
  unfolding poison_transport_nonblocking_def by (rule triple_intro)+

lemma triple_superseded [triple_intro]:
  "triple (holds R held) (superseded host epoch) (\<lambda>_. holds R held)"
  "triple (holds R held) (unusable host epoch) (\<lambda>_. holds R held)"
  unfolding unusable_def superseded_def by (rule triple_intro)+

lemma triple_call [triple_intro]:
  "triple (holds R held) (access host (\<lambda>w. let (t, r) = step (cw_transport w) in (w\<lparr>cw_transport := t\<rparr>, r)))
    (\<lambda>_. holds R held)"
  by (rule triple_access) (auto simp: Let_def split_def persists_def holds_def accounted_def refs_valid_def)

lemma triple_transport_step [triple_intro]:
  "triple (holds R held) (transport_step host epoch step) (\<lambda>_. holds R held)"
  unfolding transport_step_def by (rule triple_intro)+

lemma triple_clock [triple_intro]:
  "triple (holds R held) (before_deadline host deadline) (\<lambda>_. holds R held)"
  "triple (holds R held) (deadline_after host duration) (\<lambda>_. holds R held)"
  "triple (holds R held) (backoff_park host deadline delay) (\<lambda>_. holds R held)"
  unfolding before_deadline_def deadline_after_def backoff_park_def by (rule triple_intro)+

lemma triple_poll_transport [triple_intro]:
  "triple (holds R held) (poll_transport host epoch deadline step delay) (\<lambda>_. holds R held)"
proof -
  let ?P = "\<lambda>h epoch deadline step delay w y. h = host
    \<longrightarrow> persists w (fst y) \<and> (holds R held w \<longrightarrow> holds R held (fst y))"
  have "?P host epoch deadline step delay w y" if "poll_transport host epoch deadline step delay w = Some y" for w y
  proof (rule poll_transport.raw_induct [where P = ?P, OF _ that], intro impI, goal_cases)
    case (1 loop h epoch deadline step delay w y)
    have "triple (holds R held) (loop host epoch deadline step d) (\<lambda>_. holds R held)" for d
      using 1(1) by (fastforce simp: triple_def)
    then have "triple (holds R held) (bind_proc (transport_step host epoch step) (\<lambda>polled. case polled of
       Inl error \<Rightarrow> return_proc (Inl error)
     | Inr (Ready _) \<Rightarrow> return_proc (Inr ())
     | Inr Pending \<Rightarrow>
         bind_proc (before_deadline host deadline) (\<lambda>early.
         if early then bind_proc (backoff_park host deadline delay) (loop host epoch deadline step)
         else bind_proc (poison_transport host) (\<lambda>_. return_proc (Inl TransportPoisoned))))) (\<lambda>_. holds R held)"
      by - (rule triple_intro | assumption)+
    with 1(2,3) show ?case by (cases y) (auto simp: triple_def)
  qed
  then show ?thesis by (fastforce simp: triple_def)
qed

lemma triple_poll_transport_until [triple_intro]:
  "triple (holds R held) (poll_transport_until host epoch deadline step) (\<lambda>_. holds R held)"
  unfolding poll_transport_until_def by (rule triple_intro)

section \<open>Operations\<close>

lemma triple_activate_read [triple_intro]:
  "triple (holds R held) (activate_read host r) (\<lambda>_. holds R held)"
  unfolding activate_read_def by (rule triple_intro | simp add: lifecycle_states)+

lemma triple_retire_registry_only [triple_intro]:
  assumes "r \<in> R"
  shows "triple (holds R held) (retire_registry_only host request_id r) (\<lambda>_. holds R held)"
  using assms unfolding retire_registry_only_def by - (rule triple_intro | assumption)+

lemma triple_finish [triple_intro]:
  assumes "r \<in> R"
  shows "triple (holds R held) (finish_client_request host request_id r) (\<lambda>_. holds R held)"
  using assms unfolding finish_client_request_def by - (rule triple_intro | assumption)+

lemma triple_finish_result [triple_intro]:
  assumes "r \<in> R"
  shows "triple (holds R held) (finish_result host request_id r outcome) (\<lambda>_. holds R held)"
  using assms unfolding finish_result_def by - (rule triple_intro | assumption)+

lemma triple_register_awaiting:
  "triple (holds R held) (register_awaiting host c)
    (\<lambda>outcome. case outcome of Inl _ \<Rightarrow> holds R held | Inr p \<Rightarrow> holds (insert (snd p) R) held)"
  unfolding register_awaiting_def
proof (rule triple_try [OF triple_register_request])
  fix p :: "u64 \<times> entry_ref"
  obtain i r where p: "p = (i, r)" by fastforce
  have "triple (holds (insert r R) held) (bind_proc (finish_client_request host i r) (\<lambda>_. return_proc (Inl error)))
      (\<lambda>outcome. case outcome of Inl _ \<Rightarrow> holds R held | Inr p \<Rightarrow> holds (insert (snd p) R) held)"
    for error :: broker_client_error
    by (rule triple_bind [OF triple_finish]) (auto intro!: triple_return simp: holds_def)
  then show "triple (holds (insert (snd p) R) held) (case p of (request_id, r) \<Rightarrow>
      bind_proc (transition host r REGISTERED AWAITING_RESPONSE) (\<lambda>moved. case moved of
        Inl error \<Rightarrow> bind_proc (finish_client_request host request_id r) (\<lambda>_. return_proc (Inl error))
      | Inr _ \<Rightarrow> return_proc (Inr (request_id, r))))
      (\<lambda>outcome. case outcome of Inl _ \<Rightarrow> holds R held | Inr p \<Rightarrow> holds (insert (snd p) R) held)"
    unfolding p transition_def prod.case snd_conv
    by - (assumption | rule triple_bind triple_map triple_lifecycle_exchange triple_sum triple_return
      | simp add: lifecycle_states)+
qed simp

lemma triple_with_entry [triple_intro]:
  assumes "\<And>i r. triple (holds (insert r R) held) (k (i, r)) (\<lambda>_. holds (insert r R) held)"
  shows "triple (holds R held) (try_proc (register_awaiting host c) k) (\<lambda>_. holds R held)"
proof (rule triple_try [OF triple_register_awaiting])
  fix p :: "u64 \<times> entry_ref"
  obtain i r where p: "p = (i, r)" by fastforce
  show "triple (holds (insert (snd p) R) held) (k p) (\<lambda>_. holds R held)"
    unfolding p snd_conv by (rule triple_weaken [OF assms]) (simp add: holds_def)
qed simp

lemma triple_encode_cancel:
  "triple (holds R held) (encode_cancel_frame host caller target)
    (\<lambda>outcome. case outcome of Inl _ \<Rightarrow> holds R held | Inr p \<Rightarrow> holds (insert (fst (snd p)) R) held)"
  unfolding encode_cancel_frame_def
proof (rule triple_try [OF triple_register_awaiting])
  fix p :: "u64 \<times> entry_ref"
  obtain i r where p: "p = (i, r)" by fastforce
  have "triple (holds (insert r R) held) (bind_proc (finish_client_request host i r) (\<lambda>_. return_proc (Inl error)))
      (\<lambda>outcome. case outcome of Inl _ \<Rightarrow> holds R held | Inr p \<Rightarrow> holds (insert (fst (snd p)) R) held)"
    for error :: broker_client_error
    by (rule triple_bind [OF triple_finish]) (auto intro!: triple_return simp: holds_def)
  then show "triple (holds (insert (snd p) R) held) (case p of (request_id, r) \<Rightarrow>
      (case request_frame (Cancel request_id caller target) of
        Inl error \<Rightarrow> bind_proc (finish_client_request host request_id r) (\<lambda>_. return_proc (Inl error))
      | Inr frame \<Rightarrow> return_proc (Inr (request_id, r, frame))))
      (\<lambda>outcome. case outcome of Inl _ \<Rightarrow> holds R held | Inr p \<Rightarrow> holds (insert (fst (snd p)) R) held)"
    unfolding p prod.case snd_conv by - (assumption | rule triple_sum triple_return | simp)+
qed simp

lemma triple_fail_cleanup [triple_intro]:
  assumes "r \<in> R"
  shows "triple (holds R held) (fail_cleanup_nonblocking host request_id r) (\<lambda>_. holds R held)"
  using assms unfolding fail_cleanup_nonblocking_def
  by - (rule triple_intro | assumption | simp add: lifecycle_states)+

lemma triple_try_send_cleanup [triple_intro]:
  assumes "ct_entry task \<in> R"
  shows "triple (holds R held) (try_send_cleanup host task) (\<lambda>_. holds R held)"
  unfolding try_send_cleanup_def
  by (rule triple_access) (use assms in \<open>auto intro!: persists_dispatcher simp: Let_def dispatcher_persists_def
    holds_def accounted_def refs_valid_def\<close>)

lemma triple_queue_abandon_from [triple_intro]:
  assumes "r \<in> R"
  shows "triple (holds R held) (queue_abandon_from host target caller r prior) (\<lambda>_. holds R held)"
  using assms unfolding queue_abandon_from_def by - (rule triple_intro | assumption | simp)+

lemma triple_queue_abandon [triple_intro]:
  assumes "r \<in> R"
  shows "triple (holds R held) (queue_abandon host target caller r) (\<lambda>_. holds R held)"
  using assms unfolding queue_abandon_def by - (rule triple_intro | assumption | simp add: lifecycle_states)+

lemma triple_abandon_over_transport [triple_intro]:
  "triple (holds R held) (abandon_over_transport host task deadline cancel_frame close_connection) (\<lambda>_. holds R held)"
  unfolding abandon_over_transport_def by (rule triple_intro)+

end

end
