(* ===== verification/Client_Guarantee.thy ===== *)
theory Client_Guarantee
  imports Client_Rely
begin

text \<open>
  The guarantee of every operation of a broker client: from cleanup and closing to the operations
  of the session, each keeps what the other threads rely on.
\<close>

context cooperating_threads
begin

section \<open>Cleanup and closing\<close>

lemma triple_process_queued_abandon [triple_intro]:
  assumes "ct_entry task \<in> R"
  shows "triple (holds R held) (process_queued_abandon host task deadline) (\<lambda>_. holds R held)"
proof -
  let ?sent = "if ct_prior task = ACTIVE_READ
       then map_proc (\<lambda>encoded. case encoded of Inr sent \<Rightarrow> Some sent | Inl _ \<Rightarrow> None)
         (encode_cancel_frame host (ct_caller task) (ct_target_request_id task))
       else return_proc None"
  let ?held = "\<lambda>sent. holds (case sent of None \<Rightarrow> R | Some (_, r, _) \<Rightarrow> insert r R) held"
  have sent: "triple (holds R held) ?sent ?held"
    by (auto intro!: triple_map triple_return triple_weaken [OF triple_encode_cancel] split: sum.splits)
  have sub: "triple (?held sent) f (\<lambda>_. holds R held)"
    if "triple (?held sent) f (\<lambda>_. ?held sent)" for sent and f :: "('t, 'x, (broker_client_error, unit) result) client_proc"
    using that by (rule triple_weaken) (auto simp: holds_def split: option.splits)
  have task: "ct_entry task \<in> (case sent of None \<Rightarrow> R | Some (_, r, _) \<Rightarrow> insert r R)" for sent
    using assms by (auto split: option.split)
  have finish: "triple (?held sent) (case sent of
         Some (request_id, cancel_entry, _) \<Rightarrow>
           map_proc (\<lambda>_. ()) (finish_client_request host request_id cancel_entry)
       | None \<Rightarrow> return_proc ()) (\<lambda>_. ?held sent)" for sent
    by (cases sent) (auto intro!: triple_intro)
  show ?thesis
    using assms unfolding process_queued_abandon_def Let_def
    by - (assumption | rule triple_bind [OF sent] sub finish triple_intro | simp add: lifecycle_states task)+
qed

lemma triple_try_recv_cleanup:
  "triple (holds R held) (try_recv_cleanup host)
    (\<lambda>received. holds (case received of None \<Rightarrow> R | Some task \<Rightarrow> insert (ct_entry task) R) held)"
  unfolding try_recv_cleanup_def
  by (rule triple_access) (auto intro!: persists_dispatcher simp: Let_def dispatcher_persists_def holds_def
    accounted_def refs_valid_def split: list.splits)

lemma triple_maintenance_loop [triple_intro]:
  "triple (holds R held) (maintenance_loop host deadline steps processed) (\<lambda>_. holds R held)"
proof (induction steps arbitrary: R processed)
  case (Suc steps)
  let ?taken = "\<lambda>received. case received of
       None \<Rightarrow> bind_proc (sweep_terminal_entries host) (\<lambda>_. return_proc (Inr processed))
     | Some task \<Rightarrow>
         bind_proc (process_queued_abandon host task deadline) (\<lambda>abandoned. case abandoned of
           Inr _ \<Rightarrow> maintenance_loop host deadline steps (processed + 1)
         | Inl error \<Rightarrow>
             bind_proc (fail_cleanup_nonblocking host (ct_target_request_id task) (ct_entry task)) (\<lambda>_.
             bind_proc (apply_deferred_poison_and_sweep host) (\<lambda>_.
             return_proc (Inl error))))"
  have "triple (holds R held) (bind_proc (try_recv_cleanup host) ?taken) (\<lambda>_. holds R held)"
  proof (rule triple_bind [OF triple_try_recv_cleanup])
    fix received :: "cleanup_task option"
    let ?R = "case received of None \<Rightarrow> R | Some task \<Rightarrow> insert (ct_entry task) R"
    have "triple (holds ?R held) (?taken received) (\<lambda>_. holds ?R held)"
      by (cases received; simp only: option.case) (assumption | rule triple_intro Suc.IH | simp)+
    then show "triple (holds ?R held) (?taken received) (\<lambda>_. holds R held)"
      by (rule triple_weaken) (auto simp: holds_def split: option.splits)
  qed
  then show ?case unfolding maintenance_loop.simps by - (assumption | rule triple_intro)+
qed (simp, (rule triple_intro)+)

lemma triple_maintenance [triple_intro]:
  "triple (holds R held) (poll_maintenance host max_steps deadline) (\<lambda>_. holds R held)"
  "triple (holds R held) (maintain_before_operation host) (\<lambda>_. holds R held)"
  unfolding maintain_before_operation_def poll_maintenance_def by (rule triple_intro)+

lemma triple_next_epoch [triple_intro]:
  "triple (holds R held) (access host (\<lambda>w. let d = cw_dispatcher w in
     (w\<lparr>cw_dispatcher := d\<lparr>cd_operation_epoch := cd_operation_epoch d + 1\<rparr>\<rparr>, cd_operation_epoch d + 1))) (\<lambda>_. holds R held)"
  by (rule triple_access) (auto intro!: persists_dispatcher holds_dispatcher simp: Let_def dispatcher_persists_def)

lemma triple_begin_close_epoch [triple_intro]:
  "triple (holds R held) (begin_close_epoch host) (\<lambda>_. holds R held)"
  unfolding begin_close_epoch_def by (rule triple_intro)+

lemma triple_fail_close [triple_intro]:
  "triple (holds R held) (fail_close_before_poison host epoch) (\<lambda>_. holds R held)"
  unfolding fail_close_before_poison_def by (rule triple_intro)+

lemma triple_poison_pending [triple_intro]:
  "triple (holds R held) (poison_pending host) (\<lambda>_. holds R held)"
  unfolding poison_pending_def by (rule triple_intro)+

lemma triple_conclude_close [triple_intro]:
  "triple (holds R held) (conclude_close host outcome) (\<lambda>_. holds R held)"
proof (cases outcome)
  case (Inl error)
  show ?thesis unfolding Inl by (cases error; simp; (rule triple_intro)+)
qed (simp, (rule triple_intro)+)

lemma triple_close [triple_intro]:
  "triple (holds R held) (close_in_progress host) (\<lambda>_. holds R held)"
  "triple (holds R held) (close_transport host) (\<lambda>_. holds R held)"
  unfolding close_transport_def close_in_progress_def by (rule triple_intro)+

section \<open>Sending and receiving\<close>

lemma triple_send_frame [triple_intro]:
  "triple (holds R held) (send_frame host frame epoch deadline delay) (\<lambda>_. holds R held)"
proof -
  let ?P = "\<lambda>h frame epoch deadline delay w y. h = host
    \<longrightarrow> persists w (fst y) \<and> (holds R held w \<longrightarrow> holds R held (fst y))"
  have "?P host frame epoch deadline delay w y" if "send_frame host frame epoch deadline delay w = Some y" for w y
  proof (rule send_frame.raw_induct [where P = ?P, OF _ that], intro impI, goal_cases)
    case (1 loop h frame epoch deadline delay w y)
    have "triple (holds R held) (loop host frame epoch deadline d) (\<lambda>_. holds R held)" for d
      using 1(1) by (fastforce simp: triple_def)
    then have "triple (holds R held) (bind_proc (transport_step host epoch (ch_try_send_frame host frame)) (\<lambda>sent. case sent of
       Inl error \<Rightarrow> return_proc (Inl error)
     | Inr (Ready _) \<Rightarrow> return_proc (Inr ())
     | Inr Pending \<Rightarrow>
         bind_proc (before_deadline host deadline) (\<lambda>early.
         if early then bind_proc (backoff_park host deadline delay) (loop host frame epoch deadline)
         else return_proc (Inl TransportPoisoned)))) (\<lambda>_. holds R held)"
      by - (rule triple_intro | assumption)+
    with 1(2,3) show ?case by (cases y) (auto simp: triple_def)
  qed
  then show ?thesis by (fastforce simp: triple_def)
qed

lemma triple_await_frame [triple_intro]:
  "triple (holds R held) (await_frame host request_id epoch deadline delay) (\<lambda>_. holds R held)"
proof -
  let ?P = "\<lambda>h request_id epoch deadline delay w y. h = host
    \<longrightarrow> persists w (fst y) \<and> (holds R held w \<longrightarrow> holds R held (fst y))"
  have "?P host request_id epoch deadline delay w y" if "await_frame host request_id epoch deadline delay w = Some y" for w y
  proof (rule await_frame.raw_induct [where P = ?P, OF _ that], intro impI, goal_cases)
    case (1 loop h request_id epoch deadline delay w y)
    have "triple (holds R held) (loop host request_id epoch deadline d) (\<lambda>_. holds R held)" for d
      using 1(1) by (fastforce simp: triple_def)
    then have "triple (holds R held) (bind_proc (transport_step host epoch (ch_poll_response host request_id)) (\<lambda>polled. case polled of
       Inl error \<Rightarrow>
         bind_proc (if is_transport_error error then fail_close_before_poison host epoch else return_proc ()) (\<lambda>_.
         return_proc (Inl error))
     | Inr (Ready frame) \<Rightarrow> return_proc (Inr frame)
     | Inr Pending \<Rightarrow>
         bind_proc (before_deadline host deadline) (\<lambda>early.
         if early then bind_proc (backoff_park host deadline delay) (loop host request_id epoch deadline)
         else bind_proc (transport_step host epoch (ch_try_discard host request_id)) (\<lambda>_.
           bind_proc (fail_close_before_poison host epoch) (\<lambda>_.
           return_proc (Inl TransportPoisoned)))))) (\<lambda>_. holds R held)"
      by - (rule triple_intro | assumption)+
    with 1(2,3) show ?case by (cases y) (auto simp: triple_def)
  qed
  then show ?thesis by (fastforce simp: triple_def)
qed

lemma triple_send_receive [triple_intro]:
  "triple (holds R held) (send_request host request epoch) (\<lambda>_. holds R held)"
  "triple (holds R held) (receive_response host request_id timeout client epoch) (\<lambda>_. holds R held)"
  unfolding send_request_def receive_response_def by (rule triple_intro)+

lemma triple_send_cancel_control [triple_intro]:
  "triple (holds R held) (send_cancel_control host target caller) (\<lambda>_. holds R held)"
  unfolding send_cancel_control_def by (simp only: prod.case | rule triple_with_entry triple_intro | simp)+

lemma triple_claim_cancellation [triple_intro]:
  "triple (holds R held) (claim_cancellation host r state) (\<lambda>_. holds R held)"
proof -
  let ?P = "\<lambda>h r s w y. h = host \<longrightarrow> persists w (fst y) \<and> (holds R held w \<longrightarrow> holds R held (fst y))"
  have "?P host r state w y" if "claim_cancellation host r state w = Some y" for w y
  proof (rule claim_cancellation.raw_induct [where P = ?P, OF _ that], intro impI, goal_cases)
    case (1 loop h r state w y)
    have "triple (holds R held) (loop host r s) (\<lambda>_. holds R held)" for s
      using 1(1) by (fastforce simp: triple_def)
    then have "triple (holds R held) (bind_proc (lifecycle_exchange host r state CANCEL_IN_FLIGHT) (\<lambda>exchanged. case exchanged of
          Inl current \<Rightarrow> loop host r current | Inr _ \<Rightarrow> return_proc (Inr True))) (\<lambda>_. holds R held)"
      if "state = AWAITING_RESPONSE \<or> state = ACTIVE_READ"
      using that by - (rule triple_intro | assumption | auto simp: lifecycle_states)+
    with 1(2,3) show ?case by (cases y) (auto simp: triple_def split: if_splits)
  qed
  then show ?thesis by (fastforce simp: triple_def)
qed

lemma triple_abandon_bounded [triple_intro]:
  assumes "r \<in> R"
  shows "triple (holds R held) (abandon_bounded host target caller r) (\<lambda>_. holds R held)"
  using assms unfolding abandon_bounded_def by - (rule triple_intro | assumption)+

lemma triple_conclude_request [triple_intro]:
  assumes "r \<in> R"
  shows "triple (holds R held) (conclude_request host request_id caller r response) (\<lambda>_. holds R held)"
  using assms unfolding conclude_request_def by - (rule triple_intro | assumption)+

section \<open>The operations of a session\<close>

lemma triple_ensure_open [triple_intro]: "triple (holds R held) (ensure_open host) (\<lambda>_. holds R held)"
  unfolding ensure_open_def by (rule triple_intro)

lemma triple_exchange [triple_intro]:
  "triple (holds R held) (exchange host request caller timeout_ms check) (\<lambda>_. holds R held)"
  unfolding exchange_def by (simp only: prod.case | rule triple_with_entry triple_intro | simp)+

lemma triple_queries [triple_intro]:
  "triple (holds R held) (client_query_journal host query) (\<lambda>_. holds R held)"
  "triple (holds R held) (client_register_root host registration) (\<lambda>_. holds R held)"
  unfolding client_query_journal_def client_register_root_def by (rule triple_intro)+

abbreviation hands_out ::
    "entry_ref set \<Rightarrow> (request_class \<Rightarrow> nat) \<Rightarrow> (broker_client_error, 'p pending_read) result \<Rightarrow> ('t, 'x) client_world \<Rightarrow> bool" where
  "hands_out R held outcome \<equiv> (case outcome of
     Inl _ \<Rightarrow> holds R held | Inr read \<Rightarrow> holds (insert (ph_entry (pd_cancel_handle read)) R) held)"

lemma triple_begin_read:
  "triple (holds R held) (begin_read host dispatcher request caller timeout_ms expected check) (hands_out R held)"
  unfolding begin_read_def
proof (rule triple_try [OF triple_register_awaiting])
  fix p :: "u64 \<times> entry_ref"
  obtain i r where p: "p = (i, r)" by fastforce
  have error: "triple (holds (insert r R) held) (return_proc (Inl error)) (hands_out R held)"
    for error and R held by (rule triple_return) (simp add: holds_def)
  show "triple (holds (insert (snd p) R) held) (case p of (request_id, r) \<Rightarrow>
     bind_proc (entry_epoch r) (\<lambda>epoch.
     bind_proc (send_request host (request request_id) epoch) (\<lambda>sent. case sent of
       Inl error \<Rightarrow> bind_proc (finish_client_request host request_id r) (\<lambda>_. return_proc (Inl error))
     | Inr _ \<Rightarrow>
         bind_proc (receive_response host request_id (min SECOND (timeout_of timeout_ms))
           (cc_client_instance caller) epoch) (\<lambda>received. case bind_result received check of
           Inl error \<Rightarrow> bind_proc (abandon_bounded host request_id caller r) (\<lambda>_. return_proc (Inl error))
         | Inr _ \<Rightarrow>
             bind_proc (activate_read host r) (\<lambda>activated. case activated of
               Inl error \<Rightarrow>
                 bind_proc (load host (\<lambda>w. lifecycle_of w r)) (\<lambda>state.
                 bind_proc (if state \<noteq> TERMINAL
                   then map_proc (\<lambda>_. ()) (finish_client_request host request_id r) else return_proc ()) (\<lambda>_.
                 return_proc (Inl error)))
             | Inr _ \<Rightarrow> return_proc (Inr
                 \<lparr>pd_cancel_handle = \<lparr>ph_dispatcher = dispatcher, ph_target_request_id = request_id,
                    ph_client_instance = cc_client_instance caller, ph_entry = r\<rparr>,
                  pd_expected = expected, pd_timeout = timeout_of timeout_ms, pd_caller = caller,
                  pd_is_armed = True\<rparr>)))))) (hands_out R held)"
    unfolding p prod.case snd_conv
    by (rule error triple_intro triple_return | simp)+
qed simp

lemma triple_try_handing:
  assumes "triple (holds R held) f (\<lambda>_. holds R held)" and "\<And>a. triple (holds R held) (k a) (hands_out R held)"
  shows "triple (holds R held) (try_proc f k) (hands_out R held)"
  by (rule triple_try [where Q = "holds R held" and R = "\<lambda>_. holds R held"])
    (use assms in \<open>auto elim: triple_weaken split: sum.split\<close>)

lemma triple_begin_reads:
  "triple (holds R held) (begin_read_range host dispatcher range_request) (hands_out R held)"
  "triple (holds R held) (begin_read_volume host dispatcher volume_request) (hands_out R held)"
  unfolding begin_read_range_def begin_read_volume_def
  by (rule triple_try_handing triple_begin_read triple_intro)+

lemma triple_wait_read [triple_intro]:
  assumes "ph_entry (pd_cancel_handle read) \<in> R"
  shows "triple (holds R held) (wait_read host check read) (\<lambda>_. holds R held)"
  using assms unfolding wait_read_def Let_def by - (rule triple_intro | assumption)+

lemma triple_waits [triple_intro]:
  "ph_entry (pd_cancel_handle range_read) \<in> R \<Longrightarrow> triple (holds R held) (wait_range host range_read) (\<lambda>_. holds R held)"
  "ph_entry (pd_cancel_handle volume_read) \<in> R \<Longrightarrow> triple (holds R held) (wait_volume host volume_read) (\<lambda>_. holds R held)"
  unfolding wait_range_def wait_volume_def by (rule triple_intro | assumption)+

lemma triple_read_range:
  "triple (holds R held) (read_range host dispatcher request) (\<lambda>_. holds R held)"
  unfolding read_range_def
proof (rule triple_try [OF triple_begin_reads(1)])
  fix read :: "pending_read_range pending_read"
  show "triple (holds (insert (ph_entry (pd_cancel_handle read)) R) held) (wait_range host read) (\<lambda>_. holds R held)"
    by (rule triple_weaken [OF triple_waits(1)]) (simp_all add: holds_def)
qed simp

lemma triple_abandon_read:
  "ph_entry (pd_cancel_handle read) \<in> R \<Longrightarrow> triple (holds R held) (abandon_read host read) (\<lambda>_. holds R held)"
  "ph_entry (pd_cancel_handle read) \<in> R \<Longrightarrow> triple (holds R held) (drop_read host read) (\<lambda>_. holds R held)"
  unfolding abandon_read_def drop_read_def by (rule triple_intro | assumption)+

lemma triple_cancel:
  "triple (holds R held) (client_cancel host dispatcher pending caller) (\<lambda>_. holds R held)"
  unfolding client_cancel_def transition_def by (rule triple_intro | simp add: lifecycle_states)+

lemma triple_client_close: "triple (holds R held) (client_close host) (\<lambda>_. holds R held)"
  unfolding client_close_def by (rule triple_intro)+

end

end
