(* ===== verification/Client_Runs.thy ===== *)
theory Client_Runs
  imports Client_Guarantee
begin

text \<open>
  Runs of a broker client: threads that call the operations of the session in any order, each with
  the others running between its accesses. What one thread guarantees is what another relies on, so
  the accounting of the capacity holds in every run.
\<close>

section \<open>Threads that cooperate\<close>

text \<open>A thread that runs alone, and one beside which another thread makes a whole query at every access.\<close>

definition alone :: "('t, 'x) client_host \<Rightarrow> ('t, 'x) client_host" where
  "alone host = host\<lparr>ch_interfere := \<lambda>w. w, ch_drain_order := \<lambda>xs. xs\<rparr>"

lemma alone_cooperates: "cooperates (alone host)"
  by (simp add: cooperates_def alone_def)

interpretation alone: cooperating_threads "alone host" for host
  by unfold_locales (rule alone_cooperates)

definition beside :: "('t, 'x, 'a) client_proc \<Rightarrow> ('t, 'x) client_host \<Rightarrow> ('t, 'x) client_host" where
  "beside other host = host\<lparr>ch_interfere := \<lambda>w. (case other w of Some (w', _) \<Rightarrow> w' | None \<Rightarrow> w),
     ch_drain_order := \<lambda>xs. xs\<rparr>"

lemma beside_cooperates:
  assumes "\<And>held. triple (holds {} held) other (\<lambda>_. holds {} held)"
  shows "cooperates (beside other host)"
  using assms unfolding cooperates_def
  by (auto simp: beside_def triple_def holds_def split: option.split)

interpretation beside_query: cooperating_threads "beside (client_query_journal (alone host) query) host" for host query
  by unfold_locales (rule beside_cooperates, rule alone.triple_queries)

section \<open>Runs\<close>

inductive client_step :: "('t, 'x) client_world \<Rightarrow> ('t, 'x) client_world \<Rightarrow> bool" where
  step_query: "cooperates host \<Longrightarrow> client_query_journal host query w = Some (w', journal) \<Longrightarrow> client_step w w'"
| step_register: "cooperates host \<Longrightarrow> client_register_root host registration w = Some (w', capability) \<Longrightarrow> client_step w w'"
| step_begin_range: "cooperates host \<Longrightarrow> begin_read_range host dispatcher range_request w = Some (w', range_read)
    \<Longrightarrow> client_step w w'"
| step_begin_volume: "cooperates host \<Longrightarrow> begin_read_volume host dispatcher volume_request w = Some (w', volume_read)
    \<Longrightarrow> client_step w w'"
| step_wait_range: "cooperates host \<Longrightarrow> ph_entry (pd_cancel_handle ranged) < length (cw_entries w)
    \<Longrightarrow> wait_range host ranged w = Some (w', response) \<Longrightarrow> client_step w w'"
| step_wait_volume: "cooperates host \<Longrightarrow> ph_entry (pd_cancel_handle shared) < length (cw_entries w)
    \<Longrightarrow> wait_volume host shared w = Some (w', response) \<Longrightarrow> client_step w w'"
| step_abandon_range: "cooperates host \<Longrightarrow> ph_entry (pd_cancel_handle ranged) < length (cw_entries w)
    \<Longrightarrow> abandon_read host (ranged :: pending_read_range pending_read) w = Some (w', abandoned) \<Longrightarrow> client_step w w'"
| step_drop_range: "cooperates host \<Longrightarrow> ph_entry (pd_cancel_handle ranged) < length (cw_entries w)
    \<Longrightarrow> drop_read host (ranged :: pending_read_range pending_read) w = Some (w', dropped_range) \<Longrightarrow> client_step w w'"
| step_drop_volume: "cooperates host \<Longrightarrow> ph_entry (pd_cancel_handle shared) < length (cw_entries w)
    \<Longrightarrow> drop_read host (shared :: pending_read_volume pending_read) w = Some (w', dropped_volume) \<Longrightarrow> client_step w w'"
| step_cancel: "cooperates host \<Longrightarrow> client_cancel host dispatcher handle caller w = Some (w', cancelled) \<Longrightarrow> client_step w w'"
| step_close: "cooperates host \<Longrightarrow> client_close host w = Some (w', closed) \<Longrightarrow> client_step w w'"
| step_maintain: "cooperates host \<Longrightarrow> poll_maintenance host max_steps deadline w = Some (w', maintained) \<Longrightarrow> client_step w w'"
| step_others: "cooperates host \<Longrightarrow> client_step w (ch_interfere host w)"

text \<open>The guarantees, for any thread whose others cooperate.\<close>

lemmas thread_triples =
  cooperating_threads.triple_queries [OF cooperating_threads.intro]
  cooperating_threads.triple_cancel [OF cooperating_threads.intro]
  cooperating_threads.triple_client_close [OF cooperating_threads.intro]
  cooperating_threads.triple_maintenance(1) [OF cooperating_threads.intro]

lemmas thread_reads =
  cooperating_threads.triple_begin_reads [OF cooperating_threads.intro]

lemmas thread_waits =
  cooperating_threads.triple_waits [OF cooperating_threads.intro]
  cooperating_threads.triple_abandon_read [OF cooperating_threads.intro]

definition keeps_accounts :: "('t, 'x) client_world \<Rightarrow> ('t, 'x) client_world \<Rightarrow> bool" where
  "keeps_accounts w w' \<longleftrightarrow> persists w w' \<and> (\<forall>held. accounted held w \<longrightarrow> accounted held w')"

lemma keeps_if_triple:
  assumes "\<And>held. triple (holds R held) f (\<lambda>_. holds R held)" and "f w = Some (w', a)"
    and "\<forall>r \<in> R. r < length (cw_entries w)"
  shows "keeps_accounts w w'"
  using assms unfolding triple_def holds_def keeps_accounts_def by blast

lemma keeps_if_handing:
  assumes "\<And>held. triple (holds {} held) f (\<lambda>outcome. case outcome of
      Inl _ \<Rightarrow> holds {} held | Inr read \<Rightarrow> holds (R read) held)" and "f w = Some (w', a)"
  shows "keeps_accounts w w'"
  by (rule keeps_if_triple [OF triple_weaken [OF assms(1)] assms(2)]) (auto simp: holds_def split: sum.splits)

lemma keeps_if_free:
  assumes "\<And>held. triple (holds {} held) f (\<lambda>_. holds {} held)" and "f w = Some (w', a)"
  shows "keeps_accounts w w'"
  by (rule keeps_if_triple [OF assms]) simp

lemma keeps_if_entry:
  assumes "r < length (cw_entries w)" and "f w = Some (w', a)"
    and "\<And>held. triple (holds {r} held) f (\<lambda>_. holds {r} held)"
  shows "keeps_accounts w w'"
  by (rule keeps_if_triple [OF assms(3,2)]) (use assms(1) in simp)

lemma client_step_keeps: "client_step w w' \<Longrightarrow> keeps_accounts w w'"
proof (induction rule: client_step.induct)
  case (step_others host w)
  then show ?case by (simp add: keeps_accounts_def cooperates_def)
qed ((rule keeps_if_free, rule thread_triples, assumption, assumption)
  | (rule keeps_if_handing, rule thread_reads, assumption, assumption)
  | (rule keeps_if_entry, assumption, assumption, rule thread_waits, assumption, simp))+

lemma client_run_keeps: "client_step\<^sup>*\<^sup>* w w' \<Longrightarrow> keeps_accounts w w'"
proof (induction rule: rtranclp_induct)
  case (step y z)
  with client_step_keeps [OF step(2)] show ?case by (auto simp: keeps_accounts_def intro: persists_trans)
qed (simp add: keeps_accounts_def)

lemma client_new_accounted: "accounted (\<lambda>_. 0) (client_new connection now rest)"
  by (simp add: accounted_def client_new_def refs_valid_def registered_def dispatcher_new_def class_count_def
      split: request_class.split)

section \<open>Capacity\<close>

text \<open>
  C4. The capacity of a client is never exceeded, lost or freed twice: in every run, with other
  threads at work between any two accesses, the counter of each class is the number of requests that
  are registered and of slots on their way between a thread and an entry, at most eight for business
  requests and two for control requests, so no decrement ever wraps around.
\<close>

theorem client_capacity_accounted:
  assumes "client_step\<^sup>*\<^sup>* (client_new connection now rest) w"
  shows "unat (cd_business_count (cw_dispatcher w)) = registered Business (cw_entries w) + cw_transit w Business
    \<and> unat (cd_control_count (cw_dispatcher w)) = registered Control (cw_entries w) + cw_transit w Control
    \<and> cd_business_count (cw_dispatcher w) \<le> 8 \<and> cd_control_count (cw_dispatcher w) \<le> 2"
proof -
  have a: "accounted (\<lambda>_. 0) w"
    using client_run_keeps [OF assms, unfolded keeps_accounts_def, THEN conjunct2, rule_format, OF client_new_accounted] .
  have "unat (class_count c (cw_dispatcher w)) = registered c (cw_entries w) + cw_transit w c
    \<and> unat (class_count c (cw_dispatcher w)) \<le> class_limit c" for c
    using a by (simp add: accounted_def)
  from this [of Business] this [of Control] show ?thesis
    by (simp add: class_count_def class_limit_def MAX_BUSINESS_REQUESTS_PER_CLIENT_def
        MAX_CONTROL_REQUESTS_PER_CLIENT_def word_le_nat_alt)
qed

section \<open>Completion\<close>

lemma terminal_persists:
  "persists w w' \<Longrightarrow> r < length (cw_entries w) \<Longrightarrow> lifecycle_of w r = TERMINAL \<Longrightarrow>
    r < length (cw_entries w') \<and> lifecycle_of w' r = TERMINAL"
  unfolding persists_def entry_persists_def lifecycle_of_def entry_of_def by fastforce

text \<open>What persists in the world is kept by every procedure that has a guarantee at all.\<close>

lemma triple_stable:
  assumes "triple P f Q" and "\<And>w w'. persists w w' \<Longrightarrow> S w \<Longrightarrow> S w'"
  shows "triple S f (\<lambda>_. S)"
  using assms unfolding triple_def by blast

definition ended :: "entry_ref \<Rightarrow> ('t, 'x) client_world \<Rightarrow> bool" where
  "ended r w \<longleftrightarrow> r < length (cw_entries w) \<and> lifecycle_of w r = TERMINAL"

lemma ended_persists: "persists w w' \<Longrightarrow> ended r w \<Longrightarrow> ended r w'"
  unfolding ended_def by (blast dest: terminal_persists)

lemma allocated_persists: "persists w w' \<Longrightarrow> r < length (cw_entries w) \<Longrightarrow> r < length (cw_entries w')"
  by (simp add: persists_def)

lemma ended_kept: "triple P f Q \<Longrightarrow> triple (ended r) f (\<lambda>_. ended r)"
  by (rule triple_stable, assumption) (rule ended_persists)

lemma allocated_kept: "triple P f Q \<Longrightarrow> triple (\<lambda>w. r < length (cw_entries w)) f (\<lambda>_ w. r < length (cw_entries w))"
  by (rule triple_stable, assumption) (rule allocated_persists)

lemma triple_persists: "triple P f Q \<Longrightarrow> f w = Some (w', a) \<Longrightarrow> persists w w'"
  by (auto simp: triple_def)

lemma terminate_entry_terminal:
  assumes "terminate_entry host r state w = Some (w', True)" and "r < length (cw_entries w')"
  shows "lifecycle_of w' r = TERMINAL"
proof -
  let ?P = "\<lambda>h r s w y. snd y \<longrightarrow> r < length (cw_entries (fst y)) \<longrightarrow> lifecycle_of (fst y) r = TERMINAL"
  have "?P host r state w (w', True)"
  proof (rule terminate_entry.raw_induct [where P = ?P, OF _ assms(1)], goal_cases)
    case (1 loop h r state w y)
    show ?case
    proof (cases "lifecycle_of (ch_interfere h w) r = state")
      case True
      with 1(2) show ?thesis
        by (auto simp: bind_proc_apply lifecycle_exchange_def access_def return_proc_def lifecycle_of_def
            entry_of_def nth_list_update split: if_splits)
    next
      case False
      with 1(2) have loop: "state \<noteq> TERMINAL \<Longrightarrow> \<exists>s v. loop h r s v = Some y"
        by (auto simp: bind_proc_apply lifecycle_exchange_def access_def)
      show ?thesis
      proof (cases "state = TERMINAL")
        case False
        with loop obtain s v where "loop h r s v = Some y" by blast
        from 1(1) [OF this] show ?thesis .
      qed (use 1(2) in auto)
    qed
  qed
  with assms(2) show ?thesis by simp
qed

context cooperating_threads
begin

lemma terminate_entry_ended:
  "triple (\<lambda>w. r < length (cw_entries w)) (terminate_entry host r state)
    (\<lambda>committed w. r < length (cw_entries w) \<and> (committed \<longrightarrow> ended r w))"
  unfolding triple_def
proof (intro allI impI conjI)
  fix w w' committed assume t: "terminate_entry host r state w = Some (w', committed)"
  show p: "persists w w'" by (rule triple_persists [OF triple_terminate_entry t])
  assume "r < length (cw_entries w)"
  then show "r < length (cw_entries w')" using p by (rule allocated_persists [rotated])
  then show "ended r w'" if committed using terminate_entry_terminal t that by (auto simp: ended_def)
qed

lemma finish_committed_ends:
  "triple (\<lambda>w. r < length (cw_entries w)) (finish_client_request host i r)
    (\<lambda>outcome w. outcome = Committed \<longrightarrow> ended r w)"
proof -
  have retire: "triple (\<lambda>w. r < length (cw_entries w) \<and> (committed \<longrightarrow> ended r w)) (retire_registry_only host i r)
      (\<lambda>_ w. r < length (cw_entries w) \<and> (committed \<longrightarrow> ended r w))" for committed
    by (rule triple_stable [OF triple_retire_registry_only [of r UNIV]])
      (auto intro: ended_persists allocated_persists)
  have discard: "triple (ended r) (bind_proc (case discarded of
         Inr (Ready _) \<Rightarrow> return_proc () | Inr Pending \<Rightarrow> poison_transport host
       | Inl Closed \<Rightarrow> return_proc () | Inl _ \<Rightarrow> poison_transport host) (\<lambda>_. return_proc Committed))
      (\<lambda>outcome w. outcome = Committed \<longrightarrow> ended r w)" for discarded :: "(broker_client_error, unit adapter_poll) result"
    by (rule triple_bind [where Q = "\<lambda>_. ended r"])
      (rule triple_sum triple_poll triple_error triple_return_same ended_kept [OF triple_poison_transport]
        | (rule triple_return, simp))+
  have tail: "triple (\<lambda>w. r < length (cw_entries w) \<and> (committed \<longrightarrow> ended r w)) (if \<not> committed then return_proc Superseded
      else bind_proc (transport_step host epoch (ch_try_discard host i)) (\<lambda>discarded. bind_proc (case discarded of
         Inr (Ready _) \<Rightarrow> return_proc () | Inr Pending \<Rightarrow> poison_transport host
       | Inl Closed \<Rightarrow> return_proc () | Inl _ \<Rightarrow> poison_transport host) (\<lambda>_. return_proc Committed)))
      (\<lambda>outcome w. outcome = Committed \<longrightarrow> ended r w)" for committed epoch
  proof (cases committed)
    case True
    have "triple (ended r) (bind_proc (transport_step host epoch (ch_try_discard host i)) (\<lambda>discarded. bind_proc (case discarded of
         Inr (Ready _) \<Rightarrow> return_proc () | Inr Pending \<Rightarrow> poison_transport host
       | Inl Closed \<Rightarrow> return_proc () | Inl _ \<Rightarrow> poison_transport host) (\<lambda>_. return_proc Committed)))
       (\<lambda>outcome w. outcome = Committed \<longrightarrow> ended r w)"
      by (rule triple_bind [OF ended_kept [OF triple_transport_step] discard])
    with True show ?thesis by (auto simp: triple_def)
  qed (simp add: triple_return)
  note kept = allocated_kept [of _ _ _ r, THEN triple_bind]
  show ?thesis
    unfolding finish_client_request_def
    by (rule UNIV_I kept [OF triple_apply_requested] kept [OF triple_read(1)] kept [OF triple_superseded(1)] tail triple_if
      kept [OF triple_retire_registry_only [of r UNIV]] kept [OF triple_load] triple_bind [OF terminate_entry_ended]
      triple_bind [OF retire] | (rule triple_return, simp))+
qed

lemma finish_ended_superseded:
  "triple (ended r) (finish_client_request host i r) (\<lambda>outcome _. outcome = Superseded)"
proof -
  have load: "triple (ended r) (load host (\<lambda>w. lifecycle_of w r)) (\<lambda>state w. ended r w \<and> state = TERMINAL)"
    using triple_load [of UNIV "\<lambda>_. 0" "\<lambda>w. lifecycle_of w r"] ended_persists
    by (fastforce simp: triple_def load_def access_def ended_def)
  have terminate: "triple (\<lambda>w. ended r w \<and> state = TERMINAL) (terminate_entry host r state) (\<lambda>committed _. \<not> committed)" for state
    using triple_terminate_entry [of UNIV "\<lambda>_. 0" r state] terminate_entry.simps [of host r TERMINAL]
    by (auto simp: triple_def)
  have any: "triple (\<lambda>_. P) (retire_registry_only host i r) (\<lambda>_ _. P)" for P
    by (rule triple_stable [OF triple_retire_registry_only [of r UNIV]]) simp_all
  have tail: "triple (\<lambda>_. \<not> committed) (if \<not> committed then return_proc Superseded else f) (\<lambda>outcome _. outcome = Superseded)"
    if "triple (\<lambda>_. True) f (\<lambda>_ _. True)" for committed f
    using that by (cases committed) (auto simp: triple_def return_proc_def)
  have discard: "triple (\<lambda>_. True) (bind_proc (transport_step host epoch (ch_try_discard host i)) (\<lambda>discarded. bind_proc (case discarded of
         Inr (Ready _) \<Rightarrow> return_proc () | Inr Pending \<Rightarrow> poison_transport host
       | Inl Closed \<Rightarrow> return_proc () | Inl _ \<Rightarrow> poison_transport host) (\<lambda>_. return_proc Committed))) (\<lambda>_ _. True)" for epoch
    by (rule triple_stable [where S = "\<lambda>_. True"], (rule triple_intro)+) simp
  note kept = ended_kept [of _ _ _ r, THEN triple_bind]
  show ?thesis
    unfolding finish_client_request_def
    by (rule UNIV_I kept [OF triple_apply_requested] kept [OF triple_read(1)] kept [OF triple_superseded(1)] tail discard triple_if
      kept [OF triple_retire_registry_only [of r UNIV]] triple_bind [OF load] triple_bind [OF terminate]
      triple_bind [OF any] | (rule triple_return, simp))+
qed

end

lemma case_sum_eq_Some:
  "(case x of Inl e \<Rightarrow> f e | Inr a \<Rightarrow> g a) w = Some y \<longleftrightarrow>
    (\<exists>e. x = Inl e \<and> f e w = Some y) \<or> (\<exists>a. x = Inr a \<and> g a w = Some y)"
  by (cases x) auto

lemma try_proc_eq_Some:
  "try_proc f k w = Some (w', b) \<longleftrightarrow>
    (\<exists>e. f w = Some (w', Inl e) \<and> b = Inl e) \<or> (\<exists>w1 a. f w = Some (w1, Inr a) \<and> k a w1 = Some (w', b))"
  by (auto simp: try_proc_def bind_proc_eq_Some case_sum_eq_Some return_proc_def)

lemma finish_result_eq_Some:
  "finish_result host i r outcome w = Some (w', final) \<longleftrightarrow> (\<exists>finished. finish_client_request host i r w = Some (w', finished)
    \<and> final = (case finished of Committed \<Rightarrow> outcome | Superseded \<Rightarrow> Inl Closed))"
  by (auto simp: finish_result_def map_proc_def bind_proc_eq_Some return_proc_def)

text \<open>
  C5. A request ends once: when a thread that completes a request gets its result, every later
  completion of the same request, by any thread and after any further run of the client, is refused.
\<close>

theorem request_ends_once:
  assumes "cooperates host" and "cooperates host'" and "r < length (cw_entries w)"
    and "finish_result host i r (Inr a) w = Some (w1, Inr a)" and "client_step\<^sup>*\<^sup>* w1 w2"
    and "finish_result host' j r (Inr b) w2 = Some (w3, outcome)"
  shows "outcome = Inl Closed"
proof -
  from assms(4) obtain finished where "finish_client_request host i r w = Some (w1, finished)"
    "(case finished of Committed \<Rightarrow> Inr a | Superseded \<Rightarrow> Inl Closed) = Inr a"
    by (auto simp: finish_result_eq_Some)
  then have "finish_client_request host i r w = Some (w1, Committed)" by (cases finished) simp_all
  with cooperating_threads.finish_committed_ends [OF cooperating_threads.intro [OF assms(1)], of r i] assms(3)
  have "ended r w1" by (auto simp: triple_def)
  moreover have "persists w1 w2" using client_run_keeps [OF assms(5)] by (simp add: keeps_accounts_def)
  ultimately have "ended r w2" by (rule ended_persists [rotated])
  then show ?thesis
    using cooperating_threads.finish_ended_superseded [OF cooperating_threads.intro [OF assms(2)], of r j] assms(6)
    by (fastforce simp: triple_def finish_result_eq_Some)
qed

section \<open>Closing\<close>

definition admission_closed :: "('t, 'x) client_world \<Rightarrow> bool" where
  "admission_closed w \<longleftrightarrow> cd_admission_closed (cw_dispatcher w)"

lemma closed_persists: "persists w w' \<Longrightarrow> admission_closed w \<Longrightarrow> admission_closed w'"
  by (simp add: persists_def dispatcher_persists_def admission_closed_def)

lemma closed_kept: "triple P f Q \<Longrightarrow> triple admission_closed f (\<lambda>_. admission_closed)"
  by (rule triple_stable, assumption) (rule closed_persists)

text \<open>An operation that does not return is not said to be refused.\<close>

definition refused :: "(('t, 'x) client_world \<times> (broker_client_error, 'a) result) option \<Rightarrow> bool" where
  "refused returned \<longleftrightarrow> (\<forall>w outcome. returned = Some (w, outcome) \<longrightarrow> (\<exists>error. outcome = Inl error))"

lemma closed_refused:
  assumes "cooperates host"
    and "try_proc (maintain_before_operation host) (\<lambda>_. try_proc (ensure_open host) k) w = Some (w', outcome)"
    and "admission_closed w"
  shows "\<exists>error. outcome = Inl error"
proof -
  note m = cooperating_threads.triple_maintenance(2) [OF cooperating_threads.intro [OF assms(1)], of UNIV "\<lambda>_. 0"]
  from assms(2) consider (failed) error where "outcome = Inl error"
    | (maintained) w1 w2 opened where "maintain_before_operation host w = Some (w1, Inr ())"
      "ensure_open host w1 = Some (w2, opened)" "\<And>error. opened = Inl error \<Longrightarrow> outcome = Inl error"
    by (fastforce simp: try_proc_eq_Some)
  then show ?thesis
  proof cases
    case maintained
    with closed_kept [OF m] assms(3) have "admission_closed w1" by (auto simp: triple_def)
    then have "admission_closed (ch_interfere host w1)" using closed_persists assms(1) unfolding cooperates_def by blast
    with maintained(2,3) show ?thesis by (auto simp: ensure_open_def load_def access_def admission_closed_def)
  qed simp
qed

text \<open>
  C8. A client that is closed stays closed: once the admission is closed, by \<open>close\<close> or by a
  transport that failed, then after any further run of the client every query, registration, read and
  cancellation that returns is refused with an error.
\<close>

theorem closed_client_refuses:
  assumes "cd_admission_closed (cw_dispatcher w0)" and "client_step\<^sup>*\<^sup>* w0 w" and "cooperates host"
  shows "refused (client_query_journal host query w) \<and> refused (client_register_root host registration w)
    \<and> refused (begin_read_range host dispatcher range_request w)
    \<and> refused (begin_read_volume host dispatcher volume_request w)
    \<and> refused (client_cancel host dispatcher handle caller w)"
proof -
  have closed: "admission_closed w"
    using client_run_keeps [OF assms(2)] assms(1) closed_persists
    unfolding keeps_accounts_def admission_closed_def by blast
  note refuses = closed_refused [OF assms(3) _ closed]
  show ?thesis
    unfolding refused_def client_query_journal_def client_register_root_def begin_read_range_def begin_read_volume_def
      client_cancel_def
    by (intro conjI allI impI) (erule refuses)+
qed

section \<open>Results\<close>

lemma conclude_request_Inr:
  assumes "conclude_request host i caller r response w = Some (w', Inr a)"
  shows "response = Inr a"
proof (cases "ends_request response")
  case True
  with assms obtain finished where "Inr a = (case finished of Committed \<Rightarrow> response | Superseded \<Rightarrow> Inl Closed)"
    by (auto simp: conclude_request_def finish_result_eq_Some)
  then show ?thesis by (cases finished) simp_all
next
  case False
  with assms show ?thesis by (auto simp: conclude_request_def bind_proc_eq_Some return_proc_def)
qed

lemma receive_response_Inr:
  assumes "receive_response host i timeout client epoch w = Some (w', Inr response)"
  shows "\<exists>frame. receive_frame i client frame = Inr response"
  using assms by (auto simp: receive_response_def bind_proc_eq_Some map_proc_def return_proc_def bind_result_eq_Inr
    split: option.splits)

lemma wait_read_Inr:
  assumes "wait_read host check read w = Some (w', Inr response)"
  shows "\<exists>frame received. receive_frame (ph_target_request_id (pd_cancel_handle read))
      (ph_client_instance (pd_cancel_handle read)) frame = Inr received
    \<and> check (pd_expected read) received = Inr response"
proof -
  from assms obtain w1 w2 epoch received where
    "receive_response host (ph_target_request_id (pd_cancel_handle read)) (pd_timeout read)
       (ph_client_instance (pd_cancel_handle read)) epoch w1 = Some (w2, received)"
    "conclude_request host (ph_target_request_id (pd_cancel_handle read)) (pd_caller read)
       (ph_entry (pd_cancel_handle read)) (bind_result received (check (pd_expected read))) w2 = Some (w', Inr response)"
    by (auto simp: wait_read_def Let_def bind_proc_eq_Some)
  with conclude_request_Inr [OF this(2)] show ?thesis
    by (fastforce simp: bind_result_eq_Inr dest: receive_response_Inr)
qed

lemma begin_read_Inr:
  assumes "begin_read host dispatcher request caller timeout_ms expected check w = Some (w', Inr read)"
  shows "pd_expected read = expected \<and> ph_client_instance (pd_cancel_handle read) = cc_client_instance caller"
  using assms
  by (auto simp: begin_read_def try_proc_eq_Some bind_proc_eq_Some return_proc_def case_sum_eq_Some)

end
