(* ===== verification/Client_Progress.thy ===== *)
theory Client_Progress
  imports Client_Operations
begin

text \<open>
  The operations of a broker client return: a thread that no other thread disturbs while it ends a
  request, and whose clock advances, comes to the end of every operation, however often the transport
  has nothing for it.
\<close>

section \<open>Procedures that return\<close>

definition returns :: "('w, 'a) proc \<Rightarrow> bool" where
  "returns f \<longleftrightarrow> (\<forall>w. f w \<noteq> None)"

text \<open>The clock never goes back.\<close>

definition clock_kept :: "('t, 'x, 'a) client_proc \<Rightarrow> bool" where
  "clock_kept f \<longleftrightarrow> (\<forall>w w' a. f w = Some (w', a) \<longrightarrow> cw_now w \<le> cw_now w')"

named_theorems returns_intro

lemma returns_basic [returns_intro]:
  "returns (return_proc a)" "returns (entry_epoch r)" "returns (entry_class r)" "returns (access host f)"
  "returns (load host g)" "returns (store host h)"
  by (simp_all add: returns_def return_proc_def entry_epoch_def entry_class_def load_def store_def access_def)

lemma returns_bind [returns_intro]: "returns f \<Longrightarrow> (\<And>a. returns (k a)) \<Longrightarrow> returns (bind_proc f k)"
  by (auto simp: returns_def bind_proc_def bind_eq_None_conv)

lemma returns_map [returns_intro]: "returns f \<Longrightarrow> returns (map_proc g f)"
  unfolding map_proc_def by (intro returns_intro)

lemma returns_case [returns_intro]:
  "returns f \<Longrightarrow> returns g \<Longrightarrow> returns (if b then f else g)"
  "(\<And>e. returns (f1 e)) \<Longrightarrow> (\<And>a. returns (g1 a)) \<Longrightarrow> returns (case x of Inl e \<Rightarrow> f1 e | Inr a \<Rightarrow> g1 a)"
  "returns f \<Longrightarrow> (\<And>a. returns (g2 a)) \<Longrightarrow> returns (case y of None \<Rightarrow> f | Some a \<Rightarrow> g2 a)"
  "(\<And>a. returns (g3 a)) \<Longrightarrow> returns f \<Longrightarrow> returns (case z of Ready a \<Rightarrow> g3 a | Pending \<Rightarrow> f)"
  "(\<And>a b. returns (g4 a b)) \<Longrightarrow> returns (case p of (a, b) \<Rightarrow> g4 a b)"
  "returns f \<Longrightarrow> (\<And>e. returns (g5 e)) \<Longrightarrow> (\<And>q. returns (g6 q))
    \<Longrightarrow> returns (case r of AdapterPanicked \<Rightarrow> f | AdapterFailed e \<Rightarrow> g5 e | AdapterPolled q \<Rightarrow> g6 q)"
  "returns f \<Longrightarrow> returns g \<Longrightarrow> returns (case error of Closed \<Rightarrow> f | _ \<Rightarrow> g)"
  by (simp_all split: sum.split option.split adapter_poll.split prod.split adapter_result.split broker_client_error.split)

lemma returns_try [returns_intro]: "returns f \<Longrightarrow> (\<And>a. returns (k a)) \<Longrightarrow> returns (try_proc f k)"
  unfolding try_proc_def by (intro returns_intro)

lemma returns_or [returns_intro]: "returns f \<Longrightarrow> returns g \<Longrightarrow> returns (or_proc f g)"
  unfolding or_proc_def by (intro returns_intro)

lemma returns_each [returns_intro]: "(\<And>x. returns (f x)) \<Longrightarrow> returns (each_proc f xs)"
  by (induction xs) (auto intro: returns_intro)

lemma returns_access_defs [returns_intro]:
  "returns (lifecycle_exchange host r current new)" "returns (close_state_exchange host current new)"
  "returns (deadline_after host duration)" "returns (before_deadline host deadline)"
  "returns (reserve_capacity host c)" "returns (release_capacity host c)" "returns (take_request_id host)"
  "returns (insert_entry host request_id c epoch)" "returns (claim_retirement host r)"
  "returns (remove_request_entry host request_id)" "returns (drain_requests host)"
  "returns (try_send_cleanup host task)" "returns (try_recv_cleanup host)" "returns (ensure_open host)"
  by (simp_all add: lifecycle_exchange_def close_state_exchange_def deadline_after_def before_deadline_def
      reserve_capacity_def release_capacity_def take_request_id_def insert_entry_def claim_retirement_def
      remove_request_entry_def drain_requests_def try_send_cleanup_def try_recv_cleanup_def ensure_open_def
      returns_basic)

lemma returns_straight [returns_intro]:
  "returns (backoff_park host deadline delay)" "returns (retire_capacity host r)"
  "returns (transition host r current new)" "returns (superseded host epoch)" "returns (unusable host epoch)"
  "returns (poison_pending host)" "returns (retire_registry_only host request_id r)"
  unfolding backoff_park_def retire_capacity_def transition_def unusable_def superseded_def poison_pending_def
    retire_registry_only_def
  by (intro returns_intro)+

lemma returns_register [returns_intro]:
  "returns (transport_step host epoch step)" "returns (register_request host c)" "returns (sweep_entry host p)"
  "returns (sweep_terminal_entries host)"
  unfolding transport_step_def register_request_def sweep_entry_def sweep_terminal_entries_def
  by (intro returns_intro)+

section \<open>Steady surroundings\<close>

text \<open>
  Between two accesses of the thread the clock advances, and no other thread moves a request or the
  close state. What other threads do to everything else is not restricted.
\<close>

definition steady :: "('t, 'x) client_host \<Rightarrow> bool" where
  "steady host \<longleftrightarrow> (\<forall>w. cw_now w < cw_now (ch_interfere host w)
     \<and> (\<forall>r. lifecycle_of (ch_interfere host w) r = lifecycle_of w r)
     \<and> cd_transport_close_state (cw_dispatcher (ch_interfere host w)) = cd_transport_close_state (cw_dispatcher w))"

locale steady_threads =
  fixes host :: "('t, 'x) client_host"
  assumes steady: "steady host"
begin

lemma lifecycle_steady: "lifecycle_of (ch_interfere host w) r = lifecycle_of w r"
  using steady unfolding steady_def by blast

lemma close_state_steady:
  "cd_transport_close_state (cw_dispatcher (ch_interfere host w)) = cd_transport_close_state (cw_dispatcher w)"
  using steady unfolding steady_def by blast

lemma clock_advances: "cw_now w < cw_now (ch_interfere host w)"
  using steady unfolding steady_def by blast

lemma exchange_result:
  obtains (moved) w' where "lifecycle_exchange host r state new w = Some (w', Inr ())"
  | (seen) w' where "lifecycle_exchange host r state new w = Some (w', Inl (lifecycle_of w' r))" "lifecycle_of w' r \<noteq> state"
  by (cases "lifecycle_of (ch_interfere host w) r = state") (simp_all add: lifecycle_exchange_def access_def)

lemma exchange_seen: "\<exists>w'. lifecycle_exchange host r (lifecycle_of w r) new w = Some (w', Inr ())"
  by (simp add: lifecycle_exchange_def access_def lifecycle_steady)

lemma terminate_entry_seen: "terminate_entry host r (lifecycle_of w r) w \<noteq> None"
  using exchange_seen [of r w TERMINAL]
  by (subst terminate_entry.simps) (auto simp: bind_proc_def return_proc_def)

lemma terminate_entry_returns [returns_intro]: "returns (terminate_entry host r state)"
  unfolding returns_def
proof
  fix w
  show "terminate_entry host r state w \<noteq> None"
    by (subst terminate_entry.simps, rule exchange_result [of r state TERMINAL w])
      (auto simp: bind_proc_def return_proc_def terminate_entry_seen simp del: not_None_eq)
qed

lemma claim_cancellation_seen: "claim_cancellation host r (lifecycle_of w r) w \<noteq> None"
  using exchange_seen [of r w CANCEL_IN_FLIGHT]
  by (subst claim_cancellation.simps) (auto simp: bind_proc_def return_proc_def)

lemma claim_cancellation_returns [returns_intro]: "returns (claim_cancellation host r state)"
  unfolding returns_def
proof
  fix w
  show "claim_cancellation host r state w \<noteq> None"
    by (subst claim_cancellation.simps, rule exchange_result [of r state CANCEL_IN_FLIGHT w])
      (auto simp: bind_proc_def return_proc_def claim_cancellation_seen simp del: not_None_eq)
qed

lemma close_state_seen:
  "\<exists>w'. close_state_exchange host (cd_transport_close_state (cw_dispatcher w)) new w = Some (w', Inr ())"
  by (simp add: close_state_exchange_def access_def close_state_steady)

lemma close_exchange_result:
  obtains (moved) w' where "close_state_exchange host state new w = Some (w', Inr ())"
  | (seen) w' where "close_state_exchange host state new w
      = Some (w', Inl (cd_transport_close_state (cw_dispatcher w')))"
  by (cases "cd_transport_close_state (cw_dispatcher (ch_interfere host w)) = state")
    (simp_all add: close_state_exchange_def access_def)

lemma poison_close_state_seen: "poison_close_state host (cd_transport_close_state (cw_dispatcher w)) w \<noteq> None"
  using close_state_seen [of w CLOSE_POISONED]
  by (subst poison_close_state.simps) (auto simp: bind_proc_def return_proc_def)

lemma poison_close_state_returns [returns_intro]: "returns (poison_close_state host state)"
  unfolding returns_def
proof
  fix w
  show "poison_close_state host state w \<noteq> None"
    by (subst poison_close_state.simps, rule close_exchange_result [of state CLOSE_POISONED w])
      (auto simp: bind_proc_def return_proc_def poison_close_state_seen simp del: not_None_eq)
qed

lemma poison_returns [returns_intro]:
  "returns (clear_requests_locked host)" "returns (apply_poison_locked host)"
  "returns (apply_requested_poison host)" "returns (apply_deferred_poison_and_sweep host)"
  "returns (poison_transport host)" "returns (poison_transport_nonblocking host)" "returns (activate_read host r)"
  unfolding clear_requests_locked_def clear_entry_def apply_requested_poison_def apply_poison_locked_def
    apply_deferred_poison_and_sweep_def poison_transport_def poison_transport_nonblocking_def activate_read_def
  by (intro returns_intro)+

section \<open>The clock\<close>

lemma clock_kept_access:
  "(\<And>w. cw_now (fst (f w)) = cw_now w) \<Longrightarrow> clock_kept (access host f)"
  using less_imp_le [OF clock_advances] by (auto simp: clock_kept_def access_def split: prod.splits) (metis fst_conv)

lemma clock_kept_load: "clock_kept (load host g)"
  unfolding load_def by (rule clock_kept_access) simp

lemma clock_kept_return: "clock_kept (return_proc a)"
  by (simp add: clock_kept_def return_proc_def)

lemma clock_kept_bind: "clock_kept f \<Longrightarrow> (\<And>a. clock_kept (k a)) \<Longrightarrow> clock_kept (bind_proc f k)"
  unfolding clock_kept_def by (fastforce simp: bind_proc_def bind_eq_Some_conv dest: order_trans)

lemmas clock_kept_rules = clock_kept_bind clock_kept_return clock_kept_load

lemma clock_kept_unusable: "clock_kept (unusable host epoch)"
  unfolding unusable_def superseded_def or_proc_def
  by (auto intro!: clock_kept_rules split: if_split)

lemma clock_kept_step: "clock_kept (transport_step host epoch step)"
proof -
  have access: "clock_kept (access host (\<lambda>w. case step (cw_transport w) of (t, r) \<Rightarrow> (w\<lparr>cw_transport := t\<rparr>, r)))"
    by (rule clock_kept_access) (simp add: split_beta)
  show ?thesis
    unfolding transport_step_def
    by (auto intro!: clock_kept_rules clock_kept_unusable access split: adapter_result.split)
qed

lemma clock_kept_park: "clock_kept (backoff_park host deadline delay)"
  unfolding backoff_park_def by (auto intro!: clock_kept_rules)

section \<open>Polling\<close>

text \<open>
  The loops that poll the transport until a deadline: each turn that finds nothing takes time, so the
  loop comes to its deadline.
\<close>

lemma polling_returns:
  assumes unfold: "\<And>delay w. loop delay w =
      bind_proc (transport_step host epoch step) (\<lambda>polled. case polled of
        Inl error \<Rightarrow> failed error
      | Inr (Ready a) \<Rightarrow> ready a
      | Inr Pending \<Rightarrow> bind_proc (before_deadline host deadline) (\<lambda>early.
          if early then bind_proc (backoff_park host deadline delay) loop else late)) w"
    and "\<And>error. returns (failed error)" and "\<And>a. returns (ready a)" and "returns late"
  shows "returns (loop delay)"
proof -
  have "loop delay w \<noteq> None" for w
  proof (induction "deadline - cw_now w" arbitrary: delay w rule: less_induct)
    case less
    obtain w1 polled where step: "transport_step host epoch step w = Some (w1, polled)"
      using returns_register(1) unfolding returns_def by (metis option.exhaust prod.exhaust)
    let ?w2 = "ch_interfere host w1"
    have early: "before_deadline host deadline w1 = Some (?w2, cw_now ?w2 < deadline)"
      by (simp add: before_deadline_def load_def access_def)
    obtain w3 delay' where park: "backoff_park host deadline delay ?w2 = Some (w3, delay')"
      using returns_straight(1) unfolding returns_def by (metis option.exhaust prod.exhaust)
    have "cw_now w < cw_now ?w2" "cw_now ?w2 \<le> cw_now w3"
      using clock_kept_step [of epoch step] clock_kept_park [of deadline delay] step park clock_advances [of w1]
      unfolding clock_kept_def by (blast intro: le_less_trans)+
    then have later: "loop delay' w3 \<noteq> None" if "cw_now ?w2 < deadline"
      using less.hyps [of w3 delay'] that by linarith
    show ?case
      using assms(2-4) step early park later
      by (subst unfold)
        (auto simp: bind_proc_def returns_def split: sum.split adapter_poll.split simp del: not_None_eq)
  qed
  then show ?thesis unfolding returns_def by blast
qed

lemma poll_transport_returns: "returns (poll_transport host epoch deadline step delay)"
  by (rule polling_returns [where loop = "poll_transport host epoch deadline step"],
      rule poll_transport.simps) (intro returns_intro)+

lemma poll_transport_until_returns [returns_intro]: "returns (poll_transport_until host epoch deadline step)"
  unfolding poll_transport_until_def by (rule poll_transport_returns)

lemma send_frame_returns [returns_intro]: "returns (send_frame host frame epoch deadline delay)"
  by (rule polling_returns [where loop = "send_frame host frame epoch deadline"], rule send_frame.simps)
    (intro returns_intro)+

section \<open>Operations\<close>

lemma finish_returns [returns_intro]:
  "returns (finish_client_request host request_id r)" "returns (finish_result host request_id r outcome)"
  "returns (register_awaiting host c)" "returns (fail_cleanup_nonblocking host request_id r)"
  unfolding finish_client_request_def finish_result_def register_awaiting_def fail_cleanup_nonblocking_def
  by (intro returns_intro)+

lemma abandon_steps_return [returns_intro]:
  "returns (encode_cancel_frame host caller target_request_id)"
  "returns (abandon_over_transport host task deadline cancel_frame close_connection)"
  "returns (queue_abandon host target_request_id caller r)"
  unfolding encode_cancel_frame_def abandon_over_transport_def queue_abandon_def queue_abandon_from_def
  by (intro returns_intro)+

lemma process_queued_abandon_returns [returns_intro]: "returns (process_queued_abandon host task deadline)"
  unfolding process_queued_abandon_def Let_def by (intro returns_intro)

lemma maintenance_loop_returns [returns_intro]: "returns (maintenance_loop host deadline steps processed)"
proof (induction steps arbitrary: processed)
  case 0
  show ?case unfolding maintenance_loop.simps by (intro returns_intro)
next
  case (Suc steps)
  show ?case unfolding maintenance_loop.simps by (intro returns_intro Suc.IH)
qed

lemma maintenance_returns [returns_intro]:
  "returns (poll_maintenance host max_steps deadline)" "returns (maintain_before_operation host)"
  unfolding poll_maintenance_def maintain_before_operation_def by (intro returns_intro)+

lemma conclude_close_returns [returns_intro]: "returns (conclude_close host outcome)"
  by (cases "(host, outcome)" rule: conclude_close.cases) (simp_all, (intro returns_intro)+)

lemma close_returns [returns_intro]:
  "returns (begin_close_epoch host)" "returns (fail_close_before_poison host epoch)"
  "returns (close_in_progress host)" "returns (close_transport host)"
  unfolding begin_close_epoch_def fail_close_before_poison_def close_in_progress_def close_transport_def
  by (intro returns_intro)+

lemma await_frame_returns [returns_intro]: "returns (await_frame host request_id epoch deadline delay)"
  by (rule polling_returns [where loop = "await_frame host request_id epoch deadline"], rule await_frame.simps)
    (intro returns_intro)+

lemma transfer_returns [returns_intro]:
  "returns (send_request host request epoch)"
  "returns (receive_response host request_id timeout expected_client_instance epoch)"
  "returns (send_cancel_control host target_request_id caller)"
  unfolding send_request_def receive_response_def send_cancel_control_def by (intro returns_intro)+

lemma conclude_returns [returns_intro]:
  "returns (abandon_bounded host target_request_id caller r)"
  "returns (conclude_request host request_id caller r response)"
  unfolding abandon_bounded_def conclude_request_def by (intro returns_intro)+

lemma exchange_returns [returns_intro]:
  "returns (exchange host request caller timeout_ms check)"
  "returns (begin_read host dispatcher request caller timeout_ms expected check_accepted)"
  "returns (wait_read host check_response self)"
  unfolding exchange_def begin_read_def wait_read_def Let_def by (intro returns_intro)+

lemma operations_return [returns_intro]:
  "returns (client_query_journal host query)" "returns (client_register_root host registration)"
  "returns (begin_read_range host dispatcher range_request)" "returns (wait_range host pending_range)"
  "returns (begin_read_volume host dispatcher volume_request)" "returns (wait_volume host pending_volume)"
  "returns (abandon_read host pending)" "returns (drop_read host pending)"
  "returns (client_cancel host dispatcher handle caller)" "returns (client_close host)"
  unfolding client_query_journal_def client_register_root_def begin_read_range_def wait_range_def
    begin_read_volume_def wait_volume_def abandon_read_def drop_read_def client_cancel_def client_close_def
  by (intro returns_intro)+

lemma sessions_return:
  "returns (session_begin_read_range host dispatcher range_request)"
  "returns (session_begin_read_volume host dispatcher volume_request)"
  "returns (pending_read_cancel host pending caller)" "returns (pending_read_wait host pending)"
  unfolding session_begin_read_range_def session_begin_read_volume_def pending_read_cancel_def pending_read_wait_def
  by (auto intro!: returns_map operations_return returns_basic split: option.split broker_pending_read_kind.split)

end

text \<open>A client whose other threads are idle while its clock ticks is steady.\<close>

definition ticking :: "('t, 'x) client_host \<Rightarrow> ('t, 'x) client_host" where
  "ticking host = host\<lparr>ch_interfere := \<lambda>w. w\<lparr>cw_now := cw_now w + 1\<rparr>\<rparr>"

lemma ticking_steady: "steady (ticking host)"
  by (simp add: steady_def ticking_def lifecycle_of_def entry_of_def)

interpretation ticking: steady_threads "ticking host" for host
  by unfold_locales (rule ticking_steady)

text \<open>
  C7. Every operation of a client returns: while the clock advances and no other thread moves requests
  or the close state, queries, registrations, reads, waits, cancellations, abandonment and closing all
  come to an end, whatever the transport answers and however often it is not ready.
\<close>

theorem client_operations_return:
  assumes "steady host"
  shows "returns (client_query_journal host query) \<and> returns (client_register_root host registration)
    \<and> returns (begin_read_range host dispatcher range_request) \<and> returns (wait_range host pending_range)
    \<and> returns (begin_read_volume host dispatcher volume_request) \<and> returns (wait_volume host pending_volume)
    \<and> returns (abandon_read host abandoned) \<and> returns (drop_read host dropped)
    \<and> returns (client_cancel host dispatcher handle caller) \<and> returns (client_close host)
    \<and> returns (session_begin_read_volume host dispatcher volume_request) \<and> returns (pending_read_wait host pending)"
  using steady_threads.operations_return [OF steady_threads.intro [OF assms]]
    steady_threads.sessions_return [OF steady_threads.intro [OF assms]] by blast

end
