(* ===== verification/Service_Reads.thy ===== *)
theory Service_Reads
  imports Broker_Service "HOL-Library.Sublist"
begin

text \<open>
  What the broker service answers to a range read: whatever the backend offers and the name
  comparison says, the response passes the protocol's own validation and its evidence stays within
  the limit of the request, so the peer accepts it.

  The one thing assumed of an authorizer is what its method is for:
  \<open>filter_disclosable_candidates\<close> filters.
\<close>

section \<open>Placing candidates under a root\<close>

text \<open>What a candidate keeps when it is placed under a root.\<close>

definition placed_from :: "backend_journal_candidate \<Rightarrow> broker_candidate \<Rightarrow> bool" where
  "placed_from c b \<longleftrightarrow> broker_candidate_validate b = Inr () \<and> wf_candidate b
     \<and> bc_usn b = jc_usn c \<and> bc_file_reference b = jc_file_reference c
     \<and> bc_is_directory b = jc_is_directory c
     \<and> (\<exists>n m. backend_evidence_bytes c = Inr n \<and> candidate_evidence_bytes b = Some m \<and> m \<le> n)"

text \<open>A scope with the units of the path it came from as a bound.\<close>

definition scope_within :: "nat \<Rightarrow> candidate_scope \<Rightarrow> bool" where
  "scope_within n s \<longleftrightarrow> wf_scope s \<and> (\<exists>m. scope_evidence_bytes s = Some m \<and> m \<le> 2 * n)"

lemma placed_scope_within:
  assumes "normalize_backend_path p = Inr path" and "length p * 2 < 2 ^ 64"
    and "scope_under_root compare path root ms = Inr (Some scope)"
  shows "scope_within (length p) (to_candidate_scope scope)"
proof (cases scope)
  case ScopeRoot
  have "p \<noteq> []"
    using assms(1) by (auto simp: normalize_backend_path_def normalize_absolute_path_eq_Inr)
  with ScopeRoot show ?thesis
    by (cases p) (simp_all add: to_candidate_scope_def scope_within_def scope_evidence_bytes_def)
next
  case (ScopeRelative rel)
  with scope_relative_text [OF assms(1)] assms(2,3) show ?thesis
    by (fastforce simp: to_candidate_scope_def scope_within_def scope_evidence_bytes_def)
qed

lemma candidate_evidence_le:
  assumes "scope_within n (bc_scope b)"
    and "case bc_previous_scope b of None \<Rightarrow> True | Some s \<Rightarrow> scope_within m s"
    and "2 * n + (if bc_previous_scope b = None then 0 else 2 * m) + length (bc_file_reference b) \<le> k"
    and "k < 2 ^ 64"
  shows "\<exists>e \<le> k. candidate_evidence_bytes b = Some e"
  using assms
  by (auto simp: candidate_evidence_bytes_def scope_within_def checked_add_def split: option.splits)

lemma backend_evidence_bytes_eq_Inr:
  "backend_evidence_bytes c = Inr n \<longleftrightarrow> n < 2 ^ 64
     \<and> n = 2 * length (jc_absolute_path_utf16 c)
       + (case jc_previous_absolute_path_utf16 c of None \<Rightarrow> 0 | Some p \<Rightarrow> 2 * length p)
       + length (jc_file_reference c)"
  by (auto simp: backend_evidence_bytes_def ok_or_eq_Inr bind_eq_Some_conv split: option.splits)

lemma placement_within:
  assumes "candidate_placement kind dir cur prev = Some (scope, pscope, k)"
    and "\<And>s. cur = Some s \<Longrightarrow> scope_within n (to_candidate_scope s)"
    and "\<And>s. prev = Some s \<Longrightarrow> scope_within m (to_candidate_scope s)"
  shows "(\<exists>i. scope_within i scope \<and> (case pscope of None \<Rightarrow> i \<le> n + m
      | Some s \<Rightarrow> \<exists>j. scope_within j s \<and> i + j \<le> n + m))"
proof (cases cur)
  case None
  with assms obtain p where "prev = Some p" "scope = to_candidate_scope p" "pscope = None"
    by (cases prev) auto
  with assms(3) show ?thesis by (intro exI [of _ m]) simp
next
  case (Some c)
  with assms(1) have "scope = to_candidate_scope c" "pscope = map_option to_candidate_scope prev"
    by (cases prev; simp)+
  with Some assms(2,3) show ?thesis by (intro exI [of _ n]) (auto split: option.split)
qed

lemma placed_candidate_simps:
  "bc_scope (placed_candidate c (scope, pscope, k)) = scope"
  "bc_previous_scope (placed_candidate c (scope, pscope, k)) \<in> {None, pscope}"
  "bc_usn (placed_candidate c (scope, pscope, k)) = jc_usn c"
  "bc_file_reference (placed_candidate c (scope, pscope, k)) = jc_file_reference c"
  "bc_is_directory (placed_candidate c (scope, pscope, k)) = jc_is_directory c"
  by (simp_all add: placed_candidate_def Let_def)

lemma constrain_candidate_eq_Some:
  "constrain_candidate compare root canonical c = Inr (Some b) \<longleftrightarrow>
    jc_volume_id c = pb_volume_id (ap_pinned_root root)
    \<and> (\<exists>current cur prv placement. normalize_backend_path (jc_absolute_path_utf16 c) = Inr current
      \<and> scope_under_root compare current canonical
          (semantics_components (pb_name_semantics (ap_pinned_root root))) = Inr cur
      \<and> previous_candidate_scope compare canonical
          (semantics_components (pb_name_semantics (ap_pinned_root root)))
          (jc_previous_absolute_path_utf16 c) = Inr prv
      \<and> candidate_placement (jc_kind c) (jc_is_directory c) cur prv = Some placement
      \<and> broker_candidate_validate b = Inr () \<and> b = placed_candidate c placement)"
proof -
  have "(case p of None \<Rightarrow> Inr None
      | Some placement \<Rightarrow> bind_result (map_err g (broker_candidate_validate (placed_candidate c placement)))
          (\<lambda>_. Inr (Some (placed_candidate c placement)))) = Inr (Some b) \<longleftrightarrow>
    (\<exists>placement. p = Some placement \<and> broker_candidate_validate b = Inr () \<and> b = placed_candidate c placement)"
    for p and g :: "wire_error \<Rightarrow> broker_failure"
    by (cases p) (auto simp: bind_result_eq_Inr map_err_eq_Inr)
  then show ?thesis
    unfolding constrain_candidate_def Let_def by (simp add: bind_result_eq_Inr map_err_eq_Inr)
qed

lemma previous_scope_within:
  assumes "previous_candidate_scope compare canonical ms p = Inr (Some s)"
    and "(case p of None \<Rightarrow> 0 | Some p \<Rightarrow> length p) * 2 < 2 ^ 64"
  shows "scope_within (case p of None \<Rightarrow> 0 | Some p \<Rightarrow> length p) (to_candidate_scope s)"
  using assms
  by (auto simp: previous_candidate_scope_def map_err_eq_Inr bind_result_eq_Inr
      split: option.splits intro: placed_scope_within)

lemma within_evidence:
  assumes "scope_within i (bc_scope b)" and "bc_previous_scope b \<in> {None, p}"
    and "case p of None \<Rightarrow> i \<le> n + m | Some s \<Rightarrow> \<exists>j. scope_within j s \<and> i + j \<le> n + m"
    and "k = 2 * n + 2 * m + length (bc_file_reference b)" and "k < 2 ^ 64"
  shows "\<exists>e \<le> k. candidate_evidence_bytes b = Some e" and "wf_candidate b"
proof -
  consider "bc_previous_scope b = None" "i \<le> n + m"
    | s j where "bc_previous_scope b = Some s" "scope_within j s" "i + j \<le> n + m"
    using assms(2,3) by (cases p) auto
  then have *: "(\<exists>e \<le> k. candidate_evidence_bytes b = Some e) \<and> wf_candidate b"
  proof cases
    case 1
    with assms show ?thesis
      using candidate_evidence_le [of i b 0 k] by (simp add: wf_candidate_def scope_within_def)
  next
    case 2
    then have "\<exists>e \<le> k. candidate_evidence_bytes b = Some e"
      using assms(1,4,5) by (intro candidate_evidence_le [of i b j k]) auto
    with 2 assms(1) show ?thesis by (simp add: wf_candidate_def scope_within_def)
  qed
  then show "\<exists>e \<le> k. candidate_evidence_bytes b = Some e" "wf_candidate b" by simp_all
qed

text \<open>A candidate that could be placed has bounded paths, so its evidence cannot overflow.\<close>

lemma constrain_candidate_bounded:
  assumes "constrain_candidate compare root canonical c = Inr (Some b)"
  shows "\<exists>n. backend_evidence_bytes c = Inr n"
proof -
  have path: "length p \<le> 32767" if "normalize_backend_path p = Inr np" for p np
    using that by (simp add: normalize_backend_path_def normalize_absolute_path_eq_Inr wire_limits)
  from assms have "length (jc_absolute_path_utf16 c) \<le> 32767"
    "length (jc_file_reference c) \<le> 16"
    by (auto simp: constrain_candidate_eq_Some placed_candidate_simps broker_candidate_validate_eq_Inr
        is_reference_length_def dest: path)
  moreover from assms have "length p \<le> 32767" if "jc_previous_absolute_path_utf16 c = Some p" for p
    using that by (auto simp: constrain_candidate_eq_Some previous_candidate_scope_def map_err_eq_Inr
        bind_result_eq_Inr dest: path)
  ultimately show ?thesis
    by (fastforce simp: backend_evidence_bytes_eq_Inr split: option.split)
qed

lemma constrain_candidate_placed:
  assumes "constrain_candidate compare root canonical c = Inr (Some b)"
  shows "placed_from c b"
proof -
  obtain n where assms': "backend_evidence_bytes c = Inr n"
    using constrain_candidate_bounded [OF assms] by blast
  let ?n = "length (jc_absolute_path_utf16 c)"
  let ?m = "case jc_previous_absolute_path_utf16 c of None \<Rightarrow> 0 | Some p \<Rightarrow> length p"
  from assms' have big: "?n * 2 < 2 ^ 64" "?m * 2 < 2 ^ 64"
    and n: "n = 2 * ?n + 2 * ?m + length (jc_file_reference c)" "n < 2 ^ 64"
    by (auto simp: backend_evidence_bytes_eq_Inr split: option.splits)
  from assms obtain current cur prv scope pscope k where
    current: "normalize_backend_path (jc_absolute_path_utf16 c) = Inr current"
      "scope_under_root compare current canonical
        (semantics_components (pb_name_semantics (ap_pinned_root root))) = Inr cur"
    and prv: "previous_candidate_scope compare canonical
        (semantics_components (pb_name_semantics (ap_pinned_root root)))
        (jc_previous_absolute_path_utf16 c) = Inr prv"
    and place: "candidate_placement (jc_kind c) (jc_is_directory c) cur prv = Some (scope, pscope, k)"
    and b: "broker_candidate_validate b = Inr ()" "b = placed_candidate c (scope, pscope, k)"
    unfolding constrain_candidate_eq_Some by fastforce
  obtain i where "scope_within i scope" "case pscope of None \<Rightarrow> i \<le> ?n + ?m
      | Some s \<Rightarrow> \<exists>j. scope_within j s \<and> i + j \<le> ?n + ?m"
    using placement_within [OF place, of ?n ?m] placed_scope_within [OF current(1) big(1)]
      previous_scope_within [OF _ big(2)] current(2) prv by blast
  then have "\<exists>e \<le> n. candidate_evidence_bytes b = Some e" "wf_candidate b"
    using within_evidence [of i b pscope ?n ?m n] n placed_candidate_simps b(2) by simp_all
  with b assms' show ?thesis
    by (auto simp: placed_from_def placed_candidate_simps)
qed

lemma constrain_each_placed:
  assumes "constrain_each compare root canonical cs = Inr bs"
  shows "\<exists>kept. subseq kept cs \<and> list_all2 placed_from kept bs"
  using assms
proof (induction cs arbitrary: bs)
  case Nil
  then show ?case by auto
next
  case (Cons c cs)
  then obtain r bs' where r: "constrain_candidate compare root canonical c = Inr r"
    and rest: "constrain_each compare root canonical cs = Inr bs'"
    and bs: "bs = (case r of None \<Rightarrow> bs' | Some b \<Rightarrow> b # bs')"
    by (auto simp: bind_result_eq_Inr)
  from Cons.IH [OF rest] obtain kept where
    kept: "subseq kept cs" "list_all2 placed_from kept bs'" by auto
  show ?case
  proof (cases r)
    case None
    with kept bs show ?thesis by (auto intro: subseq_Cons')
  next
    case (Some b)
    with r have "placed_from c b" by (auto intro: constrain_candidate_placed)
    with kept bs Some show ?thesis by (intro exI [of _ "c # kept"]) simp
  qed
qed

lemma constrain_candidates_placed:
  assumes "constrain_candidates compare root cs = Inr bs"
  shows "\<exists>kept. subseq kept cs \<and> list_all2 placed_from kept bs"
  using assms constrain_each_placed
  by (auto simp: constrain_candidates_def bind_result_eq_Inr)

text \<open>What a list of placed candidates keeps of the page it came from.\<close>

lemma sorted_wrt_subseq: "subseq xs ys \<Longrightarrow> sorted_wrt P ys \<Longrightarrow> sorted_wrt P xs"
proof (induction rule: list_emb.induct)
  case (list_emb_Cons2 x y xs ys)
  then show ?case using list_emb_set [OF list_emb_Cons2(2)] by auto
qed simp_all

lemma subseq_sum_list:
  fixes f :: "'a \<Rightarrow> nat"
  shows "subseq xs ys \<Longrightarrow> sum_list (map f xs) \<le> sum_list (map f ys)"
  by (induction rule: list_emb.induct) auto

lemma placed_list_sound:
  assumes "list_all2 placed_from cs bs"
  shows "map bc_usn bs = map jc_usn cs"
    and "\<forall>b \<in> set bs. broker_candidate_validate b = Inr () \<and> wf_candidate b
      \<and> candidate_evidence_bytes b \<noteq> None"
    and "evidence_sum candidate_evidence_bytes bs \<le> backend_evidence_sum cs"
  using assms
proof (induction cs bs rule: list_all2_induct)
  case Nil
  {
    case 1 then show ?case by simp
  next
    case 2 then show ?case by simp
  next
    case 3 then show ?case by simp
  }
next
  case (Cons c cs b bs)
  {
    case 1 with Cons show ?case by (simp add: placed_from_def)
  next
    case 2 with Cons show ?case by (auto simp: placed_from_def)
  next
    case 3
    from Cons(1) obtain n m where "backend_evidence_bytes c = Inr n" "m \<le> n"
      "candidate_evidence_bytes b = Some m" by (auto simp: placed_from_def)
    with Cons(5) show ?case by (simp add: backend_evidence_sum_def)
  }
qed

lemma placed_under_root:
  assumes "subseq ds cs" and "constrain_candidates compare root ds = Inr bs"
    and "candidates_ordered cs" and "\<forall>c \<in> set cs. P (jc_usn c)"
  shows "sorted_wrt (\<lambda>a b. sint (bc_usn a) < sint (bc_usn b)) bs"
    and "\<forall>b \<in> set bs. broker_candidate_validate b = Inr () \<and> wf_candidate b
      \<and> candidate_evidence_bytes b \<noteq> None \<and> P (bc_usn b)"
    and "length bs \<le> length cs"
    and "evidence_sum candidate_evidence_bytes bs \<le> backend_evidence_sum cs"
proof -
  from constrain_candidates_placed [OF assms(2)] obtain kept where
    k: "subseq kept ds" "list_all2 placed_from kept bs" by blast
  then have kept: "subseq kept cs" using assms(1) subseq_order.order_trans by blast
  note sound = placed_list_sound [OF k(2)]
  have "sorted_wrt (\<lambda>a b. sint a < sint b) (map jc_usn kept)"
    using sorted_wrt_subseq [OF kept assms(3)] by (simp add: sorted_wrt_map)
  then show "sorted_wrt (\<lambda>a b. sint (bc_usn a) < sint (bc_usn b)) bs"
    unfolding sound(1) [symmetric] by (simp add: sorted_wrt_map)
  have "P u" if "u \<in> set (map bc_usn bs)" for u
    using that assms(4) list_emb_set [OF kept] unfolding sound(1) by fastforce
  with sound(2) show "\<forall>b \<in> set bs. broker_candidate_validate b = Inr () \<and> wf_candidate b
      \<and> candidate_evidence_bytes b \<noteq> None \<and> P (bc_usn b)" by auto
  show "length bs \<le> length cs"
    using kept k(2) by (metis list_all2_lengthD list_emb_length)
  have "backend_evidence_sum kept \<le> backend_evidence_sum cs"
    unfolding backend_evidence_sum_def by (rule subseq_sum_list [OF kept])
  with sound(3) show "evidence_sum candidate_evidence_bytes bs \<le> backend_evidence_sum cs" by simp
qed

section \<open>The response to a range read\<close>

definition filters_candidates :: "'x broker_host \<Rightarrow> bool" where
  "filters_candidates host \<longleftrightarrow> (\<forall>root cs ctx w w' ds.
     ht_filter_disclosable_candidates host root cs ctx w = (w', Inr ds) \<longrightarrow> subseq ds cs)"

lemma validate_requested_range_eq_Inr:
  "validate_requested_range request m = Inr () \<longleftrightarrow> jm_journal_id m = rj_journal_id request
     \<and> sint (jm_first_usn m) \<le> sint (rj_start_usn request)
     \<and> sint (rj_end_usn request) \<le> sint (jm_next_usn m)"
  by (auto simp: validate_requested_range_def)

lemma execute_read_rangeE:
  assumes "execute_read_range host request_id key request deadline authenticated w = (w', Inr response)"
  obtains root metadata pf offered page disclosable candidates where
    "page_builder_finish metadata pf (fold page_builder_offer offered (page_builder_new
       \<lparr>jg_start_usn = rj_start_usn request, jg_end_usn = rj_end_usn request\<rparr>
       \<lparr>jl_max_records = unat (rj_max_records request),
        jl_max_evidence_bytes = unat (rj_max_evidence_bytes request)\<rparr>)) = Inr page"
    "\<exists>ctx w1 w2. ht_filter_disclosable_candidates host root (bp_candidates page) ctx w1 = (w2, Inr disclosable)"
    "constrain_candidates (ht_compare host) root disclosable = Inr candidates"
    "response = ReadRangeResponse request_id
       \<lparr>xr_binding = binding_from_request (rj_caller request) (rj_root request),
        xr_journal_id = rj_journal_id request, xr_requested_start_usn = rj_start_usn request,
        xr_requested_end_usn = rj_end_usn request, xr_max_records = rj_max_records request,
        xr_max_evidence_bytes = rj_max_evidence_bytes request,
        xr_covered_until_usn = jp_covered_until_usn (bp_proof page),
        xr_is_complete = jp_is_complete (bp_proof page), xr_candidates = candidates\<rparr>"
  using assms unfolding execute_read_range_def Let_def
  by (simp add: bind_stateful_eq_Inr stateful_eq_Inr map_err_eq_Inr validate_requested_range_eq_Inr
      split: if_splits) blast

text \<open>The bytes of a candidate on the wire, from its evidence.\<close>

lemmas wire_lengths = wire_u8_def wire_u32_def wire_u64_def wire_boolean_def wire_length_def
  wire_byte_vec_def

lemma scope_wire_length:
  assumes "wf_scope s" and "scope_evidence_bytes s = Some e"
  shows "2 * length (wire_scope s) \<le> 10 + 3 * e"
  using assms
  by (cases s) (auto simp: scope_evidence_bytes_def wire_lengths dest: utf8_length_le_utf16)

lemma candidate_wire_length:
  assumes "wf_candidate c" and "candidate_evidence_bytes c = Some e"
  shows "2 * length (wire_candidate c) \<le> 52 + 3 * e"
proof -
  from assms(2) obtain p s where ps: "scope_evidence_bytes (bc_scope c) = Some s"
    "(case bc_previous_scope c of Some scope \<Rightarrow> scope_evidence_bytes scope | None \<Rightarrow> Some 0) = Some p"
    "e = s + p + length (bc_file_reference c)"
    by (auto simp: candidate_evidence_bytes_def bind_eq_Some_conv)
  have "2 * length (wire_option wire_scope (bc_previous_scope c)) \<le> 12 + 3 * p"
    using ps(2) assms(1) scope_wire_length [of "the (bc_previous_scope c)" p]
    by (cases "bc_previous_scope c") (simp_all add: wf_candidate_def wire_lengths)
  moreover have "2 * length (wire_scope (bc_scope c)) \<le> 10 + 3 * s"
    using ps(1) assms(1) by (intro scope_wire_length) (simp_all add: wf_candidate_def)
  ultimately show ?thesis
    using ps(3) by (simp add: wire_candidate_def wire_lengths)
qed

lemma candidates_wire_length:
  assumes "\<forall>c \<in> set cs. wf_candidate c \<and> candidate_evidence_bytes c \<noteq> None"
  shows "2 * length (concat (map wire_candidate cs)) \<le>
    52 * length cs + 3 * evidence_sum candidate_evidence_bytes cs"
  using assms
proof (induction cs)
  case Nil
  then show ?case by simp
next
  case (Cons c cs)
  then obtain e where "candidate_evidence_bytes c = Some e" by auto
  with Cons candidate_wire_length [of c e] show ?case by simp
qed


section \<open>Responses that reach the peer\<close>

text \<open>A request as the codec hands it to the service.\<close>

definition received :: "broker_request \<Rightarrow> bool" where
  "received r \<longleftrightarrow> wf_request r \<and> request_request_id r \<noteq> 0 \<and> validate_request r = Inr ()"

lemma received_if_decoded: "decode_request p = Inr r \<Longrightarrow> received r"
  using decode_request_sound wf_request_if_ok by (fastforce simp: received_def)

text \<open>The service can frame the response, and its peer reads it back.\<close>

definition delivered :: "broker_response \<Rightarrow> bool" where
  "delivered r \<longleftrightarrow> (\<exists>frame p. encode_response_frame r = Inr frame
     \<and> decode_frame frame = Inr p \<and> decode_response p = Inr r)"

lemma wire_response_nonempty: "wire_response r \<noteq> []"
proof -
  have "wire_header kind i \<noteq> []" for kind i
    using length_wire_header [of kind i] by (metis length_greater_0_conv zero_less_numeral)
  then show ?thesis by (cases r) simp_all
qed

lemma deliveredI:
  assumes "wf_response r" and "validate_response r = Inr ()" and "range_evidence_bounded r"
    and "length (wire_response r) \<le> MAX_FRAME_BYTES"
  shows "delivered r"
proof -
  have fits: "fits (wire_response r)" using assms(4) by (simp add: fits_def MAX_FRAME_BYTES_def)
  have ok: "ok_response r" using assms(1-3) by (simp add: ok_response_if_valid)
  then have "encode_response r = Inr (wire_response r)" by (simp add: encode_response_ok assms(2))
  moreover obtain frame where frame: "encode_frame (wire_response r) = Inr frame"
    using assms(4) wire_response_nonempty by (simp add: encode_frame_eq_Inr)
  moreover have "decode_response (wire_response r) = Inr r"
    by (rule decode_wire_response [OF ok assms(2) fits])
  ultimately show ?thesis
    by (auto simp: delivered_def encode_response_frame_def decode_frame_iff_encode_frame)
qed

lemma binding_wire_length:
  assumes "wf_binding b" and "response_binding_validate b = Inr ()"
  shows "length (wire_binding b) \<le> 800"
  using assms
  by (auto simp: response_binding_validate_def bind_result_eq_Inr validate_identifier_def
      wf_binding_def wire_binding_def wire_lengths wire_limits split: if_splits)

lemma request_binding_valid:
  assumes "caller_claim_validate caller = Inr ()" and "root_authorization_validate root = Inr ()"
    and "wf_caller caller" and "wf_root root"
  shows "wf_binding (binding_from_request caller root)
    \<and> response_binding_validate (binding_from_request caller root) = Inr ()"
  using assms
  by (auto simp: binding_from_request_def caller_claim_validate_def root_authorization_validate_def
      bind_result_eq_Inr response_binding_validate_def wf_binding_def wf_caller_def wf_root_def
      split: if_splits)

lemma range_responseI:
  assumes "received (ReadRange i request)"
    and "r = \<lparr>xr_binding = binding_from_request (rj_caller request) (rj_root request),
        xr_journal_id = rj_journal_id request, xr_requested_start_usn = rj_start_usn request,
        xr_requested_end_usn = rj_end_usn request, xr_max_records = rj_max_records request,
        xr_max_evidence_bytes = rj_max_evidence_bytes request,
        xr_covered_until_usn = covered, xr_is_complete = complete, xr_candidates = bs\<rparr>"
    and "sint (rj_start_usn request) < sint covered" "sint covered \<le> sint (rj_end_usn request)"
    and "complete = (covered = rj_end_usn request)"
    and "sorted_wrt (\<lambda>a b. sint (bc_usn a) < sint (bc_usn b)) bs"
    and "\<forall>b \<in> set bs. broker_candidate_validate b = Inr () \<and> wf_candidate b
      \<and> candidate_evidence_bytes b \<noteq> None
      \<and> sint (rj_start_usn request) \<le> sint (bc_usn b) \<and> sint (bc_usn b) < sint covered"
    and "length bs \<le> unat (rj_max_records request)"
    and "evidence_sum candidate_evidence_bytes bs \<le> unat (rj_max_evidence_bytes request)"
  shows "delivered (ReadRangeResponse i r)"
proof -
  from assms(1) have v: "read_journal_range_validate request = Inr ()" and "i \<noteq> 0"
    and wf: "wf_caller (rj_caller request)" "wf_root (rj_root request)"
    by (simp_all add: received_def)
  from v have req: "rj_journal_id request \<noteq> 0" "0 \<le> sint (rj_start_usn request)"
    "sint (rj_start_usn request) < sint (rj_end_usn request)"
    "in_1_to MAX_RECORDS (rj_max_records request)"
    "in_1_to MAX_EVIDENCE_BYTES (rj_max_evidence_bytes request)"
    and vs: "caller_claim_validate (rj_caller request) = Inr ()"
      "root_authorization_validate (rj_root request) = Inr ()"
    by (auto simp: read_journal_range_validate_def bind_result_eq_Inr split: if_splits)
  have lims: "length bs \<le> 1024" "evidence_sum candidate_evidence_bytes bs \<le> 524288"
    using assms(8,9) req(4,5) by (auto simp: in_1_to_def wire_limits word_le_nat_alt)
  note binding = request_binding_valid [OF vs wf]
  have "2 * length (concat (map wire_candidate bs)) \<le> 52 * length bs
      + 3 * evidence_sum candidate_evidence_bytes bs"
    using assms(7) by (intro candidates_wire_length) auto
  then have small: "length (wire_response (ReadRangeResponse i r)) \<le> MAX_FRAME_BYTES"
    using lims binding_wire_length [OF conjunct1 [OF binding] conjunct2 [OF binding]]
    by (simp add: assms(2) wire_range_response_def wire_candidates_def wire_lengths MAX_FRAME_BYTES_def)
  show ?thesis
  proof (rule deliveredI)
    show "wf_response (ReadRangeResponse i r)"
      using assms(7) binding by (simp add: assms(2) list_all_iff)
    show "validate_response (ReadRangeResponse i r) = Inr ()"
      using assms(3-7) \<open>i \<noteq> 0\<close> req binding lims
      by (auto simp: validate_response_def assms(2) validate_read_range_response_def bind_result_eq_Inr
          candidate_usns_fold wire_limits)
    show "range_evidence_bounded (ReadRangeResponse i r)"
      using lims by (simp add: assms(2) wire_limits)
  qed (rule small)
qed

lemma execute_read_range_delivered:
  assumes "filters_candidates host" and "received (ReadRange i request)"
    and "execute_read_range host i key request deadline authenticated w = (w', Inr response)"
  shows "delivered response \<and> (\<exists>r. response = ReadRangeResponse i r
    \<and> length (xr_candidates r) \<le> unat (rj_max_records request)
    \<and> evidence_sum candidate_evidence_bytes (xr_candidates r) \<le> unat (rj_max_evidence_bytes request))"
  using assms(3)
proof (rule execute_read_rangeE)
  fix root metadata pf offered page disclosable candidates
  assume page: "page_builder_finish metadata pf (fold page_builder_offer offered (page_builder_new
       \<lparr>jg_start_usn = rj_start_usn request, jg_end_usn = rj_end_usn request\<rparr>
       \<lparr>jl_max_records = unat (rj_max_records request),
        jl_max_evidence_bytes = unat (rj_max_evidence_bytes request)\<rparr>)) = Inr page"
    and filtered: "\<exists>ctx w1 w2. ht_filter_disclosable_candidates host root (bp_candidates page) ctx w1
      = (w2, Inr disclosable)"
    and placed: "constrain_candidates (ht_compare host) root disclosable = Inr candidates"
    and response: "response = ReadRangeResponse i
       \<lparr>xr_binding = binding_from_request (rj_caller request) (rj_root request),
        xr_journal_id = rj_journal_id request, xr_requested_start_usn = rj_start_usn request,
        xr_requested_end_usn = rj_end_usn request, xr_max_records = rj_max_records request,
        xr_max_evidence_bytes = rj_max_evidence_bytes request,
        xr_covered_until_usn = jp_covered_until_usn (bp_proof page),
        xr_is_complete = jp_is_complete (bp_proof page), xr_candidates = candidates\<rparr>"
  have sub: "subseq disclosable (bp_candidates page)"
    using assms(1) filtered by (auto simp: filters_candidates_def)
  note built = built_page [OF page, simplified]
  have under: "sorted_wrt (\<lambda>a b. sint (bc_usn a) < sint (bc_usn b)) candidates"
    "\<forall>b \<in> set candidates. broker_candidate_validate b = Inr () \<and> wf_candidate b
      \<and> candidate_evidence_bytes b \<noteq> None \<and> sint (rj_start_usn request) \<le> sint (bc_usn b)
      \<and> sint (bc_usn b) < sint (jp_covered_until_usn pf)"
    "length candidates \<le> length (bp_candidates page)"
    "evidence_sum candidate_evidence_bytes candidates \<le> backend_evidence_sum (bp_candidates page)"
    using placed_under_root [OF sub placed, of "\<lambda>u. sint (rj_start_usn request) \<le> sint u
      \<and> sint u < sint (jp_covered_until_usn pf)"] built by simp_all
  then have "length candidates \<le> unat (rj_max_records request)"
    "evidence_sum candidate_evidence_bytes candidates \<le> unat (rj_max_evidence_bytes request)"
    using built by linarith+
  moreover from this under built have "delivered response"
    unfolding response by (intro range_responseI [OF assms(2) refl]) simp_all
  ultimately show ?thesis by (simp add: response)
qed

end
