(* ===== verification/Service_Answers.thy ===== *)
theory Service_Answers
  imports Service_Reads
begin

text \<open>
  The broker service answers: every frame a client sends is answered by a frame the client decodes
  and can match to its request, and so are the terminals of reads that were accepted. The host is
  assumed to hand out only what its types and the constructors of \<open>journal_broker/service/contracts.rs\<close>
  allow: a caller authorization comes from \<open>from_verified_claim\<close>, a capability has 32 bytes.
\<close>

section \<open>Small responses\<close>

definition verifies_claims :: "'x broker_host \<Rightarrow> bool" where
  "verifies_claims host \<longleftrightarrow> (\<forall>authenticated claim w w' caller.
     ht_verify_claim host authenticated claim w = (w', Inr caller)
       \<longrightarrow> from_verified_claim authenticated claim = Inr caller)"

definition issues_capabilities :: "'x broker_host \<Rightarrow> bool" where
  "issues_capabilities host \<longleftrightarrow> (\<forall>caller root handle ctx w w' capability.
     ht_register_root host caller root handle ctx w = (w', Inr capability) \<longrightarrow> wf_capability capability)"

text \<open>An answer to a request: a response the peer reads back, with the id of the request.\<close>

definition answers :: "u64 \<Rightarrow> broker_response \<Rightarrow> bool" where
  "answers i r \<longleftrightarrow> delivered r \<and> response_request_id r = i"

lemma failure_answers:
  assumes "all_some (\<lambda>c. length c = 16 \<and> \<not> all_zero c) client_instance"
  shows "answers i (failure_response i client_instance code)"
proof -
  have "delivered (failure_response i client_instance code)"
    using assms
    by (intro deliveredI; cases client_instance)
      (auto simp: failure_response_def validate_response_def validate_failure_def wire_lengths
        wire_failure_code_def wire_u16_def MAX_FRAME_BYTES_def)
  then show ?thesis by (simp add: answers_def failure_response_def)
qed


lemma or_failure_answers:
  assumes "length c = 16" and "\<not> all_zero c"
    and "\<And>w w' r. handler w = (w', Inr r) \<Longrightarrow> answers i r"
  shows "answers i (snd (or_failure i c handler w))"
  using assms failure_answers [of "Some c" i]
  by (auto simp: or_failure_def split: prod.splits sum.splits)

lemma finish_with_Inr:
  "finish_with host key body w = (w', Inr a) \<Longrightarrow> \<exists>w1. body w = (w1, Inr a)"
  unfolding finish_with_def bind_stateful_eq_Inr stateful_eq_Inr
  by (elim exE conjE) (simp split: sum.splits request_terminal.splits)

text \<open>The lengths of the small responses, all far below a frame.\<close>

lemmas small_wire = wire_lengths wire_u16_def wire_journal_response_def wire_range_accepted_def
  wire_volume_accepted_def

lemma accepted_caller:
  assumes "caller_claim_validate caller = Inr ()" and "wf_caller caller"
  shows "length (cc_client_instance caller) = 16" and "\<not> all_zero (cc_client_instance caller)"
  using assms by (auto simp: caller_claim_validate_def wf_caller_def split: if_splits)

section \<open>The handlers\<close>

lemma register_root_answers:
  assumes "received (RegisterRoot i request)" and "issues_capabilities host"
    and "register_root host i request authenticated w = (w', Inr r)"
  shows "answers i r"
proof -
  from assms(3) obtain caller handle ctx w1 w2 capability where
    cap: "ht_register_root host caller (rg_root request) handle ctx w1 = (w2, Inr capability)"
      "root_capability_validate capability = Inr ()"
    and r: "r = RootRegistered i (binding_from_request (rg_caller request) (rg_root request)) capability"
    by (force simp: register_root_def register_root_body_def bind_stateful_eq_Inr stateful_eq_Inr
        map_err_eq_Inr dest!: finish_with_Inr)
  have "wf_capability capability" using cap(1) assms(2) by (auto simp: issues_capabilities_def)
  moreover have binding: "wf_binding (binding_from_request (rg_caller request) (rg_root request))
      \<and> response_binding_validate (binding_from_request (rg_caller request) (rg_root request)) = Inr ()"
    using assms(1) by (intro request_binding_valid)
      (auto simp: received_def register_root_validate_def bind_result_eq_Inr)
  moreover have "i \<noteq> 0" using assms(1) by (simp add: received_def)
  ultimately have "delivered r"
    using cap(2) binding_wire_length [OF conjunct1 [OF binding] conjunct2 [OF binding]]
    by (intro deliveredI) (simp_all add: r validate_response_def validate_root_registered_def
        wf_capability_def MAX_FRAME_BYTES_def)
  then show ?thesis by (simp add: answers_def r)
qed

lemma query_journal_answers:
  assumes "received (QueryJournal i request)"
    and "query_journal host i request authenticated w = (w', Inr r)"
  shows "answers i r"
proof -
  from assms(2) obtain journal where
    j: "journal_response_of i (binding_from_request (qj_caller request) (qj_root request)) journal = Inr r"
    by (force simp: query_journal_def query_journal_body_def bind_stateful_eq_Inr stateful_eq_Inr
        dest!: finish_with_Inr)
  have binding: "wf_binding (binding_from_request (qj_caller request) (qj_root request))
      \<and> response_binding_validate (binding_from_request (qj_caller request) (qj_root request)) = Inr ()"
    using assms(1) by (intro request_binding_valid)
      (auto simp: received_def query_journal_validate_def bind_result_eq_Inr)
  moreover have "i \<noteq> 0" using assms(1) by (simp add: received_def)
  moreover note binding_wire_length [OF conjunct1 [OF binding] conjunct2 [OF binding]]
  ultimately show ?thesis
    using j unfolding answers_def
    by (intro conjI deliveredI; cases journal)
      (auto simp: journal_response_of_def bind_result_eq_Inr map_err_eq_Inr validate_response_def
        validate_journal_response_def journal_metadata_validate_def next_before_first_def
        small_wire MAX_FRAME_BYTES_def split: if_splits)
qed

lemma accept_read_range_answers:
  assumes "received (ReadRange i request)"
    and "accept_read_range host i request authenticated w = (w', Inr r)"
  shows "answers i r"
proof -
  from assms(1) have v: "read_journal_range_validate request = Inr ()" and "i \<noteq> 0"
    and wf: "wf_caller (rj_caller request)" "wf_root (rj_root request)"
    by (simp_all add: received_def)
  from v have vs: "caller_claim_validate (rj_caller request) = Inr ()"
      "root_authorization_validate (rj_root request) = Inr ()"
    by (auto simp: read_journal_range_validate_def bind_result_eq_Inr)
  note binding = request_binding_valid [OF vs wf]
  from assms(2) have r: "r = ReadRangeAccepted i
       \<lparr>xa_binding = binding_from_request (rj_caller request) (rj_root request),
        xa_journal_id = rj_journal_id request, xa_requested_start_usn = rj_start_usn request,
        xa_requested_end_usn = rj_end_usn request, xa_max_records = rj_max_records request,
        xa_max_evidence_bytes = rj_max_evidence_bytes request\<rparr>"
    unfolding accept_read_range_def Let_def bind_stateful_eq_Inr stateful_eq_Inr by blast
  have "delivered r"
    using binding v \<open>i \<noteq> 0\<close> binding_wire_length [OF conjunct1 [OF binding] conjunct2 [OF binding]]
    by (intro deliveredI) (auto simp: r validate_response_def validate_read_range_accepted_def
        bind_result_eq_Inr read_journal_range_validate_def small_wire MAX_FRAME_BYTES_def split: if_splits)
  then show ?thesis by (simp add: answers_def r)
qed

lemma accept_read_volume_answers:
  assumes "received (ReadVolume i request)"
    and "accept_read_volume host i request authenticated w = (w', Inr r)"
  shows "answers i r"
proof -
  from assms(1) have v: "read_journal_volume_validate request = Inr ()" and "i \<noteq> 0"
    and wf: "wf_caller (rv_caller request)"
      "list_all (\<lambda>s. wf_root (sr_root s) \<and> wf_capability (sr_root_capability s)) (rv_roots request)"
    by (simp_all add: received_def)
  note v' = v [unfolded read_journal_volume_validate_eq_Inr]
  obtain m where m: "minimum_start_usn request = Some m" "0 \<le> sint m" "sint m \<le> sint (rv_end_usn request)"
    using minimum_start_usn_bounds [OF v] by blast
  from v' obtain root rest where roots: "rv_roots request = root # rest"
    by (cases "rv_roots request") auto
  from v' roots have root: "validate_identifier (ra_volume_id (sr_root root)) MAX_VOLUME_ID_BYTES = Inr ()"
    by (auto simp: shared_journal_root_validate_def root_authorization_validate_def bind_result_eq_Inr)
  from wf(2) roots have utf8: "utf8_valid (ra_volume_id (sr_root root))" by (simp add: wf_root_def)
  have count: "1 \<le> (of_nat (length (rv_roots request)) :: u8)"
      "(of_nat (length (rv_roots request)) :: u8) \<le> of_nat MAX_SHARED_ROOTS"
    using v' by (simp_all add: word_le_nat_alt unat_of_nat wire_limits)
  from assms(2) have r: "r = ReadVolumeAccepted i
       \<lparr>va_client_instance = cc_client_instance (rv_caller request),
        va_volume_id = ra_volume_id (sr_root root), va_journal_id = rv_journal_id request,
        va_requested_start_usn = m, va_requested_end_usn = rv_end_usn request,
        va_root_count = of_nat (length (rv_roots request)),
        va_max_records = rv_max_records request,
        va_max_evidence_bytes = rv_max_evidence_bytes request\<rparr>"
    unfolding accept_read_volume_def Let_def bind_stateful_eq_Inr stateful_eq_Inr
    by (auto simp: m roots)
  have "delivered r"
    using v' \<open>i \<noteq> 0\<close> root utf8 m count accepted_caller [of "rv_caller request"] wf(1)
    by (intro deliveredI) (auto simp: r validate_response_def validate_read_volume_accepted_def
        validate_identifier_for_codec_eq read_interval_new_def small_wire MAX_FRAME_BYTES_def
        validate_identifier_def wire_limits split: if_splits)
  then show ?thesis by (simp add: answers_def r)
qed

lemma cancel_answers:
  assumes "received (Cancel i claim target)" and "verifies_claims host"
    and "cancel host i claim target authenticated w = (w', Inr r)"
  shows "answers i r"
proof -
  from assms(1) have v: "caller_claim_validate claim = Inr ()" "target \<noteq> 0" "i \<noteq> 0" "wf_caller claim"
    by (auto simp: received_def validate_cancel_def bind_result_eq_Inr split: if_splits)
  from assms(3) obtain caller w1 where
    c: "ht_verify_claim host authenticated claim w = (w1, Inr caller)"
    and r: "r = CancelledResponse i (ca_client_instance caller) target"
    unfolding cancel_def verify_caller_def bind_stateful_eq_Inr stateful_eq_Inr bind_result_eq_Inr
    by auto
  have "from_verified_claim authenticated claim = Inr caller"
    using assms(2) c by (auto simp: verifies_claims_def)
  then have "ca_client_instance caller = cc_client_instance claim"
    by (auto simp: from_verified_claim_def split: if_splits)
  then have "delivered r"
    using v accepted_caller [OF v(1,4)]
    by (intro deliveredI) (simp_all add: r validate_response_def validate_cancelled_def small_wire
        MAX_FRAME_BYTES_def)
  then show ?thesis by (simp add: answers_def r)
qed

lemma handle_request_answers:
  assumes "received request" and "verifies_claims host" and "issues_capabilities host"
  shows "answers (request_request_id request) (snd (handle_request host request authenticated w))"
proof (cases request)
  case (RegisterRoot i g)
  with assms(1) show ?thesis
    using register_root_answers [OF _ assms(3), of i g] accepted_caller [of "rg_caller g"]
    by (auto simp: received_def register_root_validate_def bind_result_eq_Inr intro!: or_failure_answers)
next
  case (QueryJournal i q)
  with assms(1) show ?thesis
    using query_journal_answers [of i q] accepted_caller [of "qj_caller q"]
    by (auto simp: received_def query_journal_validate_def bind_result_eq_Inr intro!: or_failure_answers)
next
  case (ReadRange i q)
  with assms(1) show ?thesis
    using accept_read_range_answers [of i q] accepted_caller [of "rj_caller q"]
    by (auto simp: received_def read_journal_range_validate_def bind_result_eq_Inr intro!: or_failure_answers)
next
  case (ReadVolume i q)
  with assms(1) show ?thesis
    using accept_read_volume_answers [of i q] accepted_caller [of "rv_caller q"]
    by (auto simp: received_def read_journal_volume_validate_eq_Inr intro!: or_failure_answers)
next
  case (Cancel i c t)
  with assms(1) show ?thesis
    using cancel_answers [OF _ assms(2), of i c t] accepted_caller [of c]
    by (auto simp: received_def validate_cancel_def bind_result_eq_Inr intro!: or_failure_answers)
qed

lemma malformed_answers: "\<exists>i. answers i (malformed_response payload error)"
  using failure_answers [of None] by (auto simp: malformed_response_def Let_def)

lemma frame_answers:
  assumes "verifies_claims host" and "issues_capabilities host"
  shows "\<exists>answer p r. snd (handle_frame host frame authenticated w) = Inr answer
    \<and> decode_frame answer = Inr p \<and> decode_response p = Inr r
    \<and> (\<forall>payload request. decode_frame frame = Inr payload \<longrightarrow> decode_request payload = Inr request
         \<longrightarrow> response_request_id r = request_request_id request)"
proof -
  consider "\<exists>e. decode_frame frame = Inl e"
    | payload where "decode_frame frame = Inr payload" "\<exists>e. decode_request payload = Inl e"
    | payload request where "decode_frame frame = Inr payload" "decode_request payload = Inr request"
    by (metis sum.exhaust)
  then obtain i r where "answers i r"
    "snd (handle_frame host frame authenticated w) = encode_response_frame r"
    "\<forall>payload request. decode_frame frame = Inr payload \<longrightarrow> decode_request payload = Inr request
       \<longrightarrow> i = request_request_id request"
  proof cases
    case 1
    then show ?thesis
      using failure_answers [of None 0] that [of 0 "failure_response 0 None MalformedFrame"]
      by (auto simp: handle_frame_def Let_def)
  next
    case 2
    then show ?thesis
      using malformed_answers that by (fastforce simp: handle_frame_def Let_def)
  next
    case 3
    have "answers (request_request_id request) (snd (handle_request host request authenticated w))"
      by (rule handle_request_answers [OF received_if_decoded [OF 3(2)] assms])
    then show ?thesis by (rule that) (simp_all add: 3 handle_frame_def Let_def split_def)
  qed
  then show ?thesis by (auto simp: answers_def delivered_def)
qed

end
