(* ===== verification/Service_Steps.thy ===== *)
theory Service_Steps
  imports Broker_Service
begin

text \<open>
  What the handlers of the broker service (\<open>journal_broker/service.rs\<close>) do to the registry of active
  requests: whatever a handler calls, and whatever other threads do in between, the registry only
  moves by steps of its own interface, so that what holds of every reachable registry holds before
  and after every handler.
\<close>

section \<open>Handlers that respect the registry\<close>

abbreviation registry_steps ::
    "'x broker_host \<Rightarrow> registry_state \<Rightarrow> registry_state \<Rightarrow> bool" where
  "registry_steps host \<equiv> (registry_step (ht_order host))\<^sup>*\<^sup>*"

definition keeps :: "'x broker_host \<Rightarrow> ('x broker_world, 'e, 'a) stateful \<Rightarrow> bool" where
  "keeps host m \<longleftrightarrow> (\<forall>w. registry_steps host (bw_registry w) (bw_registry (fst (m w))))"

text \<open>
  The other threads of the broker, the authorizer and the backend reach the registry through its
  interface only.
\<close>

definition uses_registry_interface :: "'x broker_host \<Rightarrow> bool" where
  "uses_registry_interface host \<longleftrightarrow>
     (\<forall>w. registry_steps host (bw_registry w) (bw_registry (ht_interfere host w)))
     \<and> (\<forall>authenticated claim. keeps host (ht_verify_claim host authenticated claim))
     \<and> (\<forall>caller root handle ctx. keeps host (ht_register_root host caller root handle ctx))
     \<and> (\<forall>caller root capability ctx. keeps host (ht_authorize_registered_root host caller root capability ctx))
     \<and> (\<forall>root candidates ctx. keeps host (ht_filter_disclosable_candidates host root candidates ctx))
     \<and> (\<forall>root ctx. keeps host (ht_query_existing_journal host root ctx))
     \<and> (\<forall>root metadata bounds builder ctx.
          keeps host (ht_read_existing_journal_page host root metadata bounds builder ctx))
     \<and> (\<forall>request ctx. keeps host (ht_read_existing_journal_volume_page host request ctx))"

named_theorems keeps_intros

lemma keeps_return [keeps_intros]: "keeps host (return_stateful a)"
  by (simp add: keeps_def return_stateful_def)

lemma keeps_fail [keeps_intros]: "keeps host (fail_stateful e)"
  by (simp add: keeps_def fail_stateful_def)

lemma keeps_lift [keeps_intros]: "keeps host (lift_stateful r)"
  by (simp add: keeps_def lift_stateful_def)

lemma keeps_bind [keeps_intros]:
  assumes "keeps host m" and "\<And>a. keeps host (f a)"
  shows "keeps host (bind_stateful m f)"
  unfolding keeps_def
proof
  fix w
  obtain w' r where m: "m w = (w', r)" by fastforce
  with assms(1) have "registry_steps host (bw_registry w) (bw_registry w')" by (metis fst_conv keeps_def)
  moreover have "registry_steps host (bw_registry w') (bw_registry (fst (f a w')))" for a
    using assms(2) by (simp add: keeps_def)
  ultimately show "registry_steps host (bw_registry w) (bw_registry (fst (bind_stateful m f w)))"
    by (cases r) (auto simp: bind_stateful_def m intro: rtranclp_trans)
qed

lemma keeps_map_err [keeps_intros]: "keeps host m \<Longrightarrow> keeps host (map_err_stateful g m)"
  by (simp add: keeps_def map_err_stateful_def split_def)

lemma keeps_catch [keeps_intros]: "keeps host m \<Longrightarrow> keeps host (catch_stateful m)"
  by (simp add: keeps_def catch_stateful_def split_def)

lemma keeps_fold [keeps_intros]: "(\<And>x a. keeps host (f x a)) \<Longrightarrow> keeps host (fold_stateful f xs acc)"
proof (induction xs arbitrary: acc)
  case (Cons x xs)
  then show ?case by (simp add: keeps_bind)
qed (simp add: keeps_return)

lemma keeps_context_new [keeps_intros]: "keeps host (context_new key deadline)"
  by (simp add: keeps_def context_new_def)

text \<open>Operations of the registry as handlers call them.\<close>

definition steps_registry ::
    "'x broker_host \<Rightarrow> (nat \<Rightarrow> registry_state \<Rightarrow> registry_state \<times> ('e, 'a) result) \<Rightarrow> bool" where
  "steps_registry host operation \<longleftrightarrow> (\<forall>now s. registry_steps host s (fst (operation now s)))"

named_theorems registry_ops

lemma interfere_steps:
  "uses_registry_interface host \<Longrightarrow> registry_steps host (bw_registry w) (bw_registry (ht_interfere host w))"
  by (simp add: uses_registry_interface_def)

lemma keeps_on_registry [keeps_intros]:
  assumes "uses_registry_interface host" and "steps_registry host operation"
  shows "keeps host (on_registry host operation)" and "keeps host (on_registry_now host operation)"
  using assms(2) interfere_steps [OF assms(1)]
  by (simp_all add: keeps_def on_registry_def on_registry_now_def steps_registry_def Let_def split_def)
    (meson rtranclp_trans)+

lemma steps_registry_ops [registry_ops]:
  "steps_registry host (\<lambda>now s. (s, r now s))"
  "steps_registry host (\<lambda>_. open_connection i g)"
  "steps_registry host (\<lambda>now. begin_query (ht_order host) key deadline now)"
  "steps_registry host (\<lambda>now. accept_read (ht_order host) key deadline read now)"
  "steps_registry host (\<lambda>now. accept_volume_read (ht_order host) key deadline volume now)"
  "steps_registry host (\<lambda>_. begin_control key)"
  "steps_registry host (\<lambda>_ s. (fst (drop_control_guard guard s), Inr ()))"
  "steps_registry host (begin_execution key)" "steps_registry host (abort_accepted key)"
  "steps_registry host (reap_accepted (ht_order host) i g)" "steps_registry host (\<lambda>_. cancel_request key)"
  "steps_registry host (finish_request key)" "steps_registry host (\<lambda>_ s. (disconnect i g s, Inr ()))"
  by (auto simp: steps_registry_def begin_query_def accept_read_def accept_volume_read_def
      intro: registry_step.intros)

section \<open>The handlers\<close>

lemma keeps_traits [keeps_intros]:
  assumes "uses_registry_interface host"
  shows "keeps host (ht_verify_claim host authenticated claim)"
    and "keeps host (ht_register_root host caller root handle ctx)"
    and "keeps host (ht_authorize_registered_root host caller root capability ctx)"
    and "keeps host (ht_filter_disclosable_candidates host pinned candidates ctx)"
    and "keeps host (ht_query_existing_journal host pinned ctx)"
    and "keeps host (ht_read_existing_journal_page host pinned metadata bounds builder ctx)"
    and "keeps host (ht_read_existing_journal_volume_page host volume ctx)"
  using assms by (simp_all add: uses_registry_interface_def)

lemma keeps_contexts [keeps_intros]:
  assumes "uses_registry_interface host"
  shows "keeps host (check_context host ctx)" and "keeps host (step_context host ctx)"
    and "keeps host (deadline_from_timeout host timeout_ms)"
proof -
  have c: "keeps host (context_check host ctx)"
    unfolding context_check_def by (intro keeps_map_err keeps_on_registry assms registry_ops)
  then show "keeps host (check_context host ctx)" unfolding check_context_def by (rule keeps_map_err)
  have "keeps host (context_bounded_step host ctx)"
    unfolding context_bounded_step_def
  proof (rule keeps_bind [OF c])
    fix a
    show "keeps host (\<lambda>world. case checked_add (bw_bounded_steps world) 1 of
         None \<Rightarrow> (world, Inl BackendTimedOut)
       | Some steps \<Rightarrow> let (world, remaining) = context_remaining host ctx (world\<lparr>bw_bounded_steps := steps\<rparr>)
           in (world, Inr (min remaining MAX_BACKEND_STEP)))"
      unfolding keeps_def
    proof
      fix w
      have "registry_steps host (bw_registry w) (bw_registry (ht_interfere host (w\<lparr>bw_bounded_steps := steps\<rparr>)))" for steps
        using interfere_steps [OF assms, of "w\<lparr>bw_bounded_steps := steps\<rparr>"] by simp
      then show "registry_steps host (bw_registry w) (bw_registry (fst (case checked_add (bw_bounded_steps w) 1 of
         None \<Rightarrow> (w, Inl BackendTimedOut)
       | Some steps \<Rightarrow> let (world, remaining) = context_remaining host ctx (w\<lparr>bw_bounded_steps := steps\<rparr>)
           in (world, Inr (min remaining MAX_BACKEND_STEP)))))"
        by (simp add: context_remaining_def Let_def split: option.split)
    qed
  qed
  then show "keeps host (step_context host ctx)" unfolding step_context_def by (rule keeps_map_err)
  show "keeps host (deadline_from_timeout host timeout_ms)"
    using interfere_steps [OF assms] by (simp add: keeps_def deadline_from_timeout_def Let_def)
qed

lemma keeps_if [keeps_intros]: "(P \<Longrightarrow> keeps host m) \<Longrightarrow> (\<not> P \<Longrightarrow> keeps host n) \<Longrightarrow> keeps host (if P then m else n)"
  by simp

lemma keeps_requests [keeps_intros]:
  assumes "uses_registry_interface host"
  shows "keeps host (verify_caller host authenticated claim)"
    and "keeps host (begin_request host request_id caller timeout_ms)"
    and "keeps host body \<Longrightarrow> keeps host (finish_with host key body)"
    and "keeps host (authorize_root host caller root capability ctx)"
  unfolding verify_caller_def begin_request_def finish_with_def authorize_root_def Let_def
  by (intro keeps_intros assms registry_ops; simp)+

lemma keeps_queries:
  assumes "uses_registry_interface host"
  shows "keeps host (query_journal host request_id query authenticated)"
    and "keeps host (register_root host request_id registration authenticated)"
  unfolding query_journal_def query_journal_body_def register_root_def register_root_body_def split_def
  by (intro keeps_intros assms)+

lemma keeps_accepts:
  assumes "uses_registry_interface host"
  shows "keeps host (accept_read_range host request_id read authenticated)"
    and "keeps host (accept_read_volume host request_id volume authenticated)"
    and "keeps host (cancel host request_id claim target authenticated)"
  unfolding accept_read_range_def accept_read_volume_def cancel_def Let_def
  by (intro keeps_intros assms registry_ops)+

lemma keeps_range_read:
  assumes "uses_registry_interface host"
  shows "keeps host (execute_read_range host request_id key request deadline authenticated)"
  unfolding execute_read_range_def Let_def split_def
  by (intro keeps_intros assms)

lemma keeps_cases [keeps_intros]:
  "(\<And>e. keeps host (f e)) \<Longrightarrow> (\<And>a. keeps host (g a)) \<Longrightarrow> keeps host (case r of Inl e \<Rightarrow> f e | Inr a \<Rightarrow> g a)"
  "keeps host m \<Longrightarrow> (\<And>a. keeps host (n a)) \<Longrightarrow> keeps host (case x of None \<Rightarrow> m | Some a \<Rightarrow> n a)"
  "(\<And>a b. keeps host (h a b)) \<Longrightarrow> keeps host (case p of (a, b) \<Rightarrow> h a b)"
  "(\<And>a b. keeps host (k a b acc)) \<Longrightarrow> keeps host ((case p of (a, b) \<Rightarrow> k a b) acc)"
  by (auto split: sum.split option.split prod.split)

lemma keeps_translations [keeps_intros]:
  assumes "uses_registry_interface host"
  shows "keeps host (translate_endpoint host root volume path reference usn directory ctx)"
    and "keeps host (translate_shared_pending_renames host caller request admitted backend_pending covered ctx)"
    and "keeps host (translate_shared_handoffs host caller request admitted carries backend_handoffs covered ctx)"
  unfolding translate_shared_pending_renames_def translate_pending_step_def translate_endpoint_def
    translate_shared_handoffs_def translate_handoff_step_def translate_handoff_target_def Let_def
  by (intro keeps_intros assms)+

lemma keeps_volume_steps [keeps_intros]:
  assumes "uses_registry_interface host"
  shows "keeps host (admit_root_step host caller request ctx index ad)"
    and "keeps host (carry_step host caller request admitted ctx pending cd)"
    and "keeps host (root_outcome_step host request admitted pf ctx x vp)"
    and "keeps host (translate_page host request admitted carries page ctx vp)"
  unfolding admit_root_step_def carry_step_def carry_root_def root_outcome_step_def translate_page_def Let_def
  by (intro keeps_intros assms)+

lemma keeps_volume_read:
  assumes "uses_registry_interface host"
  shows "keeps host (execute_read_volume host request_id key request deadline authenticated)"
  unfolding execute_read_volume_def read_admitted_roots_def conclude_page_def Let_def
  by (intro keeps_intros assms)

section \<open>Frames\<close>

lemma keeps_or_failure:
  assumes "keeps host handler"
  shows "registry_steps host (bw_registry w) (bw_registry (fst (or_failure i c handler w)))"
  using assms by (simp add: keeps_def or_failure_def split_def split: sum.split)

lemma handle_frame_steps:
  assumes "uses_registry_interface host"
  shows "keeps host (handle_frame host frame authenticated)"
proof -
  have "registry_steps host (bw_registry w) (bw_registry (fst (handle_request host r authenticated w)))" for r w
    by (cases r) (simp_all add: keeps_or_failure keeps_queries keeps_accepts assms)
  then show ?thesis
    by (auto simp: keeps_def handle_frame_def Let_def split_def split: sum.split)
qed

lemma execute_frame_steps:
  assumes "uses_registry_interface host"
  shows "keeps host (execute_accepted_read_frame host request_id client_instance authenticated)"
  unfolding keeps_def
proof
  fix w
  let ?key = "execution_key request_id client_instance authenticated"
  obtain w1 begun where b: "on_registry host (begin_execution ?key) w = (w1, begun)" by fastforce
  have s1: "registry_steps host (bw_registry w) (bw_registry w1)"
    using keeps_on_registry(1) [OF assms steps_registry_ops(8)] b by (metis fst_conv keeps_def)
  show "registry_steps host (bw_registry w) (bw_registry
      (fst (execute_accepted_read_frame host request_id client_instance authenticated w)))"
  proof (cases begun)
    case (Inl e)
    with s1 b show ?thesis by (simp add: execute_accepted_read_frame_def execute_accepted_read_def Let_def)
  next
    case (Inr accepted)
    obtain w2 r where x: "execute_accepted host request_id ?key accepted authenticated w1 = (w2, r)" by fastforce
    obtain w3 terminal where f: "on_registry host (finish_request ?key) w2 = (w3, terminal)" by fastforce
    have "keeps host (execute_accepted host request_id ?key accepted authenticated)"
      unfolding execute_accepted_def
      by (cases "ar_request accepted") (simp_all add: keeps_range_read keeps_volume_read assms)
    with x have "registry_steps host (bw_registry w1) (bw_registry w2)" by (metis fst_conv keeps_def)
    moreover have "registry_steps host (bw_registry w2) (bw_registry w3)"
      using keeps_on_registry(1) [OF assms steps_registry_ops(12)] f by (metis fst_conv keeps_def)
    ultimately show ?thesis
      using s1 b x f Inr by (simp add: execute_accepted_read_frame_def execute_accepted_read_def Let_def)
  qed
qed

lemma control_steps:
  assumes "uses_registry_interface host"
  shows "keeps host (abort_accepted_read host request_id client_instance authenticated)"
    and "keeps host (reap_accepted_reads host authenticated)"
    and "keeps host (service_open_connection host authenticated)"
    and "keeps host (service_disconnect host authenticated)"
  unfolding abort_accepted_read_def reap_accepted_reads_def service_open_connection_def service_disconnect_def
  by (intro keeps_intros assms registry_ops)+

section \<open>The service over a run\<close>

text \<open>
  What a connection thread does: it opens the connection, answers frames, executes and aborts
  accepted reads, collects terminals and disconnects.
\<close>

inductive service_step :: "'x broker_host \<Rightarrow> 'x broker_world \<Rightarrow> 'x broker_world \<Rightarrow> bool" for host where
  step_connect: "service_step host w (fst (service_open_connection host authenticated w))"
| step_frame: "service_step host w (fst (handle_frame host frame authenticated w))"
| step_execute: "service_step host w
    (fst (execute_accepted_read_frame host request_id client_instance authenticated w))"
| step_abort_read: "service_step host w
    (fst (abort_accepted_read host request_id client_instance authenticated w))"
| step_reap_reads: "service_step host w (fst (reap_accepted_reads host authenticated w))"
| step_leave: "service_step host w (fst (service_disconnect host authenticated w))"

lemma service_step_registry:
  assumes "uses_registry_interface host" and "service_step host w w'"
  shows "registry_steps host (bw_registry w) (bw_registry w')"
  using assms(2) handle_frame_steps [OF assms(1)] execute_frame_steps [OF assms(1)] control_steps [OF assms(1)]
  by cases (simp_all add: keeps_def)

lemma service_run_registry:
  assumes "uses_registry_interface host" and "(service_step host)\<^sup>*\<^sup>* w w'"
    and "reachable_registry (ht_order host) (bw_registry w)"
  shows "reachable_registry (ht_order host) (bw_registry w')"
  using assms(2,3)
proof induction
  case (step w1 w2)
  with service_step_registry [OF assms(1) step.hyps(2)] show ?case
    unfolding reachable_registry_def by (meson rtranclp_trans)
qed

end
