(* ===== verification/Volume_Outcomes.thy ===== *)
theory Volume_Outcomes
  imports Service_Answers
begin

text \<open>
  The outcomes of a volume read (\<open>execute_read_volume\<close> of \<open>journal_broker/service.rs\<close>), up to the
  moves between roots: admission leaves every refused root with its failure, and the loop over the
  admitted roots leaves every other root with an outcome that passes the protocol's validation.
\<close>

section \<open>Outcomes\<close>

abbreviation requested_root :: "read_journal_volume_request \<Rightarrow> nat \<Rightarrow> shared_journal_root_request" where
  "requested_root request k \<equiv> rv_roots request ! k"

text \<open>An outcome that answers for the \<open>k\<close>-th root of a request.\<close>

definition outcome_for ::
    "read_journal_volume_request \<Rightarrow> nat \<Rightarrow> shared_journal_root_outcome \<Rightarrow> bool" where
  "outcome_for request k x \<longleftrightarrow>
     so_binding x = binding_from_request (rv_caller request) (sr_root (requested_root request k))
     \<and> so_requested_start_usn x = sr_start_usn (requested_root request k)
     \<and> list_all wf_candidate (so_candidates x)
     \<and> root_outcome_validate x (rv_end_usn request) (length (so_candidates x)) = Inr ()"

text \<open>A barrier below the end of the read, or one that cuts every root off.\<close>

definition barrier_ok :: "read_journal_volume_request \<Rightarrow> i64 \<Rightarrow> bool" where
  "barrier_ok request b \<longleftrightarrow> sint b < sint (rv_end_usn request)
     \<or> (\<forall>s \<in> set (rv_roots request). sint b \<le> sint (sr_start_usn s))"

lemma received_volume:
  assumes "received (ReadVolume i request)"
  shows "i \<noteq> 0" and "read_journal_volume_validate request = Inr ()"
    and "caller_claim_validate (rv_caller request) = Inr ()" and "wf_caller (rv_caller request)"
    and "k < length (rv_roots request) \<Longrightarrow>
      wf_binding (binding_from_request (rv_caller request) (sr_root (requested_root request k)))
      \<and> response_binding_validate
          (binding_from_request (rv_caller request) (sr_root (requested_root request k))) = Inr ()"
    and "k < length (rv_roots request) \<Longrightarrow>
      \<exists>iv. read_interval_new (sr_start_usn (requested_root request k)) (rv_end_usn request) = Some iv"
proof -
  from assms show v: "i \<noteq> 0" "read_journal_volume_validate request = Inr ()"
    "wf_caller (rv_caller request)" by (simp_all add: received_def)
  note v' = v(2) [unfolded read_journal_volume_validate_eq_Inr]
  from v' show c: "caller_claim_validate (rv_caller request) = Inr ()" by simp
  assume k: "k < length (rv_roots request)"
  then have mem: "requested_root request k \<in> set (rv_roots request)" by simp
  with v' show "\<exists>iv. read_interval_new (sr_start_usn (requested_root request k)) (rv_end_usn request) = Some iv"
    by auto
  from mem v' have "root_authorization_validate (sr_root (requested_root request k)) = Inr ()"
    by (auto simp: shared_journal_root_validate_def bind_result_eq_Inr)
  moreover from mem assms have "wf_root (sr_root (requested_root request k))"
    by (auto simp: received_def list_all_iff)
  ultimately show "wf_binding (binding_from_request (rv_caller request) (sr_root (requested_root request k)))
      \<and> response_binding_validate
          (binding_from_request (rv_caller request) (sr_root (requested_root request k))) = Inr ()"
    by (intro request_binding_valid c v(3))
qed

lemma failure_outcome_for:
  assumes "received (ReadVolume i request)" and "k < length (rv_roots request)"
  shows "outcome_for request k (shared_failure_outcome (rv_caller request) (requested_root request k) code)"
  using received_volume(5,6) [OF assms]
  by (auto simp: outcome_for_def shared_failure_outcome_def root_outcome_validate_eq_Inr)

lemma read_outcome_for:
  assumes "received (ReadVolume i request)" and "k < length (rv_roots request)"
    and "\<not> root_not_covered request (requested_root request k) pf"
    and "sorted_wrt (\<lambda>a b. sint (bc_usn a) < sint (bc_usn b)) bs"
    and "\<forall>b \<in> set bs. broker_candidate_validate b = Inr () \<and> wf_candidate b
      \<and> sint (sr_start_usn (requested_root request k)) \<le> sint (bc_usn b)
      \<and> sint (bc_usn b) < sint (jp_covered_until_usn pf)"
  shows "outcome_for request k (read_outcome_of request (requested_root request k) pf bs)"
  using received_volume(5,6) [OF assms(1,2)] assms(3-5)
  by (auto simp: outcome_for_def read_outcome_of_def root_outcome_validate_eq_Inr root_not_covered_def
      candidate_usns_fold list_all_iff)

lemma cut_outcome_for:
  assumes "received (ReadVolume i request)" and "k < length (rv_roots request)"
    and "outcome_for request k x" and "so_failure x = None" and "barrier_ok request b"
  shows "outcome_for request k (cut_outcome request (requested_root request k) b x)"
proof (cases "sint b \<le> sint (sr_start_usn (requested_root request k))")
  case True
  then show ?thesis using failure_outcome_for [OF assms(1,2)] by (simp add: cut_outcome_def)
next
  case False
  then have b: "sint b < sint (rv_end_usn request)"
    using assms(2,5) by (auto simp: barrier_ok_def)
  obtain iv where iv: "read_interval_new (sr_start_usn (requested_root request k)) (rv_end_usn request) = Some iv"
    using received_volume(6) [OF assms(1,2)] by blast
  from assms(3,4) obtain c where c: "so_covered_until_usn x = Some c"
    by (auto simp: outcome_for_def root_outcome_validate_eq_Inr)
  show ?thesis
    using assms(3,4) c iv b False
    by (auto simp: outcome_for_def cut_outcome_def root_outcome_validate_eq_Inr candidate_usns_fold
        admits_coverage_iff [OF iv] min_usn_def list_all_iff intro!: sorted_wrt_filter)
qed

section \<open>Admission\<close>

definition admission_inv :: "read_journal_volume_request \<Rightarrow> nat list \<Rightarrow> volume_admission \<Rightarrow> bool" where
  "admission_inv request seen ad \<longleftrightarrow>
     length (ad_outcomes ad) = length (rv_roots request)
     \<and> distinct (map fst (ad_admitted ad)) \<and> fst ` set (ad_admitted ad) \<subseteq> set seen
     \<and> (\<forall>k < length (rv_roots request). k \<notin> fst ` set (ad_admitted ad) \<longrightarrow>
          (\<exists>x. ad_outcomes ad ! k = Some x \<and> outcome_for request k x))"

lemma admit_metadata_cases:
  "(\<exists>code. admit_metadata request index root journal ad = refuse_root request index code ad)
   \<or> (\<exists>before. admit_metadata request index root journal ad =
        ad\<lparr>ad_before := before, ad_outcomes := (ad_outcomes ad)[index := None],
          ad_admitted := ad_admitted ad @ [(index, root)]\<rparr>)"
  unfolding admit_metadata_def
  by (cases journal) (auto split: existing_journal_state.split sum.split)

lemma admit_root_step_cases:
  assumes "admit_root_step host caller request ctx index ad s = (s', Inr ad')"
  shows "(\<exists>code. ad' = refuse_root request index code ad)
    \<or> (\<exists>before root. ad' = ad\<lparr>ad_before := before, ad_outcomes := (ad_outcomes ad)[index := None],
        ad_admitted := ad_admitted ad @ [(index, root)]\<rparr>)"
proof -
  let ?requested = "requested_root request index"
  from assms obtain authorized s1 where rest: "(case authorized of
        Inl error \<Rightarrow> return_stateful
          (refuse_root request index (failure_code_of (map_authorizer_failure error)) ad)
      | Inr root \<Rightarrow>
          (case validate_authorized_root_facts (ht_compare host) caller (sr_root ?requested) root of
             Inl failure \<Rightarrow> return_stateful (refuse_root request index (failure_code_of failure) ad)
           | Inr _ \<Rightarrow>
               bind_stateful (step_context host ctx) (\<lambda>_.
               bind_stateful (catch_stateful (ht_query_existing_journal host root ctx)) (\<lambda>journal.
               return_stateful (admit_metadata request index root journal ad))))) s1 = (s', Inr ad')"
    unfolding admit_root_step_def Let_def bind_stateful_eq_Inr by blast
  show ?thesis
  proof (cases authorized)
    case (Inl error)
    with rest show ?thesis by (auto simp: stateful_eq_Inr)
  next
    case (Inr root)
    show ?thesis
    proof (cases "validate_authorized_root_facts (ht_compare host) caller (sr_root ?requested) root")
      case (Inl failure)
      with rest Inr show ?thesis by (auto simp: stateful_eq_Inr)
    next
      case facts: (Inr u)
      with rest Inr obtain journal where "ad' = admit_metadata request index root journal ad"
        by (auto simp: bind_stateful_eq_Inr stateful_eq_Inr)
      with admit_metadata_cases [of request index root journal ad] show ?thesis by auto
    qed
  qed
qed

lemma admission_new_inv:
  assumes "received (ReadVolume i request)"
  shows "admission_inv request [] (volume_admission_new request)"
  using failure_outcome_for [OF assms] by (auto simp: admission_inv_def volume_admission_new_def)

lemma refuse_root_inv:
  assumes "received (ReadVolume i request)" and "admission_inv request seen ad"
    and "index \<notin> set seen" and "index < length (rv_roots request)"
  shows "admission_inv request (seen @ [index]) (refuse_root request index code ad)"
  using assms(2-4) failure_outcome_for [OF assms(1)]
  by (auto simp: admission_inv_def refuse_root_def nth_list_update)

lemma admit_root_inv:
  assumes "admission_inv request seen ad" and "index \<notin> set seen" and "index < length (rv_roots request)"
  shows "admission_inv request (seen @ [index]) (ad\<lparr>ad_before := before,
      ad_outcomes := (ad_outcomes ad)[index := None],
      ad_admitted := ad_admitted ad @ [(index, root)]\<rparr>)"
  using assms by (auto simp: admission_inv_def nth_list_update)

lemma admission_loop_inv:
  assumes "received (ReadVolume i request)"
    and "fold_stateful (admit_root_step host caller request ctx) [0..<length (rv_roots request)]
      (volume_admission_new request) s = (s', Inr ad)"
  shows "admission_inv request [0..<length (rv_roots request)] ad"
  using assms(2)
proof (rule fold_stateful_all)
  show "admission_inv request [] (volume_admission_new request)" by (rule admission_new_inv [OF assms(1)])
next
  fix pre index a s a' s' post
  assume split: "[0..<length (rv_roots request)] = pre @ index # post"
    and inv: "admission_inv request pre a"
    and step: "admit_root_step host caller request ctx index a s = (s', Inr a')"
  have "distinct (pre @ index # post)" "index \<in> set (pre @ index # post)"
    using distinct_upt [of 0 "length (rv_roots request)"] by (simp_all add: split)
  moreover have "set (pre @ index # post) = {0..<length (rv_roots request)}" by (simp flip: split)
  ultimately have "index \<notin> set pre" "index < length (rv_roots request)" by auto
  with admit_root_step_cases [OF step] show "admission_inv request (pre @ [index]) a'"
    using refuse_root_inv [OF assms(1) inv] admit_root_inv [OF inv] by blast
qed

section \<open>Outcomes of the admitted roots\<close>

text \<open>
  The state of the loop over the admitted roots: every refused or failed root has its failure, and
  every root in \<open>S\<close> that has not failed has an outcome that covers what the page covers.
\<close>

definition concluded ::
    "read_journal_volume_request \<Rightarrow> (nat \<times> authorized_pinned_root) list \<Rightarrow> journal_read_proof option
      \<Rightarrow> nat set \<Rightarrow> volume_progress \<Rightarrow> bool" where
  "concluded request admitted pf S vp \<longleftrightarrow>
     length (vp_outcomes vp) = length (rv_roots request) \<and> set (vp_failed vp) \<subseteq> {..<length admitted}
     \<and> (\<forall>k < length (rv_roots request). k \<notin> fst ` set admitted \<longrightarrow>
          (\<exists>x. vp_outcomes vp ! k = Some x \<and> outcome_for request k x))
     \<and> (\<forall>a < length admitted. a \<in> set (vp_failed vp) \<or> a \<in> S \<longrightarrow>
          (\<exists>x. vp_outcomes vp ! fst (admitted ! a) = Some x \<and> outcome_for request (fst (admitted ! a)) x
             \<and> (a \<in> set (vp_failed vp) \<or> so_failure x = None
                \<and> so_covered_until_usn x = map_option jp_covered_until_usn pf)))"

definition admitted_ok :: "read_journal_volume_request \<Rightarrow> (nat \<times> authorized_pinned_root) list \<Rightarrow> bool" where
  "admitted_ok request admitted \<longleftrightarrow> distinct (map fst admitted)
     \<and> (\<forall>a < length admitted. fst (admitted ! a) < length (rv_roots request))"

lemma admitted_ok_eq:
  assumes "admitted_ok request admitted" and "a < length admitted" and "b < length admitted"
  shows "fst (admitted ! a) = fst (admitted ! b) \<longleftrightarrow> a = b"
  using assms nth_eq_iff_index_eq [of "map fst admitted" a b] by (simp add: admitted_ok_def)

lemma fail_admitted_concluded:
  assumes "received (ReadVolume i request)" and "admitted_ok request admitted"
    and "concluded request admitted pf S vp" and "a < length admitted"
  shows "concluded request admitted pf S (fail_admitted request admitted (a, code) vp)"
proof -
  let ?k = "fst (admitted ! a)" and ?vp = "fail_admitted request admitted (a, code) vp"
  let ?x = "shared_failure_outcome (rv_caller request) (requested_root request ?k) code"
  from assms(2,4) have k: "?k < length (rv_roots request)" by (simp add: admitted_ok_def)
  have x: "outcome_for request ?k ?x" by (rule failure_outcome_for [OF assms(1) k])
  have len: "length (vp_outcomes vp) = length (rv_roots request)" using assms(3) by (simp add: concluded_def)
  have vp: "vp_failed ?vp = List.insert a (vp_failed vp)" "length (vp_outcomes ?vp) = length (vp_outcomes vp)"
    "\<And>j. vp_outcomes ?vp ! j = (if j = ?k then Some ?x else vp_outcomes vp ! j)"
    using k len by (auto simp: fail_admitted_def Let_def nth_list_update)
  have "?k \<in> fst ` set admitted" using assms(4) by simp
  then show ?thesis
    using assms(3,4) x admitted_ok_eq [OF assms(2) _ assms(4)]
    unfolding concluded_def vp by (simp split: if_splits)
qed

lemma fail_all_concluded:
  assumes "received (ReadVolume i request)" and "admitted_ok request admitted"
    and "concluded request admitted pf S vp" and "\<forall>f \<in> set fs. fst f < length admitted"
  shows "concluded request admitted pf S (fold (fail_admitted request admitted) fs vp)"
  using assms(3,4)
proof (induction fs arbitrary: vp)
  case (Cons f fs)
  then show ?case using fail_admitted_concluded [OF assms(1,2) Cons.prems(1)] by (cases f) simp
qed simp

definition read_for ::
    "'x broker_host \<Rightarrow> read_journal_volume_request \<Rightarrow> nat \<times> authorized_pinned_root
      \<Rightarrow> backend_journal_candidate list \<Rightarrow> broker_candidate list \<Rightarrow> bool" where
  "read_for host request admission cs bs \<longleftrightarrow> (\<exists>ds ctx w1 w2.
     ht_filter_disclosable_candidates host (snd admission) (filter (\<lambda>c.
       sint (jc_usn c) \<ge> sint (sr_start_usn (requested_root request (fst admission)))) cs) ctx w1 = (w2, Inr ds)
     \<and> constrain_candidates (ht_compare host) (snd admission) ds = Inr bs)"

lemma root_outcome_step_cases:
  assumes "root_outcome_step host request admitted pf ctx (a, candidates) vp s = (s', Inr vp')"
  shows "(a \<in> set (vp_failed vp) \<and> vp' = vp)
    \<or> (\<exists>code. vp' = fail_admitted request admitted (a, code) vp)
    \<or> (\<exists>cs p bs. candidates = Inr cs \<and> pf = Some p \<and> a \<notin> set (vp_failed vp)
         \<and> \<not> root_not_covered request (requested_root request (fst (admitted ! a))) p
         \<and> read_for host request (admitted ! a) cs bs
         \<and> vp' = vp\<lparr>vp_outcomes := (vp_outcomes vp)[fst (admitted ! a) :=
             Some (read_outcome_of request (requested_root request (fst (admitted ! a))) p bs)]\<rparr>)"
proof -
  obtain index root where ir: "admitted ! a = (index, root)" by fastforce
  note step = assms [unfolded root_outcome_step_def prod.case ir Let_def]
  show ?thesis
  proof (cases "\<exists>cs p. a \<notin> set (vp_failed vp) \<and> candidates = Inr cs \<and> pf = Some p
      \<and> \<not> root_not_covered request (requested_root request index) p")
    case False
    with step show ?thesis by (cases candidates; cases pf) (auto simp: stateful_eq_Inr split: if_splits)
  next
    case True
    then obtain cs p where cs: "a \<notin> set (vp_failed vp)" "candidates = Inr cs" "pf = Some p"
      "\<not> root_not_covered request (requested_root request index) p" by blast
    obtain d w where d: "ht_filter_disclosable_candidates host root (filter (\<lambda>c. sint (jc_usn c)
        \<ge> sint (sr_start_usn (requested_root request index))) cs) ctx s = (w, d)" by fastforce
    have step': "(case d of
         Inl error \<Rightarrow> return_stateful (fail_admitted request admitted
           (a, failure_code_of (map_authorizer_failure error)) vp)
       | Inr disclosable \<Rightarrow> (case constrain_candidates (ht_compare host) root disclosable of
             Inl failure \<Rightarrow> return_stateful (fail_admitted request admitted (a, failure_code_of failure) vp)
           | Inr candidates \<Rightarrow> return_stateful (vp\<lparr>vp_outcomes := (vp_outcomes vp)
               [index := Some (read_outcome_of request (requested_root request index) p candidates)]\<rparr>))) w
      = (s', Inr vp' :: (broker_failure, volume_progress) result)"
      using step by (simp add: cs bind_stateful_def catch_stateful_def d)
    show ?thesis
    proof (cases "\<exists>ds bs. d = Inr ds \<and> constrain_candidates (ht_compare host) root ds = Inr bs")
      case False
      with step' show ?thesis by (cases d) (auto simp: cs stateful_eq_Inr split: sum.splits)
    next
      case True
      then obtain ds bs where "d = Inr ds" "constrain_candidates (ht_compare host) root ds = Inr bs" by blast
      moreover from this d have "read_for host request (index, root) cs bs" by (auto simp: read_for_def)
      ultimately show ?thesis using step' cs by (auto simp: ir stateful_eq_Inr)
    qed
  qed
qed

text \<open>Candidates the scan of a page accepts.\<close>

lemma valid_backend_candidates:
  assumes "\<not> invalid_backend_candidates bounds (Some p) prev cs"
  shows "candidates_ordered cs \<and> (\<forall>c \<in> set cs. sint (jc_usn c) < sint (jp_covered_until_usn p)
    \<and> (\<forall>u. prev = Some u \<longrightarrow> sint u < sint (jc_usn c)))"
  using assms
proof (induction cs arbitrary: prev)
  case (Cons c cs)
  then have "\<not> invalid_backend_candidates bounds (Some p) (Some (jc_usn c)) cs" by simp
  from Cons.IH [OF this] Cons.prems show ?case by (fastforce split: option.splits)
qed simp

lemma candidates_ordered_filter: "candidates_ordered cs \<Longrightarrow> candidates_ordered (filter P cs)"
  by (rule sorted_wrt_filter)

lemma read_for_outcome:
  assumes "received (ReadVolume i request)" and "filters_candidates host"
    and "fst admission < length (rv_roots request)"
    and "\<not> root_not_covered request (requested_root request (fst admission)) p"
    and "read_for host request admission cs bs"
    and "\<not> invalid_backend_candidates bounds (Some p) prev cs"
  shows "outcome_for request (fst admission)
    (read_outcome_of request (requested_root request (fst admission)) p bs)"
proof -
  let ?s = "sr_start_usn (requested_root request (fst admission))"
  let ?cs = "filter (\<lambda>c. sint (jc_usn c) \<ge> sint ?s) cs"
  from assms(5) obtain ds where sub: "subseq ds ?cs"
    and ds: "constrain_candidates (ht_compare host) (snd admission) ds = Inr bs"
    using assms(2) unfolding read_for_def filters_candidates_def by blast
  note cs = valid_backend_candidates [OF assms(6)]
  have "\<forall>c \<in> set ?cs. sint ?s \<le> sint (jc_usn c) \<and> sint (jc_usn c) < sint (jp_covered_until_usn p)"
    using cs by simp
  note placed = placed_under_root [OF sub ds candidates_ordered_filter [OF conjunct1 [OF cs]] this]
  show ?thesis by (rule read_outcome_for [OF assms(1,3,4) placed(1)]) (use placed(2) in auto)
qed

lemma root_outcome_step_concluded:
  assumes "received (ReadVolume i request)" and "filters_candidates host"
    and "admitted_ok request admitted" and "concluded request admitted pf S vp" and "a < length admitted"
    and "\<And>cs. candidates = Inr cs \<Longrightarrow> \<not> invalid_backend_candidates bounds pf None cs"
    and "root_outcome_step host request admitted pf ctx (a, candidates) vp s = (s', Inr vp')"
  shows "concluded request admitted pf (insert a S) vp'"
  using root_outcome_step_cases [OF assms(7)]
proof (elim disjE exE conjE)
  assume "a \<in> set (vp_failed vp)" "vp' = vp"
  with assms(4) show ?thesis by (auto simp: concluded_def)
next
  fix code
  assume v: "vp' = fail_admitted request admitted (a, code) vp"
  then have "a \<in> set (vp_failed vp')" by (simp add: fail_admitted_def Let_def)
  with fail_admitted_concluded [OF assms(1,3-5), of code] show ?thesis
    unfolding v [symmetric] by (auto simp: concluded_def)
next
  fix cs p bs
  let ?k = "fst (admitted ! a)"
  let ?x = "read_outcome_of request (requested_root request ?k) p bs"
  assume c: "candidates = Inr cs" "pf = Some p" "a \<notin> set (vp_failed vp)"
    "\<not> root_not_covered request (requested_root request ?k) p"
    "read_for host request (admitted ! a) cs bs"
    "vp' = vp\<lparr>vp_outcomes := (vp_outcomes vp)[?k := Some ?x]\<rparr>"
  have k: "?k < length (rv_roots request)" using assms(3,5) by (simp add: admitted_ok_def)
  have x: "outcome_for request ?k ?x"
    using read_for_outcome [OF assms(1,2) k c(4,5)] assms(6) c(1,2) by blast
  have len: "length (vp_outcomes vp) = length (rv_roots request)" using assms(4) by (simp add: concluded_def)
  have vp: "vp_failed vp' = vp_failed vp" "length (vp_outcomes vp') = length (vp_outcomes vp)"
    "\<And>j. vp_outcomes vp' ! j = (if j = ?k then Some ?x else vp_outcomes vp ! j)"
    using k len by (auto simp: c(6) nth_list_update)
  have "?k \<in> fst ` set admitted" using assms(5) by simp
  moreover have "so_failure ?x = None" "so_covered_until_usn ?x = Some (jp_covered_until_usn p)"
    by (simp_all add: read_outcome_of_def)
  ultimately show ?thesis
    using assms(4,5) x admitted_ok_eq [OF assms(3) _ assms(5)]
    unfolding concluded_def vp by (simp add: c(2,3) split: if_splits)
qed

lemma outcome_loop_concluded:
  assumes "received (ReadVolume i request)" and "filters_candidates host"
    and "admitted_ok request admitted" and "concluded request admitted pf {} vp"
    and "length candidates = length admitted"
    and "\<And>r cs. r \<in> set candidates \<Longrightarrow> r = Inr cs \<Longrightarrow> \<not> invalid_backend_candidates bounds pf None cs"
    and "fold_stateful (root_outcome_step host request admitted pf ctx) (enumerate 0 candidates) vp s
      = (s', Inr vp')"
  shows "concluded request admitted pf {..<length admitted} vp'"
proof -
  have "concluded request admitted pf (fst ` set (enumerate 0 candidates)) vp'"
    using assms(7)
  proof (rule fold_stateful_all [where P = "\<lambda>pre. concluded request admitted pf (fst ` set pre)"])
    show "concluded request admitted pf (fst ` set []) vp" using assms(4) by simp
  next
    fix pre x a s a' s' post
    assume split: "enumerate 0 candidates = pre @ x # post"
      and inv: "concluded request admitted pf (fst ` set pre) a"
      and step: "root_outcome_step host request admitted pf ctx x a s = (s', Inr a')"
    obtain k r where x: "x = (k, r)" by fastforce
    have "(k, r) \<in> set (enumerate 0 candidates)" by (simp add: split x)
    then have k: "k < length admitted" and r: "r \<in> set candidates"
      using assms(5) by (auto simp: in_set_enumerate_eq intro: nth_mem)
    have "concluded request admitted pf (insert k (fst ` set pre)) a'"
      by (rule root_outcome_step_concluded [OF assms(1-3) inv k assms(6) [OF r] step [unfolded x]])
    then show "concluded request admitted pf (fst ` set (pre @ [x])) a'" by (simp add: x)
  qed
  moreover have "fst ` set (enumerate 0 candidates) = set (map fst (enumerate 0 candidates))"
    by (rule set_map [symmetric])
  moreover have "\<dots> = {..<length admitted}"
    unfolding map_fst_enumerate by (simp add: assms(5) atLeast0LessThan)
  ultimately show ?thesis by (simp only:)
qed

end
