(* ===== verification/Volume_Moves.thy ===== *)
theory Volume_Moves
  imports Volume_Outcomes
begin

text \<open>
  The moves between roots and the pending renames of a volume read (\<open>translate_shared_handoffs\<close> and
  \<open>translate_shared_pending_renames\<close> of \<open>journal_broker/service.rs\<close>): what is translated is within
  the page and valid for the protocol, and what is refused fails only admitted roots and lowers the
  barrier to a usable position.
\<close>

section \<open>Moves and pending renames\<close>

lemma single_relative_path_eq_Some:
  "single_relative_path bs = Some path \<longleftrightarrow> (\<exists>b. bs = [b] \<and> bc_scope b = RelativePath path)"
  by (cases bs rule: single_relative_path.cases) (auto split: candidate_scope.splits)

definition path_ok :: "str \<Rightarrow> bool" where
  "path_ok path \<longleftrightarrow> validate_relative_path path = Inr () \<and> utf8_valid path"

lemma translate_endpoint_path:
  assumes "translate_endpoint host root volume_id units file_reference usn dir ctx w = (w', Inr path)"
  shows "path_ok path"
proof -
  from assms obtain cs bs where "constrain_candidates (ht_compare host) root cs = Inr bs"
    and bs: "single_relative_path bs = Some path"
    unfolding translate_endpoint_def
    by (auto simp: bind_stateful_eq_Inr stateful_eq_Inr map_err_eq_Inr ok_or_eq_Inr)
  then obtain kept where "list_all2 placed_from kept bs" using constrain_candidates_placed by blast
  moreover from bs obtain b where b: "bs = [b]" "bc_scope b = RelativePath path"
    by (auto simp: single_relative_path_eq_Some)
  ultimately have "broker_candidate_validate b = Inr ()" "wf_candidate b"
    using placed_list_sound(2) [of kept bs] by auto
  with b show ?thesis
    by (simp add: path_ok_def broker_candidate_validate_eq_Inr wf_candidate_def candidate_scope_validate_def)
qed

lemma min_usn_barrier: "barrier_ok request a \<Longrightarrow> barrier_ok request b \<Longrightarrow> barrier_ok request (min_usn a b)"
  by (simp add: min_usn_def)

lemma minimum_start_barrier:
  assumes "read_journal_volume_validate request = Inr ()"
  shows "barrier_ok request (the (minimum_start_usn request))"
  using minimum_start_usn_bounds [OF assms] by (auto simp: barrier_ok_def)

text \<open>What every translation keeps: failures of admitted roots, and a usable barrier.\<close>

definition translation_ok :: "read_journal_volume_request \<Rightarrow> nat \<Rightarrow> 'a root_translation \<Rightarrow> bool" where
  "translation_ok request n tr \<longleftrightarrow> (\<forall>f \<in> set (tr_failures tr). fst f < n)
     \<and> (\<forall>b. tr_barrier tr = Some b \<longrightarrow> barrier_ok request b)"

lemma lower_barrier_ok:
  "\<forall>b. barrier = Some b \<longrightarrow> barrier_ok request b \<Longrightarrow> barrier_ok request c
    \<Longrightarrow> lower_translation_barrier barrier c = Some d \<Longrightarrow> barrier_ok request d"
  by (auto simp: lower_translation_barrier_def min_usn_barrier split: option.splits)

lemma fail_translation_ok:
  assumes "translation_ok request n tr" and "\<forall>f \<in> set fs. fst f < n" and "barrier_ok request b"
  shows "translation_ok request n (fail_translation fs b tr)"
  unfolding translation_ok_def fail_translation_def
  using assms(1,2) lower_barrier_ok [OF _ assms(3)] by (auto simp: translation_ok_def)

subsection \<open>Pending renames\<close>

text \<open>A pending rename in the response, from one the backend reported.\<close>

definition pending_from ::
    "read_journal_volume_request \<Rightarrow> (nat \<times> authorized_pinned_root) list \<Rightarrow> i64 \<Rightarrow> nat \<Rightarrow> shared_journal_pending_rename
      \<Rightarrow> bool" where
  "pending_from request admitted covered a p \<longleftrightarrow> a < length admitted
     \<and> sp_binding p = binding_from_request (rv_caller request) (sr_root (requested_root request (fst (admitted ! a))))
     \<and> is_reference_length (length (sp_file_reference p)) \<and> path_ok (sp_previous_relative_path p)
     \<and> sint (sr_start_usn (requested_root request (fst (admitted ! a)))) \<le> sint (sp_old_usn p)
     \<and> sint (sp_old_usn p) < sint covered"

lemma translate_pending_step_ok:
  assumes "read_journal_volume_validate request = Inr ()"
    and "sint covered \<le> sint (rv_end_usn request)"
    and "translate_pending_step host (rv_caller request) request admitted covered ctx h tr s = (s', Inr tr')"
    and "translation_ok request (length admitted) tr"
  shows "translation_ok request (length admitted) tr'
    \<and> tr_pending tr' = tr_pending tr
    \<and> (tr_translated tr' = tr_translated tr
       \<or> (\<exists>p. tr_translated tr' = tr_translated tr @ [p] \<and> sp_old_usn p = bn_old_usn h
            \<and> pending_from request admitted covered (bn_root_index h) p))"
proof -
  let ?a = "bn_root_index h"
  let ?requested = "requested_root request (fst (admitted ! ?a))"
  let ?b = "if sint (bn_old_usn h) \<ge> sint (the (minimum_start_usn request))
      \<and> sint (bn_old_usn h) < sint covered then bn_old_usn h else the (minimum_start_usn request)"
  let ?root = "snd (admitted ! ?a)"
  have a: "?a < length admitted"
    using assms(3) by (rule contrapos_pp) (simp add: translate_pending_step_def nth_option_def stateful_eq_Inr)
  then have n: "nth_option admitted ?a = Some (fst (admitted ! ?a), ?root)" by (simp add: nth_option_def)
  note step = assms(3) [unfolded translate_pending_step_def n option.case prod.case Let_def]
  have bok: "barrier_ok request ?b"
    using minimum_start_barrier [OF assms(1)] assms(2) by (auto simp: barrier_ok_def)
  note failed = fail_translation_ok [OF assms(4), of "[(?a, code)]" for code, simplified, OF a]
  show ?thesis
  proof (cases "\<not> is_reference_length (length (bn_file_reference h))
      \<or> sint (bn_old_usn h) < sint (sr_start_usn ?requested) \<or> sint (bn_old_usn h) \<ge> sint covered")
    case True
    with step have "tr' = fail_translation [(?a, RecordUnsupported)] ?b tr" by (simp add: stateful_eq_Inr)
    with failed [OF bok] show ?thesis by (simp add: fail_translation_def)
  next
    case False
    then have old: "barrier_ok request (bn_old_usn h)" using assms(2) by (auto simp: barrier_ok_def)
    obtain e w where e: "translate_endpoint host ?root (ra_volume_id (sr_root ?requested))
        (bn_previous_absolute_path_utf16 h) (bn_file_reference h) (bn_old_usn h) (bn_is_directory h)
        ctx s = (w, e)" by fastforce
    show ?thesis
    proof (cases e)
      case (Inl err)
      with step False e obtain code b where "tr' = fail_translation [(?a, code)] b tr" "barrier_ok request b"
        using bok old by (cases err) (auto simp: bind_stateful_def catch_stateful_def return_stateful_def)
      with failed show ?thesis by (simp add: fail_translation_def)
    next
      case (Inr path)
      then have "path_ok path" using translate_endpoint_path e by blast
      with Inr step False e a assms(4) show ?thesis
        by (auto simp: bind_stateful_def catch_stateful_def return_stateful_def pending_from_def
            translation_ok_def)
    qed
  qed
qed

lemma translate_pending_ok:
  assumes "read_journal_volume_validate request = Inr ()"
    and "sint covered \<le> sint (rv_end_usn request)"
    and "translate_shared_pending_renames host (rv_caller request) request admitted hs covered ctx s
      = (s', Inr tr)"
  shows "translation_ok request (length admitted) tr
    \<and> (\<forall>p \<in> set (tr_translated tr). \<exists>h \<in> set hs. sp_old_usn p = bn_old_usn h
         \<and> pending_from request admitted covered (bn_root_index h) p)"
  using assms(3) unfolding translate_shared_pending_renames_def
proof (rule fold_stateful_induct)
  show "translation_ok request (length admitted) (root_translation_new :: shared_journal_pending_rename root_translation)
    \<and> (\<forall>p \<in> set (tr_translated root_translation_new). \<exists>h \<in> set hs. sp_old_usn p = bn_old_usn h
         \<and> pending_from request admitted covered (bn_root_index h) p)"
    by (simp add: translation_ok_def root_translation_new_def)
next
  fix h a s a' s'
  assume h: "h \<in> set hs" and inv: "translation_ok request (length admitted) a
      \<and> (\<forall>p \<in> set (tr_translated a). \<exists>h \<in> set hs. sp_old_usn p = bn_old_usn h
           \<and> pending_from request admitted covered (bn_root_index h) p)"
    and step: "translate_pending_step host (rv_caller request) request admitted covered ctx h a s = (s', Inr a')"
  from translate_pending_step_ok [OF assms(1,2) step conjunct1 [OF inv]] inv h
  show "translation_ok request (length admitted) a'
      \<and> (\<forall>p \<in> set (tr_translated a'). \<exists>h \<in> set hs. sp_old_usn p = bn_old_usn h
           \<and> pending_from request admitted covered (bn_root_index h) p)"
    by (elim conjE disjE exE) auto
qed

subsection \<open>Moves\<close>

text \<open>A move that the backend reports within the page, with the source the service found for it.\<close>

definition move_within ::
    "read_journal_volume_request \<Rightarrow> (nat \<times> authorized_pinned_root) list \<Rightarrow> backend_pending_rename_carry list
      \<Rightarrow> i64 \<Rightarrow> backend_journal_handoff \<Rightarrow> handoff_source \<Rightarrow> bool" where
  "move_within request admitted carries covered h source \<longleftrightarrow> bh_current_root_index h < length admitted
     \<and> handoff_source_of (rv_caller request) request admitted carries h
         (bh_previous_root_index h) (bh_previous_pending_index h) = Inr source
     \<and> \<not> handoff_out_of_range request admitted (fst (admitted ! bh_current_root_index h)) covered h"

text \<open>A move out of a carried rename starts at the path that was carried.\<close>

definition carried_path :: "read_journal_volume_request \<Rightarrow> backend_journal_handoff \<Rightarrow> str \<Rightarrow> bool" where
  "carried_path request h path \<longleftrightarrow> (\<forall>j. bh_previous_pending_index h = Some j
     \<longrightarrow> path = pr_previous_relative_path (rv_pending_renames request ! j))"

lemma carried_path_iff: "carried_path request h path \<longleftrightarrow> \<not> carried_path_differs request h path"
  by (auto simp: carried_path_def carried_path_differs_def split: option.split)

definition moved_from ::
    "read_journal_volume_request \<Rightarrow> (nat \<times> authorized_pinned_root) list \<Rightarrow> backend_pending_rename_carry list
      \<Rightarrow> i64 \<Rightarrow> backend_journal_handoff \<Rightarrow> shared_journal_handoff \<Rightarrow> bool" where
  "moved_from request admitted carries covered h t \<longleftrightarrow> (\<exists>source.
     move_within request admitted carries covered h source
     \<and> sh_previous_binding t = hs_binding source \<and> sh_previous_carry_id t = hs_carry_id source
     \<and> sh_current_binding t = binding_from_request (rv_caller request)
         (sr_root (requested_root request (fst (admitted ! bh_current_root_index h))))
     \<and> sh_usn t = bh_usn h \<and> sh_file_reference t = bh_file_reference h
     \<and> sh_is_directory t = bh_is_directory h \<and> carried_path request h (sh_previous_relative_path t)
     \<and> path_ok (sh_previous_relative_path t) \<and> path_ok (sh_current_relative_path t))"

text \<open>The source of a move whose target was refused, kept as a pending rename.\<close>

definition source_kept ::
    "read_journal_volume_request \<Rightarrow> (nat \<times> authorized_pinned_root) list \<Rightarrow> backend_pending_rename_carry list
      \<Rightarrow> i64 \<Rightarrow> backend_journal_handoff \<Rightarrow> shared_journal_pending_rename \<Rightarrow> bool" where
  "source_kept request admitted carries covered h p \<longleftrightarrow> (\<exists>source.
     move_within request admitted carries covered h source \<and> hs_carry_id source = None
     \<and> sp_binding p = hs_binding source \<and> sp_old_usn p = bh_old_usn h
     \<and> sp_file_reference p = bh_file_reference h \<and> path_ok (sp_previous_relative_path p))"

lemma handoff_source_index:
  assumes "handoff_source_of caller request admitted carries h prev pend = Inr source"
    and "\<forall>c \<in> set carries. \<forall>a. cr_read_root_index c = Some a \<longrightarrow> a < length admitted"
    and "hs_root_index source = Some a"
  shows "a < length admitted"
  using assms
  by (cases "(caller, request, admitted, carries, h, prev, pend)" rule: handoff_source_of.cases)
    (auto simp: nth_option_def bind_result_eq_Inr ok_or_eq_Inr all_set_conv_all_nth
      split: if_splits prod.splits)

lemma safe_old_barrier_ok:
  assumes "read_journal_volume_validate request = Inr ()" and "sint covered \<le> sint (rv_end_usn request)"
  shows "barrier_ok request (safe_old_barrier request covered h)"
  using minimum_start_barrier [OF assms(1)] assms(2)
  by (auto simp: safe_old_barrier_def Let_def barrier_ok_def)

lemma source_failures_index:
  assumes "\<And>a. hs_root_index source = Some a \<Longrightarrow> a < n"
  shows "\<forall>f \<in> set (source_failures source code). fst f < n"
  using assms by (auto simp: source_failures_def split: option.splits)

text \<open>The target of a move: translated, or refused with its source kept.\<close>

lemma translate_handoff_target_ok:
  assumes "translate_handoff_target host (rv_caller request) declared root ctx source h previous tr s
      = (s', Inr tr')"
    and "declared = sr_root (requested_root request (fst (admitted ! bh_current_root_index h)))"
    and "move_within request admitted carries covered h source"
    and "path_ok previous \<and> carried_path request h previous"
    and "sint covered \<le> sint (rv_end_usn request)"
    and "translation_ok request (length admitted) tr"
  shows "translation_ok request (length admitted) tr'
    \<and> (tr_translated tr' = tr_translated tr
       \<or> (\<exists>t. tr_translated tr' = tr_translated tr @ [t] \<and> moved_from request admitted carries covered h t))
    \<and> (tr_pending tr' = tr_pending tr
       \<or> (\<exists>p. tr_pending tr' = tr_pending tr @ [p] \<and> source_kept request admitted carries covered h p))"
proof -
  let ?a = "bh_current_root_index h"
  have a: "?a < length admitted" using assms(3) by (simp add: move_within_def)
  have usn: "barrier_ok request (bh_usn h)"
    using assms(3,5) by (auto simp: move_within_def handoff_out_of_range_def Let_def barrier_ok_def)
  obtain e w where e: "translate_endpoint host root (ra_volume_id declared)
      (bh_current_absolute_path_utf16 h) (bh_file_reference h) (bh_usn h) (bh_is_directory h) ctx s = (w, e)"
    by fastforce
  note step = assms(1) [unfolded translate_handoff_target_def bind_stateful_def catch_stateful_def
      return_stateful_def e prod.case sum.case prod.inject sum.inject]
  show ?thesis
  proof (cases e)
    case (Inr path)
    with e have "path_ok path" using translate_endpoint_path by blast
    with Inr step assms show ?thesis
      by (auto simp: moved_from_def translation_ok_def)
  next
    case (Inl err)
    have "\<forall>b. tr_barrier tr = Some b \<longrightarrow> barrier_ok request b" using assms(6) by (simp add: translation_ok_def)
    note low = lower_barrier_ok [OF this usn]
    have "source_kept request admitted carries covered h \<lparr>sp_binding = hs_binding source,
        sp_file_reference = bh_file_reference h, sp_old_usn = bh_old_usn h,
        sp_previous_relative_path = previous, sp_is_directory = bh_is_directory h\<rparr>"
      if "hs_carry_id source = None"
      using that assms(3,4) unfolding source_kept_def by (intro exI [of _ source]) simp
    with Inl step assms(6) a low show ?thesis
      by (cases "hs_carry_id source")
        (auto simp: preserve_verified_handoff_source_def Let_def translation_ok_def)
  qed
qed

lemma translate_handoff_step_ok:
  assumes "read_journal_volume_validate request = Inr ()"
    and "sint covered \<le> sint (rv_end_usn request)"
    and "\<forall>c \<in> set carries. \<forall>a. cr_read_root_index c = Some a \<longrightarrow> a < length admitted"
    and "translate_handoff_step host (rv_caller request) request admitted carries covered ctx h tr s
      = (s', Inr tr')"
    and "translation_ok request (length admitted) tr"
  shows "translation_ok request (length admitted) tr'
    \<and> (tr_translated tr' = tr_translated tr
       \<or> (\<exists>t. tr_translated tr' = tr_translated tr @ [t] \<and> moved_from request admitted carries covered h t))
    \<and> (tr_pending tr' = tr_pending tr
       \<or> (\<exists>p. tr_pending tr' = tr_pending tr @ [p] \<and> source_kept request admitted carries covered h p))"
proof -
  let ?a = "bh_current_root_index h" and ?b = "safe_old_barrier request covered h"
  let ?k = "fst (admitted ! ?a)" and ?root = "snd (admitted ! ?a)"
  have a: "?a < length admitted"
    using assms(4) by (rule contrapos_pp) (simp add: translate_handoff_step_def nth_option_def stateful_eq_Inr)
  then have n: "nth_option admitted ?a = Some (?k, ?root)" by (simp add: nth_option_def)
  note step0 = assms(4) [unfolded translate_handoff_step_def n option.case prod.case Let_def]
  from step0 obtain source where src: "handoff_source_of (rv_caller request) request admitted carries h
      (bh_previous_root_index h) (bh_previous_pending_index h) = Inr source"
    by (auto simp: bind_stateful_eq_Inr stateful_eq_Inr)
  note step = step0 [unfolded src lift_stateful_def bind_stateful_def prod.case sum.case catch_stateful_def]
  note bok = safe_old_barrier_ok [OF assms(1,2), of h]
  note idx = source_failures_index [OF handoff_source_index [OF src assms(3)]]
  have failed: "translation_ok request (length admitted) (fail_translation fs ?b tr)"
    if "\<forall>f \<in> set fs. fst f < length admitted" for fs
    by (rule fail_translation_ok [OF assms(5) that bok])
  show ?thesis
  proof (cases "handoff_out_of_range request admitted ?k covered h")
    case True
    with step idx a failed [of "source_failures source RecordUnsupported @ [(?a, RecordUnsupported)]"]
    show ?thesis by (auto simp: return_stateful_def fail_translation_def)
  next
    case False
    obtain e w where e: "translate_endpoint host (hs_root source)
        (pb_volume_id (ap_pinned_root (hs_root source))) (bh_previous_absolute_path_utf16 h)
        (bh_file_reference h) (bh_old_usn h) (bh_is_directory h) ctx s = (w, e)" by fastforce
    have path: "path_ok p" if "e = Inr p" for p using translate_endpoint_path e that by blast
    consider code where "tr' = fail_translation (source_failures source code) ?b tr"
      | previous w where "path_ok previous \<and> carried_path request h previous"
        "translate_handoff_target host (rv_caller request) (sr_root (requested_root request ?k)) ?root ctx
          source h previous tr w = (s', Inr tr')"
      using step False e path
      by (cases e) (auto simp: return_stateful_def carried_path_iff split: if_splits)
    then show ?thesis
    proof cases
      case 1
      with failed [OF idx] show ?thesis by (auto simp: fail_translation_def)
    next
      case 2
      have "move_within request admitted carries covered h source"
        using a src False by (simp add: move_within_def)
      from translate_handoff_target_ok [OF 2(2) refl this 2(1) assms(2,5)] show ?thesis .
    qed
  qed
qed

lemma translate_handoffs_ok:
  assumes "read_journal_volume_validate request = Inr ()"
    and "sint covered \<le> sint (rv_end_usn request)"
    and "\<forall>c \<in> set carries. \<forall>a. cr_read_root_index c = Some a \<longrightarrow> a < length admitted"
    and "translate_shared_handoffs host (rv_caller request) request admitted carries hs covered ctx s
      = (s', Inr tr)"
  shows "translation_ok request (length admitted) tr
    \<and> (\<exists>gs. subseq gs hs \<and> list_all2 (moved_from request admitted carries covered) gs (tr_translated tr))
    \<and> (\<forall>p \<in> set (tr_pending tr). \<exists>h \<in> set hs. source_kept request admitted carries covered h p)"
proof -
  let ?P = "\<lambda>pre tr. translation_ok request (length admitted) tr
    \<and> (\<exists>gs. subseq gs pre \<and> list_all2 (moved_from request admitted carries covered) gs (tr_translated tr))
    \<and> (\<forall>p \<in> set (tr_pending tr). \<exists>h \<in> set hs. source_kept request admitted carries covered h p)"
  from assms(4) show ?thesis
    unfolding translate_shared_handoffs_def
  proof (rule fold_stateful_all [where P = ?P])
    show "?P [] root_translation_new" by (simp add: translation_ok_def root_translation_new_def)
  next
    fix pre h a s a' s' post
    assume split: "hs = pre @ h # post" and inv: "?P pre a"
      and step: "translate_handoff_step host (rv_caller request) request admitted carries covered ctx h a s
        = (s', Inr a')"
    have h: "h \<in> set hs" by (simp add: split)
    note ok = translate_handoff_step_ok [OF assms(1-3) step conjunct1 [OF inv]]
    from inv obtain gs where gs: "subseq gs pre"
      "list_all2 (moved_from request admitted carries covered) gs (tr_translated a)" by blast
    have "\<exists>gs. subseq gs (pre @ [h]) \<and> list_all2 (moved_from request admitted carries covered) gs (tr_translated a')"
    proof (cases "tr_translated a' = tr_translated a")
      case True
      with gs show ?thesis by (metis subseq_rev_drop_many)
    next
      case False
      with ok obtain t where "tr_translated a' = tr_translated a @ [t]" "moved_from request admitted carries covered h t"
        by blast
      with gs show ?thesis by (intro exI [of _ "gs @ [h]"]) (auto intro: list_emb_append_mono list_all2_appendI)
    qed
    with ok inv h show "?P (pre @ [h]) a'" by (elim conjE disjE exE) auto
  qed
qed

end
