(* ===== verification/Volume_Response.thy ===== *)
theory Volume_Response
  imports Volume_Moves
begin

text \<open>
  The response to a volume read (\<open>execute_read_volume\<close> of \<open>journal_broker/service.rs\<close>): the validator
  of \<open>wire/codec.rs\<close> against a specification without totals or early exits, and what the service
  must have gathered (\<open>volume_sound\<close>) for the response it builds to pass that validator.
\<close>

section \<open>Validation from its promises\<close>

text \<open>The converse of what a validated response promises.\<close>

lemma evidence_fold_ok:
  assumes "\<forall>x \<in> set xs. f x \<noteq> None" and "e + evidence_sum f xs < 2 ^ 64"
  shows "fold_result (\<lambda>x e. add_evidence e (f x)) xs e = Inr (e + evidence_sum f xs)"
  using assms
proof (induction xs arbitrary: e)
  case (Cons x xs)
  then obtain n where "f x = Some n" by auto
  with Cons show ?case
    by (simp add: bind_result_eq_Inr add_evidence_def add_total_def checked_add_def add.assoc)
qed simp

lemma validate_outcomes_ok:
  assumes "\<forall>x \<in> set xs. root_outcome_validate x (vr_requested_end_usn r) (unat (vr_max_records r)) = Inr ()
      \<and> rb_client_instance (so_binding x) = vr_client_instance r \<and> rb_volume_id (so_binding x) = vr_volume_id r
      \<and> (\<forall>c \<in> set (so_candidates x). candidate_evidence_bytes c \<noteq> None)"
    and "distinct (map outcome_key xs)" and "outcome_key ` set xs \<inter> B = {}"
    and "tt_records t + (\<Sum>x \<leftarrow> xs. length (so_candidates x)) < 2 ^ 64"
    and "tt_evidence t + (\<Sum>x \<leftarrow> xs. evidence_sum candidate_evidence_bytes (so_candidates x)) < 2 ^ 64"
  shows "\<exists>B' t'. fold_result (validate_outcome_step r) xs (B, t) = Inr (B', t')"
  using assms
proof (induction xs arbitrary: B t)
  case (Cons x xs)
  let ?e = "evidence_sum candidate_evidence_bytes (so_candidates x)"
  let ?t = "\<lparr>tt_records = tt_records t + length (so_candidates x), tt_evidence = tt_evidence t + ?e\<rparr>"
  have "validate_outcome_step r x (B, t) = Inr (insert (outcome_key x) B, ?t)"
    using Cons.prems evidence_fold_ok [of "so_candidates x" candidate_evidence_bytes "tt_evidence t"]
    by (auto simp: validate_outcome_step_def add_total_def checked_add_def Let_def)
  moreover have "\<exists>B' t'. fold_result (validate_outcome_step r) xs (insert (outcome_key x) B, ?t) = Inr (B', t')"
    using Cons.prems by (intro Cons.IH) (auto simp: add.assoc)
  ultimately show ?case by simp
qed simp

lemma validate_endpoint_ok:
  assumes "endpoint_covered outcomes usn b" and "distinct (map outcome_key outcomes)"
  shows "validate_endpoint e1 e2 outcomes usn b = Inr ()"
proof -
  from assms(1) obtain x c where x: "x \<in> set outcomes" "same_endpoint b x" "so_failure x = None"
    "so_covered_until_usn x = Some c" "sint (so_requested_start_usn x) \<le> sint usn" "sint usn < sint c"
    by (auto simp: endpoint_covered_def)
  have inj: "inj_on outcome_key (set outcomes)" using assms(2) unfolding distinct_map by (rule conjunct2)
  have "y = x" if "y \<in> set outcomes" "same_endpoint b y" for y
  proof -
    from that(2) x(2) have "outcome_key y = outcome_key x"
      unfolding same_endpoint_def by (elim conjE) (simp only:)
    then show ?thesis by (rule inj_onD [OF inj _ that(1) x(1)])
  qed
  moreover obtain y where y: "List.find (same_endpoint b) outcomes = Some y"
    using x(1,2) by (cases "List.find (same_endpoint b) outcomes") (auto simp: find_None_iff)
  moreover note find_SomeD [OF y]
  ultimately have "y = x" by (elim conjE)
  with x y show ?thesis by (simp add: validate_endpoint_def)
qed

lemma validate_handoffs_ok:
  assumes "\<forall>h \<in> set hs. handoff_validate h (vr_client_instance r) (vr_volume_id r) (vr_requested_end_usn r) = Inr ()
      \<and> (\<forall>b \<in> set (handoff_endpoints h). endpoint_covered (vr_outcomes r) (sh_usn h) b)
      \<and> handoff_evidence_bytes h \<noteq> None"
    and "distinct (map outcome_key (vr_outcomes r))"
    and "tt_records t + length hs < 2 ^ 64" and "tt_evidence t + evidence_sum handoff_evidence_bytes hs < 2 ^ 64"
  shows "\<exists>t'. fold_result (validate_handoff_step r) hs t = Inr t'"
  using assms(1,3,4)
proof (induction hs arbitrary: t)
  case (Cons h hs)
  then obtain n where n: "handoff_evidence_bytes h = Some n" by auto
  let ?t = "\<lparr>tt_records = tt_records t + 1, tt_evidence = tt_evidence t + n\<rparr>"
  have "validate_handoff_step r h t = Inr ?t"
    using Cons.prems n validate_endpoint_ok [OF _ assms(2)]
    by (auto simp: validate_handoff_step_def bind_result_eq_Inr add_total_eq_Inr add_evidence_eq_Inr
        each_result_eq_Inr)
  moreover have "\<exists>t'. fold_result (validate_handoff_step r) hs ?t = Inr t'"
    using Cons.prems n by (intro Cons.IH) auto
  ultimately show ?case by simp
qed simp

lemma validate_pendings_ok:
  assumes "\<forall>p \<in> set ps. pending_rename_validate p (vr_client_instance r) (vr_volume_id r) (vr_requested_end_usn r) = Inr ()
      \<and> endpoint_covered (vr_outcomes r) (sp_old_usn p) (sp_binding p)
      \<and> pending_rename_evidence_bytes p \<noteq> None"
    and "distinct (map outcome_key (vr_outcomes r))"
    and "tt_records t + length ps < 2 ^ 64"
    and "tt_evidence t + evidence_sum pending_rename_evidence_bytes ps < 2 ^ 64"
  shows "\<exists>t'. fold_result (validate_pending_step r) ps t = Inr t'"
  using assms(1,3,4)
proof (induction ps arbitrary: t)
  case (Cons p ps)
  then obtain n where n: "pending_rename_evidence_bytes p = Some n" by auto
  let ?t = "\<lparr>tt_records = tt_records t + 1, tt_evidence = tt_evidence t + n\<rparr>"
  have "validate_pending_step r p t = Inr ?t"
    using Cons.prems n validate_endpoint_ok [OF _ assms(2)]
    by (auto simp: validate_pending_step_def bind_result_eq_Inr add_total_eq_Inr add_evidence_eq_Inr)
  moreover have "\<exists>t'. fold_result (validate_pending_step r) ps ?t = Inr t'"
    using Cons.prems n by (intro Cons.IH) auto
  ultimately show ?case by simp
qed simp

text \<open>The service counts as the validator does.\<close>

lemma count_shared_fold:
  assumes "fold_result (\<lambda>x. count_shared (f x)) xs (n, e) = Inr (n', e')"
  shows "(\<forall>x \<in> set xs. f x \<noteq> None) \<and> n' = n + length xs \<and> e' = e + evidence_sum f xs"
  using assms
proof (induction xs arbitrary: n e)
  case (Cons x xs)
  then obtain m where m: "f x = Some m"
    and rest: "fold_result (\<lambda>x. count_shared (f x)) xs (n + 1, e + m) = Inr (n', e')"
    by (auto simp: count_shared_def bind_result_eq_Inr ok_or_eq_Inr)
  from Cons.IH [OF rest] m show ?case by simp
qed simp

lemma evidence_sum_concat: "evidence_sum f (concat xss) = (\<Sum>xs \<leftarrow> xss. evidence_sum f xs)"
  by (induction xss) (simp_all add: evidence_sum_def)

lemma validate_shared_response_limits_InrD:
  assumes "validate_shared_response_limits outcomes handoffs pendings records evidence = Inr ()"
  shows "\<forall>x \<in> set outcomes. \<forall>c \<in> set (so_candidates x). candidate_evidence_bytes c \<noteq> None"
    and "\<forall>h \<in> set handoffs. handoff_evidence_bytes h \<noteq> None"
    and "\<forall>p \<in> set pendings. pending_rename_evidence_bytes p \<noteq> None"
    and "(\<Sum>x \<leftarrow> outcomes. length (so_candidates x)) + length handoffs + length pendings \<le> records"
    and "(\<Sum>x \<leftarrow> outcomes. evidence_sum candidate_evidence_bytes (so_candidates x))
      + evidence_sum handoff_evidence_bytes handoffs
      + evidence_sum pending_rename_evidence_bytes pendings \<le> evidence"
proof -
  from assms obtain n1 e1 n2 e2 n3 e3 where
    f: "fold_result (\<lambda>c. count_shared (candidate_evidence_bytes c))
        (concat (map so_candidates outcomes)) (0, 0) = Inr (n1, e1)"
      "fold_result (\<lambda>h. count_shared (handoff_evidence_bytes h)) handoffs (n1, e1) = Inr (n2, e2)"
      "fold_result (\<lambda>p. count_shared (pending_rename_evidence_bytes p)) pendings (n2, e2) = Inr (n3, e3)"
    and le: "n3 \<le> records" "e3 \<le> evidence"
    by (auto simp: validate_shared_response_limits_def bind_result_eq_Inr not_less split: if_splits)
  note c = count_shared_fold [OF f(1)] count_shared_fold [OF f(2)] count_shared_fold [OF f(3)]
  from c show "\<forall>x \<in> set outcomes. \<forall>c \<in> set (so_candidates x). candidate_evidence_bytes c \<noteq> None"
    "\<forall>h \<in> set handoffs. handoff_evidence_bytes h \<noteq> None"
    "\<forall>p \<in> set pendings. pending_rename_evidence_bytes p \<noteq> None" by auto
  from c le show "(\<Sum>x \<leftarrow> outcomes. length (so_candidates x)) + length handoffs + length pendings \<le> records"
    by (simp add: length_concat comp_def)
  from c le show "(\<Sum>x \<leftarrow> outcomes. evidence_sum candidate_evidence_bytes (so_candidates x))
      + evidence_sum handoff_evidence_bytes handoffs
      + evidence_sum pending_rename_evidence_bytes pendings \<le> evidence"
    by (simp add: evidence_sum_concat comp_def)
qed

section \<open>The response\<close>

text \<open>Everything a volume read has gathered, before its limits are checked.\<close>

text \<open>
  The moves out of carried renames: each carried rename ends at most once, and where it ends names
  what was carried.
\<close>

definition carries_sound :: "read_journal_volume_request \<Rightarrow> shared_journal_handoff list \<Rightarrow> bool" where
  "carries_sound request handoffs \<longleftrightarrow> distinct (List.map_filter sh_previous_carry_id handoffs)
     \<and> (\<forall>h \<in> set handoffs. \<forall>c. sh_previous_carry_id h = Some c \<longrightarrow>
          (\<exists>p \<in> set (rv_pending_renames request). pr_carry_id p = c
             \<and> sh_previous_binding h = binding_from_request (rv_caller request) (pr_root p)
             \<and> sh_file_reference h = pr_file_reference p
             \<and> sh_previous_relative_path h = pr_previous_relative_path p
             \<and> sh_is_directory h = pr_is_directory p \<and> sint (pr_old_usn p) < sint (sh_usn h)))"

definition volume_sound ::
    "read_journal_volume_request \<Rightarrow> shared_journal_root_outcome list \<Rightarrow> shared_journal_handoff list
      \<Rightarrow> shared_journal_pending_rename list \<Rightarrow> bool" where
  "volume_sound request outcomes handoffs pendings \<longleftrightarrow>
     (let client = cc_client_instance (rv_caller request);
          volume = ra_volume_id (sr_root (hd (rv_roots request))) in
      length outcomes = length (rv_roots request)
      \<and> (\<forall>k < length (rv_roots request). outcome_for request k (outcomes ! k))
      \<and> length handoffs \<le> MAX_SHARED_HANDOFFS
      \<and> (\<forall>h \<in> set handoffs. wf_handoff h \<and> handoff_validate h client volume (rv_end_usn request) = Inr ()
           \<and> (\<forall>b \<in> set (handoff_endpoints h). endpoint_covered outcomes (sh_usn h) b))
      \<and> (\<forall>p \<in> set pendings. wf_pending p \<and> pending_rename_validate p client volume (rv_end_usn request) = Inr ()
           \<and> endpoint_covered outcomes (sp_old_usn p) (sp_binding p))
      \<and> carries_sound request handoffs)"

lemma root_outcome_validate_mono:
  "root_outcome_validate x e m = Inr () \<Longrightarrow> length (so_candidates x) \<le> n \<Longrightarrow> root_outcome_validate x e n = Inr ()"
  by (auto simp: root_outcome_validate_eq_Inr)

lemma sum_list_member: "x \<in> set xs \<Longrightarrow> f x \<le> (\<Sum>x \<leftarrow> xs. f x :: nat)"
  by (induction xs) auto

lemma volume_outcomes_bound:
  assumes "received (ReadVolume i request)" and "volume_sound request outcomes handoffs pendings"
  shows "distinct (map outcome_key outcomes)"
    and "x \<in> set outcomes \<Longrightarrow> rb_client_instance (so_binding x) = cc_client_instance (rv_caller request)
      \<and> rb_volume_id (so_binding x) = ra_volume_id (sr_root (hd (rv_roots request)))
      \<and> wf_outcome x \<and> root_outcome_validate x (rv_end_usn request) (length (so_candidates x)) = Inr ()"
proof -
  note v = received_volume(2) [OF assms(1), unfolded read_journal_volume_validate_eq_Inr]
  from assms(2) have len: "length outcomes = length (rv_roots request)"
    and out: "\<And>k. k < length (rv_roots request) \<Longrightarrow> outcome_for request k (outcomes ! k)"
    by (simp_all add: volume_sound_def Let_def)
  have "map outcome_key outcomes =
      map (\<lambda>s. (ra_root_id (sr_root s), ra_root_generation (sr_root s))) (rv_roots request)"
    using len out by (intro nth_equalityI) (simp_all add: outcome_for_def binding_from_request_def)
  with v show "distinct (map outcome_key outcomes)" by simp
  assume "x \<in> set outcomes"
  then obtain k where k: "k < length (rv_roots request)" "x = outcomes ! k"
    by (auto simp: in_set_conv_nth len)
  with out v received_volume(5) [OF assms(1) k(1)]
  show "rb_client_instance (so_binding x) = cc_client_instance (rv_caller request)
      \<and> rb_volume_id (so_binding x) = ra_volume_id (sr_root (hd (rv_roots request)))
      \<and> wf_outcome x \<and> root_outcome_validate x (rv_end_usn request) (length (so_candidates x)) = Inr ()"
    by (auto simp: outcome_for_def binding_from_request_def wf_outcome_def)
qed

definition volume_response_of ::
    "read_journal_volume_request \<Rightarrow> shared_journal_root_outcome list \<Rightarrow> shared_journal_handoff list
      \<Rightarrow> shared_journal_pending_rename list \<Rightarrow> read_volume_response" where
  "volume_response_of request outcomes handoffs pendings =
     \<lparr>vr_client_instance = cc_client_instance (rv_caller request),
      vr_volume_id = ra_volume_id (sr_root (hd (rv_roots request))),
      vr_journal_id = rv_journal_id request, vr_requested_end_usn = rv_end_usn request,
      vr_max_records = rv_max_records request,
      vr_max_evidence_bytes = rv_max_evidence_bytes request,
      vr_outcomes = outcomes, vr_handoffs = handoffs, vr_pending_renames = pendings\<rparr>"

lemma received_limits:
  assumes "received (ReadVolume i request)"
  shows "in_1_to MAX_RECORDS (rv_max_records request)"
    and "in_1_to MAX_EVIDENCE_BYTES (rv_max_evidence_bytes request)"
    and "rv_journal_id request \<noteq> 0" and "1 \<le> length (rv_roots request)"
    and "length (rv_roots request) \<le> MAX_SHARED_ROOTS"
    and "unat (rv_max_records request) \<le> 1024" and "unat (rv_max_evidence_bytes request) \<le> 524288"
proof -
  from received_volume(2) [OF assms] show l: "in_1_to MAX_RECORDS (rv_max_records request)"
    "in_1_to MAX_EVIDENCE_BYTES (rv_max_evidence_bytes request)"
    "rv_journal_id request \<noteq> 0" "1 \<le> length (rv_roots request)" "length (rv_roots request) \<le> MAX_SHARED_ROOTS"
    unfolding read_journal_volume_validate_eq_Inr by blast+
  from l(1,2) show "unat (rv_max_records request) \<le> 1024" "unat (rv_max_evidence_bytes request) \<le> 524288"
    by (simp_all add: in_1_to_def wire_limits word_le_nat_alt)
qed

section \<open>The specification of a volume response\<close>

definition volume_response_spec :: "read_volume_response \<Rightarrow> bool" where
  "volume_response_spec r \<longleftrightarrow>
     \<not> all_zero (vr_client_instance r) \<and> validate_identifier (vr_volume_id r) MAX_VOLUME_ID_BYTES = Inr ()
     \<and> vr_journal_id r \<noteq> 0 \<and> 0 \<le> sint (vr_requested_end_usn r)
     \<and> in_1_to MAX_RECORDS (vr_max_records r) \<and> in_1_to MAX_EVIDENCE_BYTES (vr_max_evidence_bytes r)
     \<and> 1 \<le> length (vr_outcomes r) \<and> length (vr_outcomes r) \<le> MAX_SHARED_ROOTS
     \<and> length (vr_handoffs r) \<le> MAX_SHARED_HANDOFFS
     \<and> length (vr_pending_renames r) \<le> MAX_SHARED_PENDING_RENAMES
     \<and> distinct (map outcome_key (vr_outcomes r))
     \<and> (\<forall>x \<in> set (vr_outcomes r).
          root_outcome_validate x (vr_requested_end_usn r) (unat (vr_max_records r)) = Inr ()
          \<and> rb_client_instance (so_binding x) = vr_client_instance r \<and> rb_volume_id (so_binding x) = vr_volume_id r
          \<and> (\<forall>c \<in> set (so_candidates x). candidate_evidence_bytes c \<noteq> None))
     \<and> (\<forall>h \<in> set (vr_handoffs r).
          handoff_validate h (vr_client_instance r) (vr_volume_id r) (vr_requested_end_usn r) = Inr ()
          \<and> (\<forall>b \<in> set (handoff_endpoints h). endpoint_covered (vr_outcomes r) (sh_usn h) b)
          \<and> handoff_evidence_bytes h \<noteq> None)
     \<and> (\<forall>p \<in> set (vr_pending_renames r).
          pending_rename_validate p (vr_client_instance r) (vr_volume_id r) (vr_requested_end_usn r) = Inr ()
          \<and> endpoint_covered (vr_outcomes r) (sp_old_usn p) (sp_binding p)
          \<and> pending_rename_evidence_bytes p \<noteq> None)
     \<and> response_records r \<le> unat (vr_max_records r) \<and> response_evidence r \<le> unat (vr_max_evidence_bytes r)"

lemma volume_response_folds:
  assumes "volume_response_spec r"
  shows "\<exists>B t0 t1 t2. fold_result (validate_outcome_step r) (vr_outcomes r)
        ({}, \<lparr>tt_records = 0, tt_evidence = 0\<rparr>) = Inr (B, t0)
      \<and> fold_result (validate_handoff_step r) (vr_handoffs r) t0 = Inr t1
      \<and> fold_result (validate_pending_step r) (vr_pending_renames r) t1 = Inr t2
      \<and> tt_records t2 \<le> unat (vr_max_records r) \<and> tt_evidence t2 \<le> unat (vr_max_evidence_bytes r)"
proof -
  note spec = assms [unfolded volume_response_spec_def]
  from spec have keys: "distinct (map outcome_key (vr_outcomes r))" by blast
  from spec have lim: "response_records r \<le> unat (vr_max_records r)"
      "response_evidence r \<le> unat (vr_max_evidence_bytes r)" by blast+
  have big: "unat (vr_max_records r) \<le> 1024" "unat (vr_max_evidence_bytes r) \<le> 524288"
    using spec by (simp_all add: in_1_to_def wire_limits word_le_nat_alt)
  obtain B t0 where f0: "fold_result (validate_outcome_step r) (vr_outcomes r)
      ({}, \<lparr>tt_records = 0, tt_evidence = 0\<rparr>) = Inr (B, t0)"
    using validate_outcomes_ok [OF _ keys, of r "{}" "\<lparr>tt_records = 0, tt_evidence = 0\<rparr>"] spec lim big
    unfolding response_records_def response_evidence_def by fastforce
  have t0: "tt_records t0 = (\<Sum>x \<leftarrow> vr_outcomes r. length (so_candidates x))"
    "tt_evidence t0 = (\<Sum>x \<leftarrow> vr_outcomes r. evidence_sum candidate_evidence_bytes (so_candidates x))"
    using validate_outcomes_fold [OF f0] by simp_all
  from spec obtain t1 where f1: "fold_result (validate_handoff_step r) (vr_handoffs r) t0 = Inr t1"
    using validate_handoffs_ok [of "vr_handoffs r" r t0] t0 lim big
    unfolding response_records_def response_evidence_def by fastforce
  have t1: "tt_records t1 = tt_records t0 + length (vr_handoffs r)"
    "tt_evidence t1 = tt_evidence t0 + evidence_sum handoff_evidence_bytes (vr_handoffs r)"
    using validate_handoffs_fold [OF f1] by simp_all
  from spec obtain t2 where f2: "fold_result (validate_pending_step r) (vr_pending_renames r) t1 = Inr t2"
    using validate_pendings_ok [of "vr_pending_renames r" r t1] t0 t1 lim big
    unfolding response_records_def response_evidence_def by fastforce
  have "tt_records t2 \<le> unat (vr_max_records r)" "tt_evidence t2 \<le> unat (vr_max_evidence_bytes r)"
    using validate_pendings_fold [OF f2] lim t0 t1 by (simp_all add: response_records_def response_evidence_def)
  with f0 f1 f2 show ?thesis by blast
qed

lemma validate_read_volume_response_iff:
  "validate_read_volume_response r = Inr () \<longleftrightarrow> volume_response_spec r"
proof
  assume v: "validate_read_volume_response r = Inr ()"
  then have "vr_journal_id r \<noteq> 0" "0 \<le> sint (vr_requested_end_usn r)"
    by (auto simp: validate_read_volume_response_def split: if_splits)
  with validate_read_volume_response_InrD [OF v] show "volume_response_spec r"
    unfolding volume_response_spec_def by blast
next
  assume spec: "volume_response_spec r"
  from volume_response_folds [OF this] spec show "validate_read_volume_response r = Inr ()"
    by (auto simp: validate_read_volume_response_def volume_response_spec_def validate_identifier_for_codec_eq)
qed

lemma volume_response_parts:
  assumes "received (ReadVolume i request)" and "volume_sound request outcomes handoffs pendings"
    and "validate_shared_response_limits outcomes handoffs pendings (unat (rv_max_records request))
      (unat (rv_max_evidence_bytes request)) = Inr ()"
  defines "r \<equiv> volume_response_of request outcomes handoffs pendings"
  shows "distinct (map outcome_key outcomes)"
    and "\<forall>x \<in> set outcomes.
          root_outcome_validate x (vr_requested_end_usn r) (unat (vr_max_records r)) = Inr ()
          \<and> rb_client_instance (so_binding x) = vr_client_instance r \<and> rb_volume_id (so_binding x) = vr_volume_id r
          \<and> (\<forall>c \<in> set (so_candidates x). candidate_evidence_bytes c \<noteq> None)"
    and "\<forall>h \<in> set handoffs. handoff_validate h (vr_client_instance r) (vr_volume_id r) (vr_requested_end_usn r) = Inr ()
          \<and> (\<forall>b \<in> set (handoff_endpoints h). endpoint_covered outcomes (sh_usn h) b)
          \<and> handoff_evidence_bytes h \<noteq> None"
    and "\<forall>p \<in> set pendings.
          pending_rename_validate p (vr_client_instance r) (vr_volume_id r) (vr_requested_end_usn r) = Inr ()
          \<and> endpoint_covered outcomes (sp_old_usn p) (sp_binding p)
          \<and> pending_rename_evidence_bytes p \<noteq> None"
    and "response_records r \<le> unat (vr_max_records r)" and "response_evidence r \<le> unat (vr_max_evidence_bytes r)"
proof -
  note lim = validate_shared_response_limits_InrD [OF assms(3)]
  note out = volume_outcomes_bound [OF assms(1,2)]
  have fields: "vr_requested_end_usn r = rv_end_usn request" "vr_max_records r = rv_max_records request"
    "vr_max_evidence_bytes r = rv_max_evidence_bytes request"
    "vr_client_instance r = cc_client_instance (rv_caller request)"
    "vr_volume_id r = ra_volume_id (sr_root (hd (rv_roots request)))"
    by (simp_all add: r_def volume_response_of_def)
  show "distinct (map outcome_key outcomes)" by (rule out(1))
  have "root_outcome_validate x (rv_end_usn request) (unat (rv_max_records request)) = Inr ()" if "x \<in> set outcomes" for x
  proof -
    have "length (so_candidates x) \<le> unat (rv_max_records request)"
      using sum_list_member [OF that, of "\<lambda>x. length (so_candidates x)"] lim(4) by linarith
    with out(2) [OF that] show ?thesis by (auto intro: root_outcome_validate_mono)
  qed
  with out(2) lim(1) show "\<forall>x \<in> set outcomes.
      root_outcome_validate x (vr_requested_end_usn r) (unat (vr_max_records r)) = Inr ()
      \<and> rb_client_instance (so_binding x) = vr_client_instance r \<and> rb_volume_id (so_binding x) = vr_volume_id r
      \<and> (\<forall>c \<in> set (so_candidates x). candidate_evidence_bytes c \<noteq> None)"
    unfolding fields by blast
  show "\<forall>h \<in> set handoffs. handoff_validate h (vr_client_instance r) (vr_volume_id r) (vr_requested_end_usn r) = Inr ()
      \<and> (\<forall>b \<in> set (handoff_endpoints h). endpoint_covered outcomes (sh_usn h) b)
      \<and> handoff_evidence_bytes h \<noteq> None"
    using assms(2) lim(2) unfolding fields volume_sound_def Let_def by blast
  show "\<forall>p \<in> set pendings.
      pending_rename_validate p (vr_client_instance r) (vr_volume_id r) (vr_requested_end_usn r) = Inr ()
      \<and> endpoint_covered outcomes (sp_old_usn p) (sp_binding p) \<and> pending_rename_evidence_bytes p \<noteq> None"
    using assms(2) lim(3) unfolding fields volume_sound_def Let_def by blast
  show "response_records r \<le> unat (vr_max_records r)" "response_evidence r \<le> unat (vr_max_evidence_bytes r)"
    using lim(4,5) unfolding fields
    by (simp_all add: response_records_def response_evidence_def r_def volume_response_of_def)
qed

lemma volume_response_valid:
  assumes "received (ReadVolume i request)" and "volume_sound request outcomes handoffs pendings"
    and "validate_shared_response_limits outcomes handoffs pendings (unat (rv_max_records request))
      (unat (rv_max_evidence_bytes request)) = Inr ()"
  shows "wf_response (ReadVolumeResponse i (volume_response_of request outcomes handoffs pendings))
    \<and> validate_response (ReadVolumeResponse i (volume_response_of request outcomes handoffs pendings)) = Inr ()"
proof -
  let ?r = "volume_response_of request outcomes handoffs pendings"
  obtain root rest where roots: "rv_roots request = root # rest" using received_limits(4) [OF assms(1)]
    by (cases "rv_roots request") auto
  then have root: "validate_identifier (ra_volume_id (sr_root root)) MAX_VOLUME_ID_BYTES = Inr ()"
      "utf8_valid (ra_volume_id (sr_root root))" "0 \<le> sint (rv_end_usn request)"
    using received_volume(5,6) [OF assms(1), of 0]
    by (auto simp: wf_binding_def binding_from_request_def response_binding_validate_eq_Inr
        read_interval_new_def split: if_splits)
  note caller = accepted_caller [OF received_volume(3,4) [OF assms(1)]]
  have sound: "length outcomes = length (rv_roots request)" "length handoffs \<le> MAX_SHARED_HANDOFFS"
    "list_all wf_handoff handoffs" "list_all wf_pending pendings"
    using assms(2) by (simp_all add: volume_sound_def Let_def list_all_iff)
  have few: "length pendings \<le> MAX_SHARED_PENDING_RENAMES"
    using validate_shared_response_limits_InrD(4) [OF assms(3)] received_limits(6) [OF assms(1)]
    by (simp add: wire_limits)
  have "wf_response (ReadVolumeResponse i ?r)"
    using volume_outcomes_bound(2) [OF assms(1,2)] sound caller root roots
    by (simp add: volume_response_of_def list_all_iff)
  moreover have "volume_response_spec ?r"
    using volume_response_parts [OF assms] sound(1,2) few received_limits(1-5) [OF assms(1)] root roots caller
    by (simp add: volume_response_spec_def volume_response_of_def)
  ultimately show ?thesis
    using received_volume(1) [OF assms(1)] by (simp add: validate_response_def validate_read_volume_response_iff)
qed

section \<open>Properties\<close>

text \<open>
  C18. The validator of volume responses, a sequence of folds with running totals and early exits, is
  exactly the specification of a volume response: identity and limits within the protocol, between
  one and eight roots, none twice, every outcome valid, every move and pending rename valid and
  within what its endpoints cover, and records and evidence within the limits of the response.
\<close>

theorem volume_response_validator_exact:
  "validate_read_volume_response r = Inr () \<longleftrightarrow> volume_response_spec r"
  by (rule validate_read_volume_response_iff)

end
