(* ===== verification/Volume_Barriers.thy ===== *)
theory Volume_Barriers
  imports Volume_Response
begin

text \<open>
  The barrier of a volume read: a USN below which everything in the response can be relied on. It
  is the lowest rename barrier of the roots that failed and the lowest position a translation could
  not go beyond; the outcomes of the other roots are cut there.
\<close>

section \<open>Barriers\<close>

lemma cut_outcomes_nth:
  assumes "cut_outcomes request b failed xs outcomes = Inr outcomes'"
    and "distinct (map (fst \<circ> snd) xs)" and "\<forall>x \<in> set xs. fst (snd x) < length outcomes"
  shows "length outcomes' = length outcomes
    \<and> (\<forall>k < length outcomes. outcomes' ! k =
         (if \<exists>a root. (a, k, root) \<in> set xs \<and> a \<notin> set failed
          then map_option (cut_outcome request (requested_root request k) b) (outcomes ! k)
          else outcomes ! k))"
  using assms
proof (induction xs arbitrary: outcomes)
  case (Cons x xs)
  obtain a k root where x: "x = (a, k, root)" by (metis prod_cases3)
  have fresh: "k \<noteq> j" if "(c, j, r) \<in> set xs" for c j r
    using Cons.prems(2) that by (force simp: x)
  show ?case
  proof (cases "a \<in> set failed")
    case True
    with Cons.prems x have "cut_outcomes request b failed xs outcomes = Inr outcomes'" by simp
    from Cons.IH [OF this] Cons.prems(2,3) True show ?thesis by (simp add: x) blast
  next
    case False
    with Cons.prems(1) x obtain out where out: "outcomes ! k = Some out"
      and rest: "cut_outcomes request b failed xs (outcomes[k := Some (cut_outcome request (requested_root request k) b out)])
        = Inr outcomes'"
      by (auto split: option.splits)
    from Cons.IH [OF rest] Cons.prems(2,3) have IH: "length outcomes' = length outcomes"
      "\<And>j. j < length outcomes \<Longrightarrow> outcomes' ! j =
         (if \<exists>a root. (a, j, root) \<in> set xs \<and> a \<notin> set failed
          then map_option (cut_outcome request (requested_root request j) b)
            (outcomes[k := Some (cut_outcome request (requested_root request k) b out)] ! j)
          else outcomes[k := Some (cut_outcome request (requested_root request k) b out)] ! j)"
      by auto
    have "outcomes' ! j =
         (if \<exists>a root. (a, j, root) \<in> set (x # xs) \<and> a \<notin> set failed
          then map_option (cut_outcome request (requested_root request j) b) (outcomes ! j)
          else outcomes ! j)" if "j < length outcomes" for j
      using IH(2) [OF that] fresh out False that by (cases "j = k") (auto simp: x)
    with IH(1) show ?thesis by blast
  qed
qed simp

lemma failed_root_barrier_le:
  assumes "a \<in> set failed" and "barriers ! a = Some b'"
  shows "\<exists>b. failed_root_barrier barriers failed = Some b \<and> sint b \<le> sint b'"
proof -
  have "b' \<in> set (List.map_filter (\<lambda>index. barriers ! index) failed)"
    using assms by (force simp: map_filter_def)
  moreover from this have "List.map_filter (\<lambda>index. barriers ! index) failed \<noteq> []" by (metis empty_iff list.set(1))
  ultimately show ?thesis
    using minimum_usn_eq_Some unfolding failed_root_barrier_def by blast
qed

lemma failed_root_barrier_mem:
  assumes "failed_root_barrier barriers failed = Some b"
  shows "\<exists>a \<in> set failed. barriers ! a = Some b"
proof -
  let ?us = "List.map_filter (\<lambda>index. barriers ! index) failed"
  have "?us \<noteq> []" using assms by (auto simp: failed_root_barrier_def)
  from minimum_usn_eq_Some [OF this] assms have "b \<in> set ?us" by (auto simp: failed_root_barrier_def)
  then show ?thesis by (auto simp: map_filter_def)
qed

lemma min_barrier_le:
  "left = Some b' \<Longrightarrow> \<exists>b. min_barrier left right = Some b \<and> sint b \<le> sint b'"
  by (cases right) (auto simp: min_usn_def)

lemma min_barrier_ok:
  assumes "\<And>b. left = Some b \<Longrightarrow> barrier_ok request b" and "\<And>b. right = Some b \<Longrightarrow> barrier_ok request b"
    and "min_barrier left right = Some b"
  shows "barrier_ok request b"
  using assms by (cases left; cases right) (auto simp: min_usn_barrier)

abbreviation root_binding ::
    "read_journal_volume_request \<Rightarrow> (nat \<times> authorized_pinned_root) list \<Rightarrow> nat \<Rightarrow> response_binding" where
  "root_binding request admitted a \<equiv>
     binding_from_request (rv_caller request) (sr_root (requested_root request (fst (admitted ! a))))"

text \<open>What is left of the outcomes below a barrier, and what they still cover.\<close>

definition cut_sound ::
    "read_journal_volume_request \<Rightarrow> (nat \<times> authorized_pinned_root) list \<Rightarrow> journal_read_proof option \<Rightarrow> nat list
      \<Rightarrow> i64 option \<Rightarrow> shared_journal_root_outcome list \<Rightarrow> bool" where
  "cut_sound request admitted pf failed barrier outcomes \<longleftrightarrow>
     length outcomes = length (rv_roots request)
     \<and> (\<forall>k < length (rv_roots request). outcome_for request k (outcomes ! k))
     \<and> (\<forall>a < length admitted. a \<notin> set failed \<longrightarrow> (\<forall>p u. pf = Some p
          \<longrightarrow> sint (sr_start_usn (requested_root request (fst (admitted ! a)))) \<le> sint u
          \<longrightarrow> sint u < sint (jp_covered_until_usn p) \<longrightarrow> (\<forall>b. barrier = Some b \<longrightarrow> sint u < sint b)
          \<longrightarrow> endpoint_covered outcomes u (root_binding request admitted a)))"

lemma concluded_nth:
  assumes "concluded request admitted pf {..<length admitted} vp" and "k < length (rv_roots request)"
  obtains x where "vp_outcomes vp ! k = Some x" "outcome_for request k x"
    "\<And>a. a < length admitted \<Longrightarrow> fst (admitted ! a) = k \<Longrightarrow> a \<notin> set (vp_failed vp) \<Longrightarrow>
       so_failure x = None \<and> so_covered_until_usn x = map_option jp_covered_until_usn pf"
proof (cases "k \<in> fst ` set admitted")
  case False
  moreover have "fst (admitted ! a) \<in> fst ` set admitted" if "a < length admitted" for a using that by simp
  ultimately show ?thesis using assms that unfolding concluded_def by metis
next
  case True
  then obtain a where a: "a < length admitted" "fst (admitted ! a) = k" by (auto simp: in_set_conv_nth)
  then obtain x where x: "vp_outcomes vp ! k = Some x" "outcome_for request k x"
    using assms(1) unfolding concluded_def by blast
  have "so_failure x = None \<and> so_covered_until_usn x = map_option jp_covered_until_usn pf"
    if "b < length admitted" "fst (admitted ! b) = k" "b \<notin> set (vp_failed vp)" for b
    using assms(1) that x(1) unfolding concluded_def by fastforce
  with x show ?thesis by (rule that)
qed

lemma outcome_endpoint:
  assumes "outcome_for request k x" and "x \<in> set outcomes" and "so_failure x = None"
    and "so_covered_until_usn x = Some c" and "sint (sr_start_usn (requested_root request k)) \<le> sint u"
    and "sint u < sint c"
  shows "endpoint_covered outcomes u (binding_from_request (rv_caller request) (sr_root (requested_root request k)))"
  unfolding endpoint_covered_def
  by (rule bexI [OF _ assms(2)]) (use assms in \<open>simp add: outcome_for_def same_endpoint_def\<close>)

lemma uncut_sound:
  assumes "admitted_ok request admitted" and "concluded request admitted pf {..<length admitted} vp"
    and "vp_outcomes vp = map Some outcomes"
  shows "cut_sound request admitted pf (vp_failed vp) None outcomes"
proof -
  have len: "length outcomes = length (rv_roots request)"
    using assms(2,3) by (simp add: concluded_def)
  have nth: "vp_outcomes vp ! k = Some (outcomes ! k)" if "k < length (rv_roots request)" for k
    using that len by (simp add: assms(3))
  have out: "outcome_for request k (outcomes ! k)" if "k < length (rv_roots request)" for k
    using concluded_nth [OF assms(2) that] nth [OF that] by (metis option.inject)
  have "endpoint_covered outcomes u (root_binding request admitted a)"
    if "a < length admitted" "a \<notin> set (vp_failed vp)" "pf = Some p"
      "sint (sr_start_usn (requested_root request (fst (admitted ! a)))) \<le> sint u"
      "sint u < sint (jp_covered_until_usn p)" for a p u
  proof -
    let ?k = "fst (admitted ! a)"
    have k: "?k < length (rv_roots request)" using assms(1) that(1) by (simp add: admitted_ok_def)
    from concluded_nth [OF assms(2) k] nth [OF k] that(1-3)
    have "so_failure (outcomes ! ?k) = None" "so_covered_until_usn (outcomes ! ?k) = Some (jp_covered_until_usn p)"
      by (metis option.inject option.simps(9))+
    with out [OF k] k len that(4,5) show ?thesis by (intro outcome_endpoint) simp_all
  qed
  with len out show ?thesis by (simp add: cut_sound_def)
qed

lemma cut_outcome_covers:
  assumes "so_failure x = None" and "so_covered_until_usn x = Some c" and "sint u < sint c"
    and "sint (sr_start_usn requested) \<le> sint u" and "sint u < sint b"
  shows "\<exists>d. so_failure (cut_outcome request requested b x) = None
    \<and> so_covered_until_usn (cut_outcome request requested b x) = Some d \<and> sint u < sint d"
  using assms by (auto simp: cut_outcome_def min_usn_def)

lemma in_enumerate_admitted:
  "(\<exists>a root. (a, k, root) \<in> set (enumerate 0 admitted) \<and> a \<notin> set failed)
    \<longleftrightarrow> (\<exists>a < length admitted. fst (admitted ! a) = k \<and> a \<notin> set failed)"
proof -
  have "(a, k, root) \<in> set (enumerate 0 admitted) \<longleftrightarrow> a < length admitted \<and> admitted ! a = (k, root)" for a root
    by (auto simp: in_set_enumerate_eq)
  moreover have "(\<exists>root. admitted ! a = (k, root)) \<longleftrightarrow> fst (admitted ! a) = k" for a
    by (cases "admitted ! a") auto
  ultimately show ?thesis by auto
qed

lemma cut_outcomes_sound:
  assumes "received (ReadVolume i request)" and "admitted_ok request admitted"
    and "concluded request admitted pf {..<length admitted} vp" and "barrier_ok request b"
    and "cut_outcomes request b (vp_failed vp) (enumerate 0 admitted) (vp_outcomes vp) = Inr (map Some outcomes)"
  shows "cut_sound request admitted pf (vp_failed vp) (Some b) outcomes"
proof -
  let ?live = "\<lambda>k. \<exists>a < length admitted. fst (admitted ! a) = k \<and> a \<notin> set (vp_failed vp)"
  have len0: "length (vp_outcomes vp) = length (rv_roots request)" using assms(3) by (simp add: concluded_def)
  have "map (fst \<circ> snd) (enumerate 0 admitted) = map fst admitted"
    by (simp flip: map_map)
  then have dist: "distinct (map (fst \<circ> snd) (enumerate 0 admitted))" using assms(2) by (simp add: admitted_ok_def)
  have "\<forall>x \<in> set (enumerate 0 admitted). fst (snd x) < length (vp_outcomes vp)"
    using assms(2) by (auto simp: admitted_ok_def len0 in_set_enumerate_eq)
  note cut = cut_outcomes_nth [OF assms(5) dist this, unfolded in_enumerate_admitted len0]
  have len: "length outcomes = length (rv_roots request)" using cut by simp
  have nth: "Some (outcomes ! k) = (if ?live k
      then map_option (cut_outcome request (requested_root request k) b) (vp_outcomes vp ! k)
      else vp_outcomes vp ! k)" if "k < length (rv_roots request)" for k
    using cut that len by simp
  have out: "outcome_for request k (outcomes ! k)" if k: "k < length (rv_roots request)" for k
    using concluded_nth [OF assms(3) k]
  proof cases
    case (1 x)
    then show ?thesis
      using nth [OF k] cut_outcome_for [OF assms(1) k 1(2) _ assms(4)] by (auto split: if_splits)
  qed
  have "endpoint_covered outcomes u (root_binding request admitted a)"
    if a: "a < length admitted" "a \<notin> set (vp_failed vp)" "pf = Some p"
      "sint (sr_start_usn (requested_root request (fst (admitted ! a)))) \<le> sint u"
      "sint u < sint (jp_covered_until_usn p)" "sint u < sint b" for a p u
  proof -
    let ?k = "fst (admitted ! a)"
    have k: "?k < length (rv_roots request)" using assms(2) a(1) by (simp add: admitted_ok_def)
    obtain x where x: "vp_outcomes vp ! ?k = Some x" "so_failure x = None"
      "so_covered_until_usn x = Some (jp_covered_until_usn p)"
      using concluded_nth [OF assms(3) k] a(1-3) by (metis option.simps(9))
    have "outcomes ! ?k = cut_outcome request (requested_root request ?k) b x"
      using nth [OF k] a(1,2) x(1) by (auto split: if_splits)
    then obtain d where "so_failure (outcomes ! ?k) = None" "so_covered_until_usn (outcomes ! ?k) = Some d"
      "sint u < sint d" using cut_outcome_covers [OF x(2,3) a(5,4,6)] by metis
    with out [OF k] k len a(4) show ?thesis by (intro outcome_endpoint) simp_all
  qed
  with len out show ?thesis by (simp add: cut_sound_def)
qed

end
