(* ===== verification/Volume_Read.thy ===== *)
theory Volume_Read
  imports Volume_Barriers
begin

text \<open>
  A volume read from its request to its response (\<open>execute_read_volume\<close> of
  \<open>journal_broker/service.rs\<close>): the response passes the protocol's own validation.
\<close>

section \<open>What the backend promises\<close>

text \<open>The barrier a page reports for an admitted root lies at or before a USN.\<close>

definition barrier_before :: "shared_backend_journal_page \<Rightarrow> nat \<Rightarrow> i64 \<Rightarrow> bool" where
  "barrier_before page a u \<longleftrightarrow> a < length (sj_rename_barriers_by_root page)
     \<longrightarrow> (\<exists>b. sj_rename_barriers_by_root page ! a = Some b \<and> sint b \<le> sint u)"

text \<open>
  Every move of a page lies at or after the barriers of its roots, every pending rename at or after
  the barrier of its root, and a carried rename that ends in the root it was carried for is not a
  move between roots.
\<close>

definition barriers_cover ::
    "backend_pending_rename_carry list \<Rightarrow> shared_backend_journal_page \<Rightarrow> bool" where
  "barriers_cover carries page \<longleftrightarrow>
     (\<forall>h \<in> set (sj_handoffs page). barrier_before page (bh_current_root_index h) (bh_usn h)
        \<and> (\<forall>a. bh_previous_root_index h = Some a \<longrightarrow> barrier_before page a (bh_old_usn h))
        \<and> (\<forall>j < length carries. bh_previous_pending_index h = Some j
             \<longrightarrow> cr_read_root_index (carries ! j) \<noteq> Some (bh_current_root_index h)))
     \<and> distinct (List.map_filter bh_previous_pending_index (sj_handoffs page))
     \<and> (\<forall>p \<in> set (sj_pending_renames page). barrier_before page (bn_root_index p) (bn_old_usn p))"

definition reports_barriers :: "'x broker_host \<Rightarrow> bool" where
  "reports_barriers host \<longleftrightarrow> (\<forall>request ctx w w' page.
     ht_read_existing_journal_volume_page host request ctx w = (w', Inr page)
       \<longrightarrow> barriers_cover (ev_pending_renames request) page)"

text \<open>A request that carries a rename of one of its roots declares that root as it does itself.\<close>

definition consistent_roots :: "read_journal_volume_request \<Rightarrow> bool" where
  "consistent_roots request \<longleftrightarrow> (\<forall>p \<in> set (rv_pending_renames request). \<forall>s \<in> set (rv_roots request).
     ra_root_id (pr_root p) = ra_root_id (sr_root s)
       \<longrightarrow> ra_root_generation (pr_root p) = ra_root_generation (sr_root s) \<longrightarrow> pr_root p = sr_root s)"

section \<open>Carried renames\<close>

lemma position_Cons:
  "position P (x # xs) = (if P x then Some 0 else map_option Suc (position P xs))"
  by (simp add: position_def)

lemma position_eq_Some: "position P xs = Some a \<Longrightarrow> a < length xs \<and> P (xs ! a)"
proof (induction xs arbitrary: a)
  case Nil
  then show ?case by (simp add: position_def)
qed (auto simp: position_Cons split: if_splits)

lemma position_eq_None: "position P xs = None \<longleftrightarrow> (\<forall>x \<in> set xs. \<not> P x)"
  by (auto simp: position_def list_ex_iff)

definition declared_index ::
    "read_journal_volume_request \<Rightarrow> (nat \<times> authorized_pinned_root) list \<Rightarrow> pending_rename_request \<Rightarrow> nat option" where
  "declared_index request admitted pending =
     position (\<lambda>(request_index, _). sr_root (rv_roots request ! request_index) = pr_root pending) admitted"

definition carried_ok ::
    "read_journal_volume_request \<Rightarrow> (nat \<times> authorized_pinned_root) list \<Rightarrow> pending_rename_request list
      \<Rightarrow> carried_renames \<Rightarrow> bool" where
  "carried_ok request admitted pendings cd \<longleftrightarrow>
     map cr_read_root_index (cd_carries cd) = map (declared_index request admitted) pendings
     \<and> (\<forall>f \<in> set (cd_failures cd). fst f < length admitted)"

lemma carry_root_failures:
  assumes "carry_root host caller ctx pending index cd s = (s', Inr (root, cd'))"
  shows "cd_carries cd' = cd_carries cd
    \<and> (\<forall>f \<in> set (cd_failures cd'). f \<in> set (cd_failures cd) \<or> index = Some (fst f))"
proof (cases "pr_root_capability pending")
  case None
  with assms show ?thesis by (simp add: carry_root_def stateful_eq_Inr)
next
  case (Some capability)
  obtain w authorized where a: "ht_authorize_registered_root host caller (pr_root pending) capability ctx s
      = (w, authorized)" by fastforce
  have failure: "cd_carries (carry_failure index code cd) = cd_carries cd
      \<and> (\<forall>f \<in> set (cd_failures (carry_failure index code cd)). f \<in> set (cd_failures cd) \<or> index = Some (fst f))"
    for code by (cases index) (auto simp: carry_failure_def)
  consider "cd' = cd" | code where "cd' = carry_failure index code cd"
    using assms Some a
    by (cases authorized; cases "validate_authorized_root_facts (ht_compare host) caller (pr_root pending)
        (projr authorized)")
      (auto simp: carry_root_def bind_stateful_def catch_stateful_def return_stateful_def)
  then show ?thesis by cases (use failure in simp_all)
qed

lemma carry_step_ok:
  assumes "carried_ok request admitted pre cd"
    and "carry_step host caller request admitted ctx pending cd s = (s', Inr cd')"
  shows "carried_ok request admitted (pre @ [pending]) cd'"
proof -
  from assms(2) obtain root cd1 where
    step: "carry_root host caller ctx pending (declared_index request admitted pending) cd s = (s', Inr (root, cd1))"
    and cd': "cd_carries cd' = cd_carries cd1 @ [\<lparr>cr_root = root,
        cr_read_root_index = declared_index request admitted pending,
        cr_file_reference = pr_file_reference pending, cr_old_usn = pr_old_usn pending,
        cr_previous_relative_path = pr_previous_relative_path pending,
        cr_is_directory = pr_is_directory pending\<rparr>]" "cd_failures cd' = cd_failures cd1"
    by (auto simp: carry_step_def Let_def bind_stateful_eq_Inr stateful_eq_Inr declared_index_def)
  have "a < length admitted" if "declared_index request admitted pending = Some a" for a
    using position_eq_Some that unfolding declared_index_def by blast
  with carry_root_failures [OF step] assms(1) cd' show ?thesis by (auto simp: carried_ok_def)
qed

lemma carry_loop_ok:
  assumes "fold_stateful (carry_step host caller request admitted ctx) (rv_pending_renames request)
      \<lparr>cd_carries = [], cd_failures = []\<rparr> s = (s', Inr cd)"
  shows "carried_ok request admitted (rv_pending_renames request) cd"
  using assms
proof (rule fold_stateful_all)
  show "carried_ok request admitted [] \<lparr>cd_carries = [], cd_failures = []\<rparr>" by (simp add: carried_ok_def)
qed (rule carry_step_ok)

lemma carried_index:
  assumes "carried_ok request admitted pendings cd"
  shows "\<forall>c \<in> set (cd_carries cd). \<forall>a. cr_read_root_index c = Some a \<longrightarrow> a < length admitted"
proof (intro ballI allI impI)
  fix c a
  assume "c \<in> set (cd_carries cd)" "cr_read_root_index c = Some a"
  then have "Some a \<in> set (map (declared_index request admitted) pendings)"
    using assms unfolding carried_ok_def by (metis image_eqI list.set_map)
  then obtain p where "declared_index request admitted p = Some a" by auto
  then show "a < length admitted" unfolding declared_index_def using position_eq_Some by blast
qed

section \<open>Valid pages\<close>

lemma valid_page:
  assumes "validate_shared_backend_page before bounds page n = Inr ()"
  shows "length (sj_candidates_by_root page) = n" and "length (sj_rename_barriers_by_root page) = n"
    and "a < n \<Longrightarrow> sj_rename_barriers_by_root page ! a = Some b \<Longrightarrow> sint b < sint (jg_end_usn bounds)"
    and "length (sj_handoffs page) \<le> MAX_SHARED_HANDOFFS"
    and "r \<in> set (sj_candidates_by_root page) \<Longrightarrow> r = Inr cs \<Longrightarrow>
      \<not> invalid_backend_candidates bounds (sj_proof page) None cs"
    and "h \<in> set (sj_handoffs page) \<Longrightarrow> bh_previous_root_index h \<noteq> Some (bh_current_root_index h)"
    and "sj_proof page = Some p \<Longrightarrow> sint (jp_covered_until_usn p) \<le> sint (jg_end_usn bounds)"
proof -
  from assms have ok: "\<not> invalid_backend_page bounds page n"
    by (auto simp: validate_shared_backend_page_def bind_result_eq_Inr split: if_splits)
  then show len: "length (sj_candidates_by_root page) = n" "length (sj_rename_barriers_by_root page) = n"
    "length (sj_handoffs page) \<le> MAX_SHARED_HANDOFFS"
    by (simp_all add: invalid_backend_page_def)
  show "sint b < sint (jg_end_usn bounds)" if "a < n" "sj_rename_barriers_by_root page ! a = Some b"
    using ok that len(2) nth_mem [of a "sj_rename_barriers_by_root page"]
    unfolding invalid_backend_page_def list_ex_iff by fastforce
  show "\<not> invalid_backend_candidates bounds (sj_proof page) None cs"
    if "r \<in> set (sj_candidates_by_root page)" "r = Inr cs"
    using ok that unfolding invalid_backend_page_def list_ex_iff by fastforce
  show "bh_previous_root_index h \<noteq> Some (bh_current_root_index h)" if "h \<in> set (sj_handoffs page)"
    using ok that unfolding invalid_backend_page_def list_ex_iff invalid_backend_handoff_def by blast
  show "sint (jp_covered_until_usn p) \<le> sint (jg_end_usn bounds)" if "sj_proof page = Some p"
    using assms that
    by (auto simp: validate_shared_backend_page_def bind_result_eq_Inr ok_or_eq_Inr admits_coverage_def
        read_interval_new_def split: if_splits)
qed

section \<open>The conclusion of a page\<close>

text \<open>Moves and pending renames of a response, traced to the page they came from.\<close>

definition traced ::
    "read_journal_volume_request \<Rightarrow> (nat \<times> authorized_pinned_root) list \<Rightarrow> backend_pending_rename_carry list
      \<Rightarrow> shared_backend_journal_page \<Rightarrow> shared_journal_handoff list \<Rightarrow> shared_journal_pending_rename list \<Rightarrow> bool" where
  "traced request admitted carries page handoffs pendings \<longleftrightarrow>
     (\<exists>gs. subseq gs (sj_handoffs page) \<and> list_all2 (\<lambda>h t. \<exists>p. sj_proof page = Some p
          \<and> moved_from request admitted carries (jp_covered_until_usn p) h t) gs handoffs)
     \<and> (\<forall>q \<in> set pendings. \<exists>p. sj_proof page = Some p
          \<and> ((\<exists>h \<in> set (sj_handoffs page). source_kept request admitted carries (jp_covered_until_usn p) h q)
             \<or> (\<exists>h \<in> set (sj_pending_renames page). sp_old_usn q = bn_old_usn h
                  \<and> pending_from request admitted (jp_covered_until_usn p) (bn_root_index h) q)))"

lemma subseq_set: "subseq xs ys \<Longrightarrow> set xs \<subseteq> set ys"
  by (induction rule: list_emb.induct) auto

lemma subseq_distinct: "subseq xs ys \<Longrightarrow> distinct ys \<Longrightarrow> distinct xs"
  by (induction rule: list_emb.induct) (auto dest: subseq_set)

lemma traced_handoff:
  assumes "traced request admitted carries page handoffs pendings"
  shows "length handoffs \<le> length (sj_handoffs page)"
    and "t \<in> set handoffs \<Longrightarrow> \<exists>p h. sj_proof page = Some p \<and> h \<in> set (sj_handoffs page)
      \<and> moved_from request admitted carries (jp_covered_until_usn p) h t"
proof -
  from assms obtain gs where gs: "subseq gs (sj_handoffs page)" and all: "list_all2 (\<lambda>h t. \<exists>p. sj_proof page = Some p
      \<and> moved_from request admitted carries (jp_covered_until_usn p) h t) gs handoffs"
    by (auto simp: traced_def)
  then show "length handoffs \<le> length (sj_handoffs page)"
    using list_emb_length [OF gs] list_all2_lengthD [OF all] by simp
  assume "t \<in> set handoffs"
  then obtain k where k: "k < length handoffs" "t = handoffs ! k" by (metis in_set_conv_nth)
  then obtain h where "h \<in> set gs" "\<exists>p. sj_proof page = Some p
      \<and> moved_from request admitted carries (jp_covered_until_usn p) h t"
    using list_all2_nthD2 [OF all k(1)] list_all2_lengthD [OF all] nth_mem by metis
  moreover from this(1) have "h \<in> set (sj_handoffs page)" using gs subseq_set by blast
  ultimately show "\<exists>p h. sj_proof page = Some p \<and> h \<in> set (sj_handoffs page)
      \<and> moved_from request admitted carries (jp_covered_until_usn p) h t" by blast
qed

lemma translate_page_ok:
  assumes "received (ReadVolume i request)" and "admitted_ok request admitted"
    and "concluded request admitted (sj_proof page) S vp"
    and "\<forall>c \<in> set carries. \<forall>a. cr_read_root_index c = Some a \<longrightarrow> a < length admitted"
    and "\<And>p. sj_proof page = Some p \<Longrightarrow> sint (jp_covered_until_usn p) \<le> sint (rv_end_usn request)"
    and "translate_page host request admitted carries page ctx vp s = (s', Inr (vp', hs, ps, barrier))"
  shows "concluded request admitted (sj_proof page) S vp' \<and> traced request admitted carries page hs ps
    \<and> (\<forall>b. barrier = Some b \<longrightarrow> barrier_ok request b)"
proof (cases "sj_proof page")
  case None
  with assms(3,6) show ?thesis by (auto simp: translate_page_def stateful_eq_Inr traced_def)
next
  case (Some p)
  note valid = received_volume(2) [OF assms(1)] and covered = assms(5) [OF Some]
  from assms(6) Some obtain moved waiting s1 where
    m: "translate_shared_handoffs host (rv_caller request) request admitted carries (sj_handoffs page)
        (jp_covered_until_usn p) ctx s = (s1, Inr moved)"
    and w: "translate_shared_pending_renames host (rv_caller request) request admitted
        (sj_pending_renames page) (jp_covered_until_usn p) ctx s1 = (s', Inr waiting)"
    and vp': "vp' = fold (fail_admitted request admitted) (tr_failures waiting)
        (fold (fail_admitted request admitted) (tr_failures moved) vp)"
    and r: "hs = tr_translated moved" "ps = tr_pending moved @ tr_translated waiting"
      "barrier = min_barrier (tr_barrier moved) (tr_barrier waiting)"
    by (auto simp: translate_page_def Let_def bind_stateful_eq_Inr stateful_eq_Inr)
  note mo = translate_handoffs_ok [OF valid covered assms(4) m]
  note wo = translate_pending_ok [OF valid covered w]
  have "concluded request admitted (sj_proof page) S vp'"
    unfolding vp' using mo wo
    by (intro fail_all_concluded [OF assms(1,2)] assms(3)) (simp_all add: translation_ok_def)
  moreover have "traced request admitted carries page hs ps"
    using mo wo Some unfolding traced_def r by (auto 0 4)
  moreover have "barrier_ok request b" if "barrier = Some b" for b
    by (rule min_barrier_ok [OF _ _ that [unfolded r(3)]]) (use mo wo in \<open>auto simp: translation_ok_def\<close>)
  ultimately show ?thesis by simp
qed

section \<open>What stays in the response\<close>

lemma received_root:
  assumes "received (ReadVolume i request)" and "k < length (rv_roots request)"
  shows "ra_volume_id (sr_root (requested_root request k)) = ra_volume_id (sr_root (hd (rv_roots request)))"
    and "0 \<le> sint (sr_start_usn (requested_root request k))"
  using received_volume(2) [OF assms(1)] nth_mem [OF assms(2)] received_volume(6) [OF assms]
  unfolding read_journal_volume_validate_eq_Inr by (blast, auto simp: read_interval_new_def split: if_splits)

lemma received_keys:
  assumes "received (ReadVolume i request)" and "k < length (rv_roots request)" and "j < length (rv_roots request)"
    and "ra_root_id (sr_root (requested_root request k)) = ra_root_id (sr_root (requested_root request j))"
    and "ra_root_generation (sr_root (requested_root request k)) = ra_root_generation (sr_root (requested_root request j))"
  shows "k = j"
proof -
  let ?keys = "map (\<lambda>s. (ra_root_id (sr_root s), ra_root_generation (sr_root s))) (rv_roots request)"
  have "distinct ?keys" using received_volume(2) [OF assms(1)]
    unfolding read_journal_volume_validate_eq_Inr by blast
  moreover have "?keys ! k = ?keys ! j" using assms(2-5) by simp
  ultimately show ?thesis using nth_eq_iff_index_eq [of ?keys k j] assms(2,3) by (simp only: length_map)
qed

lemma received_pending:
  assumes "received (ReadVolume i request)" and "p \<in> set (rv_pending_renames request)"
  shows "wf_binding (binding_from_request (rv_caller request) (pr_root p))
      \<and> response_binding_validate (binding_from_request (rv_caller request) (pr_root p)) = Inr ()"
    and "ra_volume_id (pr_root p) = ra_volume_id (sr_root (hd (rv_roots request)))"
    and "validate_identifier (pr_carry_id p) 512 = Inr ()" and "utf8_valid (pr_carry_id p)"
proof -
  have v: "pending_rename_request_validate p (ra_volume_id (sr_root (hd (rv_roots request))))
      (rv_journal_id request) (rv_end_usn request) = Inr ()"
    using received_volume(2) [OF assms(1)] assms(2) unfolding read_journal_volume_validate_eq_Inr by blast
  then show "ra_volume_id (pr_root p) = ra_volume_id (sr_root (hd (rv_roots request)))"
    "validate_identifier (pr_carry_id p) 512 = Inr ()"
    unfolding pending_rename_request_validate_eq_Inr by blast+
  have wf: "wf_pending_request p" using assms by (auto simp: received_def list_all_iff)
  then show "utf8_valid (pr_carry_id p)" by (simp add: wf_pending_request_def)
  show "wf_binding (binding_from_request (rv_caller request) (pr_root p))
      \<and> response_binding_validate (binding_from_request (rv_caller request) (pr_root p)) = Inr ()"
    using v wf by (intro request_binding_valid received_volume [OF assms(1)])
      (simp_all add: pending_rename_request_validate_eq_Inr wf_pending_request_def)
qed

text \<open>A root whose barrier lies at or before something that is kept has not failed.\<close>

lemma root_live:
  assumes "barrier_before page a u" and "a < length (sj_rename_barriers_by_root page)"
    and "sint u \<le> sint u'"
    and "\<forall>b. min_barrier (failed_root_barrier (sj_rename_barriers_by_root page) failed) t = Some b
      \<longrightarrow> sint u' < sint b"
  shows "a \<notin> set failed"
proof
  assume "a \<in> set failed"
  moreover obtain b where b: "sj_rename_barriers_by_root page ! a = Some b" "sint b \<le> sint u"
    using assms(1,2) by (auto simp: barrier_before_def)
  ultimately obtain c where "failed_root_barrier (sj_rename_barriers_by_root page) failed = Some c"
    "sint c \<le> sint b" using failed_root_barrier_le by blast
  moreover from min_barrier_le [OF this(1)] obtain d where
    "min_barrier (failed_root_barrier (sj_rename_barriers_by_root page) failed) t = Some d" "sint d \<le> sint c"
    by blast
  ultimately show False using assms(3,4) b(2) by fastforce
qed

lemma handoff_source_cases:
  assumes "handoff_source_of (rv_caller request) request admitted carries h
      (bh_previous_root_index h) (bh_previous_pending_index h) = Inr source"
  shows "(\<exists>a. bh_previous_root_index h = Some a \<and> bh_previous_pending_index h = None \<and> a < length admitted
      \<and> hs_binding source = root_binding request admitted a \<and> hs_carry_id source = None)
    \<or> (\<exists>j. bh_previous_pending_index h = Some j \<and> j < length carries \<and> j < length (rv_pending_renames request)
      \<and> hs_binding source = binding_from_request (rv_caller request) (pr_root (rv_pending_renames request ! j))
      \<and> hs_carry_id source = Some (pr_carry_id (rv_pending_renames request ! j))
      \<and> pr_file_reference (rv_pending_renames request ! j) = bh_file_reference h
      \<and> pr_is_directory (rv_pending_renames request ! j) = bh_is_directory h
      \<and> pr_old_usn (rv_pending_renames request ! j) = bh_old_usn h)"
  using assms
  by (cases "bh_previous_root_index h"; cases "bh_previous_pending_index h")
    (auto simp: nth_option_def bind_result_eq_Inr ok_or_eq_Inr split: if_splits prod.splits)

text \<open>The two ends of a move lie in different roots.\<close>

lemma move_between_roots:
  assumes "received (ReadVolume i request)" and "admitted_ok request admitted" and "consistent_roots request"
    and "map cr_read_root_index carries = map (declared_index request admitted) (rv_pending_renames request)"
    and "move_within request admitted carries covered h source"
    and "bh_previous_root_index h \<noteq> Some (bh_current_root_index h)"
    and "\<forall>j < length carries. bh_previous_pending_index h = Some j
      \<longrightarrow> cr_read_root_index (carries ! j) \<noteq> Some (bh_current_root_index h)"
    and "b = root_binding request admitted (bh_current_root_index h)"
  shows "\<not> (rb_root_id (hs_binding source) = rb_root_id b \<and> rb_root_generation (hs_binding source) = rb_root_generation b)"
proof
  assume same: "rb_root_id (hs_binding source) = rb_root_id b \<and> rb_root_generation (hs_binding source) = rb_root_generation b"
  let ?c = "bh_current_root_index h"
  have c: "?c < length admitted" and src: "handoff_source_of (rv_caller request) request admitted carries h
      (bh_previous_root_index h) (bh_previous_pending_index h) = Inr source"
    using assms(5) by (simp_all add: move_within_def)
  have idx: "fst (admitted ! a) < length (rv_roots request)" if "a < length admitted" for a
    using assms(2) that by (simp add: admitted_ok_def)
  from handoff_source_cases [OF src] show False
  proof (elim disjE exE conjE)
    fix a assume a: "bh_previous_root_index h = Some a" "a < length admitted"
      "hs_binding source = root_binding request admitted a"
    then have "fst (admitted ! a) = fst (admitted ! ?c)"
      using same by (intro received_keys [OF assms(1) idx idx]) (simp_all add: c assms(8) binding_from_request_def)
    then have "a = ?c" using admitted_ok_eq [OF assms(2) a(2) c] by simp
    with a(1) assms(6) show False by simp
  next
    fix j assume j: "bh_previous_pending_index h = Some j" "j < length carries" "j < length (rv_pending_renames request)"
      "hs_binding source = binding_from_request (rv_caller request) (pr_root (rv_pending_renames request ! j))"
    let ?p = "rv_pending_renames request ! j"
    have "pr_root ?p = sr_root (requested_root request (fst (admitted ! ?c)))"
      using assms(3) same j(3,4) idx [OF c] unfolding consistent_roots_def assms(8)
      by (auto simp: binding_from_request_def)
    moreover have "admitted ! ?c \<in> set admitted" using c by simp
    ultimately obtain a where a: "declared_index request admitted ?p = Some a"
      using position_eq_None [of "\<lambda>(request_index, _). sr_root (rv_roots request ! request_index) = pr_root ?p" admitted]
      unfolding declared_index_def by (cases "admitted ! ?c") (metis (mono_tags, lifting) case_prod_conv fst_conv option.exhaust)
    then have "a < length admitted" "sr_root (requested_root request (fst (admitted ! a))) = pr_root ?p"
      using position_eq_Some unfolding declared_index_def by (fastforce simp: case_prod_beta)+
    then have "fst (admitted ! a) = fst (admitted ! ?c)"
      using \<open>pr_root ?p = _\<close> by (intro received_keys [OF assms(1) idx idx]) (simp_all add: c)
    then have "a = ?c" using admitted_ok_eq [OF assms(2) \<open>a < length admitted\<close> c] by simp
    moreover have "cr_read_root_index (carries ! j) = Some a"
      using arg_cong [OF assms(4), of "\<lambda>l. l ! j"] j(2,3) a by simp
    ultimately show False using assms(7) j(1,2) by blast
  qed
qed

lemma admitted_binding:
  assumes "received (ReadVolume i request)" and "admitted_ok request admitted" and "a < length admitted"
  shows "wf_binding (root_binding request admitted a)"
    and "response_binding_validate (root_binding request admitted a) = Inr ()"
    and "rb_client_instance (root_binding request admitted a) = cc_client_instance (rv_caller request)"
    and "rb_volume_id (root_binding request admitted a) = ra_volume_id (sr_root (hd (rv_roots request)))"
    and "0 \<le> sint (sr_start_usn (requested_root request (fst (admitted ! a))))"
proof -
  have k: "fst (admitted ! a) < length (rv_roots request)" using assms(2,3) by (simp add: admitted_ok_def)
  from received_volume(5) [OF assms(1) k] received_root [OF assms(1) k]
  show "wf_binding (root_binding request admitted a)"
    "response_binding_validate (root_binding request admitted a) = Inr ()"
    "rb_client_instance (root_binding request admitted a) = cc_client_instance (rv_caller request)"
    "rb_volume_id (root_binding request admitted a) = ra_volume_id (sr_root (hd (rv_roots request)))"
    "0 \<le> sint (sr_start_usn (requested_root request (fst (admitted ! a))))"
    by (simp_all add: binding_from_request_def)
qed

lemma source_binding:
  assumes "received (ReadVolume i request)" and "admitted_ok request admitted"
    and "handoff_source_of (rv_caller request) request admitted carries h
      (bh_previous_root_index h) (bh_previous_pending_index h) = Inr source"
  shows "wf_binding (hs_binding source)" and "response_binding_validate (hs_binding source) = Inr ()"
    and "rb_client_instance (hs_binding source) = cc_client_instance (rv_caller request)"
    and "rb_volume_id (hs_binding source) = ra_volume_id (sr_root (hd (rv_roots request)))"
    and "validate_option (\<lambda>c. validate_identifier c 512) (hs_carry_id source) = Inr ()"
    and "all_some utf8_valid (hs_carry_id source)"
proof -
  have "wf_binding (hs_binding source) \<and> response_binding_validate (hs_binding source) = Inr ()
    \<and> rb_client_instance (hs_binding source) = cc_client_instance (rv_caller request)
    \<and> rb_volume_id (hs_binding source) = ra_volume_id (sr_root (hd (rv_roots request)))
    \<and> validate_option (\<lambda>c. validate_identifier c 512) (hs_carry_id source) = Inr ()
    \<and> all_some utf8_valid (hs_carry_id source)"
    using handoff_source_cases [OF assms(3)]
  proof (elim disjE exE conjE)
    fix a assume "a < length admitted" "hs_binding source = root_binding request admitted a" "hs_carry_id source = None"
    with admitted_binding [OF assms(1,2)] show ?thesis by (simp add: validate_option_def)
  next
    fix j assume j: "j < length (rv_pending_renames request)"
      "hs_binding source = binding_from_request (rv_caller request) (pr_root (rv_pending_renames request ! j))"
      "hs_carry_id source = Some (pr_carry_id (rv_pending_renames request ! j))"
    with received_pending [OF assms(1) nth_mem [OF j(1)]] show ?thesis
      by (simp add: validate_option_def binding_from_request_def)
  qed
  then show "wf_binding (hs_binding source)" "response_binding_validate (hs_binding source) = Inr ()"
    "rb_client_instance (hs_binding source) = cc_client_instance (rv_caller request)"
    "rb_volume_id (hs_binding source) = ra_volume_id (sr_root (hd (rv_roots request)))"
    "validate_option (\<lambda>c. validate_identifier c 512) (hs_carry_id source) = Inr ()"
    "all_some utf8_valid (hs_carry_id source)" by blast+
qed

lemma move_range:
  assumes "move_within request admitted carries covered h source"
  shows "bh_current_root_index h < length admitted" and "is_reference_length (length (bh_file_reference h))"
    and "sint (sr_start_usn (requested_root request (fst (admitted ! bh_current_root_index h)))) \<le> sint (bh_usn h)"
    and "sint (bh_usn h) < sint covered" and "sint (bh_old_usn h) < sint (bh_usn h)"
    and "bh_previous_root_index h = Some a \<Longrightarrow>
      sint (sr_start_usn (requested_root request (fst (admitted ! a)))) \<le> sint (bh_old_usn h)"
  using assms by (auto simp: move_within_def handoff_out_of_range_def Let_def)

lemma handoff_sound:
  assumes "received (ReadVolume i request)" and "admitted_ok request admitted" and "consistent_roots request"
    and "map cr_read_root_index carries = map (declared_index request admitted) (rv_pending_renames request)"
    and "moved_from request admitted carries covered h t" and "sint covered \<le> sint (rv_end_usn request)"
    and "bh_previous_root_index h \<noteq> Some (bh_current_root_index h)"
    and "\<forall>j < length carries. bh_previous_pending_index h = Some j
      \<longrightarrow> cr_read_root_index (carries ! j) \<noteq> Some (bh_current_root_index h)"
  shows "wf_handoff t \<and> handoff_validate t (cc_client_instance (rv_caller request))
    (ra_volume_id (sr_root (hd (rv_roots request)))) (rv_end_usn request) = Inr ()"
proof -
  from assms(5) obtain source where mw: "move_within request admitted carries covered h source"
    and t: "sh_previous_binding t = hs_binding source" "sh_previous_carry_id t = hs_carry_id source"
      "sh_current_binding t = root_binding request admitted (bh_current_root_index h)"
      "sh_usn t = bh_usn h" "sh_file_reference t = bh_file_reference h"
      "path_ok (sh_previous_relative_path t)" "path_ok (sh_current_relative_path t)"
    by (auto simp: moved_from_def)
  note r = move_range [OF mw]
  have src: "handoff_source_of (rv_caller request) request admitted carries h
      (bh_previous_root_index h) (bh_previous_pending_index h) = Inr source"
    using mw by (simp add: move_within_def)
  note sb = source_binding [OF assms(1,2) src] and cb = admitted_binding [OF assms(1,2) r(1)]
  note diff = move_between_roots [OF assms(1-4) mw assms(7,8) refl]
  have "0 \<le> sint (bh_usn h)" "sint (bh_usn h) < sint (rv_end_usn request)"
    using r(3,4) cb(5) assms(6) by linarith+
  with sb cb r(2) diff t show ?thesis
    unfolding wf_handoff_def handoff_validate_eq_Inr path_ok_def by simp
qed

text \<open>
  A page the service has accepted, with the roots that failed on it and the barrier that follows:
  what is below the barrier is covered by the outcomes.
\<close>

lemma handoff_covered:
  assumes "cut_sound request admitted (sj_proof page) failed barrier outcomes"
    and "barrier = min_barrier (failed_root_barrier (sj_rename_barriers_by_root page) failed) t0"
    and "length (sj_rename_barriers_by_root page) = length admitted"
    and "barriers_cover carries page" and "h \<in> set (sj_handoffs page)" and "sj_proof page = Some p"
    and "moved_from request admitted carries (jp_covered_until_usn p) h t"
    and "\<forall>b. barrier = Some b \<longrightarrow> sint (sh_usn t) < sint b"
  shows "\<forall>b \<in> set (handoff_endpoints t). endpoint_covered outcomes (sh_usn t) b"
proof -
  from assms(7) obtain source where mw: "move_within request admitted carries (jp_covered_until_usn p) h source"
    and t: "sh_previous_binding t = hs_binding source" "sh_previous_carry_id t = hs_carry_id source"
      "sh_current_binding t = root_binding request admitted (bh_current_root_index h)" "sh_usn t = bh_usn h"
    by (auto simp: moved_from_def)
  note r = move_range [OF mw]
  have low: "\<forall>b. min_barrier (failed_root_barrier (sj_rename_barriers_by_root page) failed) t0 = Some b
      \<longrightarrow> sint (bh_usn h) < sint b" using assms(2,8) t(4) by simp
  have cover: "barrier_before page (bh_current_root_index h) (bh_usn h)"
    "\<And>a. bh_previous_root_index h = Some a \<Longrightarrow> barrier_before page a (bh_old_usn h)"
    using assms(4,5) by (auto simp: barriers_cover_def)
  have endpoint: "endpoint_covered outcomes (sh_usn t) (root_binding request admitted a)"
    if "a < length admitted" "barrier_before page a u" "sint u \<le> sint (bh_usn h)"
      "sint (sr_start_usn (requested_root request (fst (admitted ! a)))) \<le> sint (bh_usn h)" for a u
  proof -
    have "a \<notin> set failed" using that(1) assms(3) by (intro root_live [OF that(2) _ that(3) low]) simp
    with assms(1,6,8) that(1,4) r(4) show ?thesis unfolding cut_sound_def t(4) by blast
  qed
  have current: "endpoint_covered outcomes (sh_usn t) (sh_current_binding t)"
    using endpoint [OF r(1) cover(1) order_refl r(3)] by (simp add: t(3))
  have "endpoint_covered outcomes (sh_usn t) (sh_previous_binding t)" if "sh_previous_carry_id t = None"
  proof -
    have src: "handoff_source_of (rv_caller request) request admitted carries h
        (bh_previous_root_index h) (bh_previous_pending_index h) = Inr source"
      using mw by (simp add: move_within_def)
    from handoff_source_cases [OF src] that t(2) obtain a where a: "bh_previous_root_index h = Some a"
      "a < length admitted" "hs_binding source = root_binding request admitted a" by auto
    have "sint (sr_start_usn (requested_root request (fst (admitted ! a)))) \<le> sint (bh_usn h)"
      using r(5) r(6) [OF a(1)] by linarith
    from endpoint [OF a(2) cover(2) [OF a(1)] _ this] r(5) show ?thesis by (simp add: t(1) a(3))
  qed
  with current show ?thesis by (auto simp: handoff_endpoints_def)
qed

lemma pending_sound:
  assumes "received (ReadVolume i request)" and "admitted_ok request admitted"
    and "cut_sound request admitted (sj_proof page) failed barrier outcomes"
    and "barrier = min_barrier (failed_root_barrier (sj_rename_barriers_by_root page) failed) t0"
    and "length (sj_rename_barriers_by_root page) = length admitted" and "sj_proof page = Some p"
    and "sint (jp_covered_until_usn p) \<le> sint (rv_end_usn request)"
    and "pending_from request admitted (jp_covered_until_usn p) a q" and "barrier_before page a (sp_old_usn q)"
    and "\<forall>b. barrier = Some b \<longrightarrow> sint (sp_old_usn q) < sint b"
  shows "wf_pending q \<and> pending_rename_validate q (cc_client_instance (rv_caller request))
      (ra_volume_id (sr_root (hd (rv_roots request)))) (rv_end_usn request) = Inr ()
    \<and> endpoint_covered outcomes (sp_old_usn q) (sp_binding q)"
proof -
  from assms(8) have q: "a < length admitted" "sp_binding q = root_binding request admitted a"
    "is_reference_length (length (sp_file_reference q))" "path_ok (sp_previous_relative_path q)"
    "sint (sr_start_usn (requested_root request (fst (admitted ! a)))) \<le> sint (sp_old_usn q)"
    "sint (sp_old_usn q) < sint (jp_covered_until_usn p)"
    by (simp_all add: pending_from_def)
  note b = admitted_binding [OF assms(1,2) q(1)]
  have "a \<notin> set failed"
    using q(1) assms(5,10) by (intro root_live [OF assms(9) _ order_refl]) (simp_all add: assms(4))
  then have "endpoint_covered outcomes (sp_old_usn q) (root_binding request admitted a)"
    using assms(3,6,10) q(1,5,6) unfolding cut_sound_def by blast
  moreover have "0 \<le> sint (sp_old_usn q)" "sint (sp_old_usn q) < sint (rv_end_usn request)"
    using q(5,6) b(5) assms(7) by linarith+
  ultimately show ?thesis
    using b q unfolding wf_pending_def pending_rename_validate_eq_Inr path_ok_def by simp
qed

text \<open>The source of a move that is kept as a pending rename is one of its root.\<close>

lemma source_kept_pending:
  assumes "source_kept request admitted carries covered h q"
  shows "\<exists>a. bh_previous_root_index h = Some a \<and> pending_from request admitted covered a q \<and> sp_old_usn q = bh_old_usn h"
proof -
  from assms obtain source where mw: "move_within request admitted carries covered h source"
    and q: "hs_carry_id source = None" "sp_binding q = hs_binding source" "sp_old_usn q = bh_old_usn h"
      "sp_file_reference q = bh_file_reference h" "path_ok (sp_previous_relative_path q)"
    by (auto simp: source_kept_def)
  note r = move_range [OF mw]
  from handoff_source_cases [of request admitted carries h source] mw q(1) obtain a where
    "bh_previous_root_index h = Some a" "a < length admitted" "hs_binding source = root_binding request admitted a"
    by (auto simp: move_within_def)
  with r q show ?thesis by (auto simp: pending_from_def)
qed

lemma collect_options_eq_Some: "collect_options xs = Some ys \<longleftrightarrow> xs = map Some ys"
  by (induction xs arbitrary: ys rule: collect_options.induct) (auto simp: Cons_eq_map_conv)

lemma carries_sound_filter:
  assumes "carries_sound request handoffs"
  shows "carries_sound request (filter P handoffs)"
proof -
  have "subseq (List.map_filter f (filter P xs)) (List.map_filter f xs)" for f :: "_ \<Rightarrow> str option" and xs
    by (induction xs) (auto split: option.split)
  with assms show ?thesis
    unfolding carries_sound_def using subseq_distinct by (metis filter_is_subset subsetD)
qed

lemma carried_move:
  assumes "moved_from request admitted carries covered h t"
  shows "(bh_previous_pending_index h = None \<and> sh_previous_carry_id t = None)
    \<or> (\<exists>j. bh_previous_pending_index h = Some j \<and> j < length (rv_pending_renames request)
        \<and> (let p = rv_pending_renames request ! j in sh_previous_carry_id t = Some (pr_carry_id p)
             \<and> sh_previous_binding t = binding_from_request (rv_caller request) (pr_root p)
             \<and> sh_file_reference t = pr_file_reference p
             \<and> sh_previous_relative_path t = pr_previous_relative_path p
             \<and> sh_is_directory t = pr_is_directory p \<and> sint (pr_old_usn p) < sint (sh_usn t)))"
proof -
  from assms obtain source where mw: "move_within request admitted carries covered h source"
    and t: "sh_previous_binding t = hs_binding source" "sh_previous_carry_id t = hs_carry_id source"
      "sh_usn t = bh_usn h" "sh_file_reference t = bh_file_reference h" "sh_is_directory t = bh_is_directory h"
      "carried_path request h (sh_previous_relative_path t)"
    by (auto simp: moved_from_def)
  from mw have src: "handoff_source_of (rv_caller request) request admitted carries h
      (bh_previous_root_index h) (bh_previous_pending_index h) = Inr source"
    and "sint (bh_old_usn h) < sint (bh_usn h)"
    by (auto simp: move_within_def handoff_out_of_range_def Let_def)
  with handoff_source_cases [OF src] t show ?thesis
    by (elim disjE exE conjE) (auto simp: carried_path_def Let_def)
qed

lemma traced_carries:
  assumes "received (ReadVolume i request)" and "barriers_cover carries page"
    and "traced request admitted carries page handoffs pendings"
  shows "carries_sound request handoffs"
proof -
  let ?ps = "rv_pending_renames request"
  from assms(3) obtain gs where gs: "subseq gs (sj_handoffs page)" and all: "list_all2 (\<lambda>h t. \<exists>p. sj_proof page = Some p
      \<and> moved_from request admitted carries (jp_covered_until_usn p) h t) gs handoffs"
    by (auto simp: traced_def)
  have ids: "distinct (map pr_carry_id ?ps)"
    using received_volume(2) [OF assms(1)] unfolding read_journal_volume_validate_eq_Inr by blast
  have inj: "inj_on (\<lambda>j. pr_carry_id (?ps ! j)) {..<length ?ps}"
    using ids by (auto simp: inj_on_def distinct_conv_nth)
  have "List.map_filter sh_previous_carry_id handoffs
        = map (\<lambda>j. pr_carry_id (?ps ! j)) (List.map_filter bh_previous_pending_index gs)
      \<and> set (List.map_filter bh_previous_pending_index gs) \<subseteq> {..<length ?ps}"
    using all
  proof (induction rule: list_all2_induct)
    case (Cons h gs t ts)
    then obtain covered where "moved_from request admitted carries covered h t" by blast
    from carried_move [OF this] Cons.IH show ?case by (auto simp: Let_def)
  qed simp
  moreover have "distinct (List.map_filter bh_previous_pending_index gs)"
  proof -
    have "subseq (List.map_filter bh_previous_pending_index gs) (List.map_filter bh_previous_pending_index (sj_handoffs page))"
      using gs by (induction) (auto split: option.split)
    moreover have "distinct (List.map_filter bh_previous_pending_index (sj_handoffs page))"
      using assms(2) by (simp add: barriers_cover_def)
    ultimately show ?thesis by (rule subseq_distinct)
  qed
  ultimately have "distinct (List.map_filter sh_previous_carry_id handoffs)"
    using inj by (auto simp: distinct_map intro: inj_on_subset)
  moreover have "\<exists>p \<in> set ?ps. pr_carry_id p = c
      \<and> sh_previous_binding h = binding_from_request (rv_caller request) (pr_root p)
      \<and> sh_file_reference h = pr_file_reference p \<and> sh_previous_relative_path h = pr_previous_relative_path p
      \<and> sh_is_directory h = pr_is_directory p \<and> sint (pr_old_usn p) < sint (sh_usn h)"
    if "h \<in> set handoffs" "sh_previous_carry_id h = Some c" for h c
  proof -
    from traced_handoff(2) [OF assms(3) that(1)] obtain covered g where
      "moved_from request admitted carries covered g h" by blast
    from carried_move [OF this] that(2) show ?thesis by (auto simp: Let_def)
  qed
  ultimately show ?thesis by (simp add: carries_sound_def)
qed

lemma traced_sound:
  assumes "received (ReadVolume i request)" and "admitted_ok request admitted" and "consistent_roots request"
    and "map cr_read_root_index carries = map (declared_index request admitted) (rv_pending_renames request)"
    and "validate_shared_backend_page before bounds page (length admitted) = Inr ()"
    and "jg_end_usn bounds = rv_end_usn request" and "barriers_cover carries page"
    and "traced request admitted carries page handoffs pendings"
    and "barrier = min_barrier (failed_root_barrier (sj_rename_barriers_by_root page) failed) t0"
    and "cut_sound request admitted (sj_proof page) failed barrier outcomes"
  shows "volume_sound request outcomes
    (filter (\<lambda>t. \<forall>b. barrier = Some b \<longrightarrow> sint (sh_usn t) < sint b) handoffs)
    (filter (\<lambda>q. \<forall>b. barrier = Some b \<longrightarrow> sint (sp_old_usn q) < sint b) pendings)"
proof -
  note page = valid_page [OF assms(5)]
  have covered: "sint (jp_covered_until_usn p) \<le> sint (rv_end_usn request)" if "sj_proof page = Some p" for p
    using page(7) [OF that] by (simp add: assms(6))
  have "wf_handoff t \<and> handoff_validate t (cc_client_instance (rv_caller request))
      (ra_volume_id (sr_root (hd (rv_roots request)))) (rv_end_usn request) = Inr ()
      \<and> (\<forall>b \<in> set (handoff_endpoints t). endpoint_covered outcomes (sh_usn t) b)"
    if t: "t \<in> set handoffs" "\<forall>b. barrier = Some b \<longrightarrow> sint (sh_usn t) < sint b" for t
  proof -
    from traced_handoff(2) [OF assms(8) t(1)] obtain p h where p: "sj_proof page = Some p" and h: "h \<in> set (sj_handoffs page)"
      "moved_from request admitted carries (jp_covered_until_usn p) h t" by blast
    have "\<forall>j < length carries. bh_previous_pending_index h = Some j
        \<longrightarrow> cr_read_root_index (carries ! j) \<noteq> Some (bh_current_root_index h)"
      using assms(7) h(1) unfolding barriers_cover_def by blast
    from handoff_sound [OF assms(1-4) h(2) covered [OF p] page(6) [OF h(1)] this]
      handoff_covered [OF assms(10,9) page(2) assms(7) h(1) p h(2) t(2)]
    show ?thesis by blast
  qed
  moreover have "wf_pending q \<and> pending_rename_validate q (cc_client_instance (rv_caller request))
      (ra_volume_id (sr_root (hd (rv_roots request)))) (rv_end_usn request) = Inr ()
      \<and> endpoint_covered outcomes (sp_old_usn q) (sp_binding q)"
    if q: "q \<in> set pendings" "\<forall>b. barrier = Some b \<longrightarrow> sint (sp_old_usn q) < sint b" for q
  proof -
    from assms(8) q(1) obtain p where p: "sj_proof page = Some p" and
      src: "(\<exists>h \<in> set (sj_handoffs page). source_kept request admitted carries (jp_covered_until_usn p) h q)
        \<or> (\<exists>h \<in> set (sj_pending_renames page). sp_old_usn q = bn_old_usn h
             \<and> pending_from request admitted (jp_covered_until_usn p) (bn_root_index h) q)"
      unfolding traced_def by blast
    then obtain a where "pending_from request admitted (jp_covered_until_usn p) a q"
      "barrier_before page a (sp_old_usn q)"
      using source_kept_pending assms(7) unfolding barriers_cover_def by metis
    from pending_sound [OF assms(1,2,10,9) page(2) p covered [OF p] this q(2)] show ?thesis .
  qed
  moreover have "length handoffs \<le> MAX_SHARED_HANDOFFS" using traced_handoff(1) [OF assms(8)] page(4) by simp
  then have "length (filter P handoffs) \<le> MAX_SHARED_HANDOFFS" for P
    using length_filter_le order_trans by blast
  moreover have "carries_sound request (filter P handoffs)" for P
    by (rule carries_sound_filter [OF traced_carries [OF assms(1,7,8)]])
  ultimately show ?thesis using assms(10) by (simp add: volume_sound_def Let_def cut_sound_def)
qed

lemma admitted_ok_if_admission_inv:
  assumes "admission_inv request [0..<length (rv_roots request)] ad"
  shows "admitted_ok request (ad_admitted ad)"
proof -
  from assms have "distinct (map fst (ad_admitted ad))"
    "fst ` set (ad_admitted ad) \<subseteq> {0..<length (rv_roots request)}" by (simp_all add: admission_inv_def)
  moreover have "fst (ad_admitted ad ! a) \<in> fst ` set (ad_admitted ad)" if "a < length (ad_admitted ad)" for a
    using that by simp
  ultimately show ?thesis unfolding admitted_ok_def by (metis atLeastLessThan_iff subsetD)
qed

lemma conclude_page_sound:
  assumes "received (ReadVolume i request)" and "filters_candidates host" and "consistent_roots request"
    and "admission_inv request [0..<length (rv_roots request)] ad"
    and "carried_ok request (ad_admitted ad) (rv_pending_renames request) carried"
    and "validate_shared_backend_page before bounds page (length (ad_admitted ad)) = Inr ()"
    and "jg_end_usn bounds = rv_end_usn request" and "barriers_cover (cd_carries carried) page"
    and "conclude_page host request (ad_admitted ad) carried page ctx (ad_outcomes ad) s = (s', Inr vs)"
    and "collect_options (vs_outcomes vs) = Some outcomes"
  shows "volume_sound request outcomes (vs_handoffs vs) (vs_pending_renames vs)"
proof -
  let ?admitted = "ad_admitted ad" and ?pf = "sj_proof page" and ?all = "{..<length (ad_admitted ad)}"
  let ?vp0 = "\<lparr>vp_outcomes = ad_outcomes ad, vp_failed = []\<rparr>"
  note pg = valid_page [OF assms(6)]
  note ok = admitted_ok_if_admission_inv [OF assms(4)]
  have "concluded request ?admitted ?pf {} ?vp0" using assms(4) by (simp add: admission_inv_def concluded_def)
  then have c0: "concluded request ?admitted ?pf {} (fold (fail_admitted request ?admitted) (cd_failures carried) ?vp0)"
    using assms(5) by (intro fail_all_concluded [OF assms(1) ok]) (simp_all add: carried_ok_def)
  from assms(9) obtain vp1 s1 vp hs ps tb where
    loop: "fold_stateful (root_outcome_step host request ?admitted ?pf ctx)
       (enumerate 0 (sj_candidates_by_root page))
       (fold (fail_admitted request ?admitted) (cd_failures carried) ?vp0) s = (s1, Inr vp1)"
    and tp: "\<exists>s2. translate_page host request ?admitted (cd_carries carried) page ctx vp1 s1 = (s2, Inr (vp, hs, ps, tb))"
    and ab: "apply_barrier request ?admitted (vp_failed vp)
       (min_barrier (failed_root_barrier (sj_rename_barriers_by_root page) (vp_failed vp)) tb)
       \<lparr>vs_outcomes = vp_outcomes vp, vs_handoffs = hs, vs_pending_renames = ps\<rparr> = Inr vs"
    unfolding conclude_page_def bind_stateful_eq_Inr Let_def by (auto simp: pg(1) stateful_eq_Inr)
  have c1: "concluded request ?admitted ?pf ?all vp1"
    by (rule outcome_loop_concluded [OF assms(1,2) ok c0 pg(1) pg(5) loop])
  have idx: "\<forall>c \<in> set (cd_carries carried). \<forall>a. cr_read_root_index c = Some a \<longrightarrow> a < length ?admitted"
    by (rule carried_index [OF assms(5)])
  from tp obtain s2 where s2: "translate_page host request ?admitted (cd_carries carried) page ctx vp1 s1
      = (s2, Inr (vp, hs, ps, tb))" ..
  have c2: "concluded request ?admitted ?pf ?all vp"
    and tr: "traced request ?admitted (cd_carries carried) page hs ps"
    and tb: "\<And>b. tb = Some b \<Longrightarrow> barrier_ok request b"
    using translate_page_ok [OF assms(1) ok c1 idx pg(7) [unfolded assms(7)] s2] by simp_all
  define barrier where "barrier = min_barrier (failed_root_barrier (sj_rename_barriers_by_root page) (vp_failed vp)) tb"
  have bok: "barrier_ok request b" if "barrier = Some b" for b
  proof (rule min_barrier_ok [OF _ tb that [unfolded barrier_def]])
    fix c assume "failed_root_barrier (sj_rename_barriers_by_root page) (vp_failed vp) = Some c"
    from failed_root_barrier_mem [OF this] obtain a where "a \<in> set (vp_failed vp)"
      "sj_rename_barriers_by_root page ! a = Some c" by blast
    moreover from this c2 have "a < length ?admitted" by (auto simp: concluded_def)
    ultimately show "barrier_ok request c" using pg(3) by (auto simp: barrier_ok_def assms(7))
  qed
  note out = collect_options_eq_Some [THEN iffD1, OF assms(10)]
  have cut: "cut_sound request ?admitted ?pf (vp_failed vp) barrier outcomes"
  proof (cases barrier)
    case None
    with ab out have "vp_outcomes vp = map Some outcomes"
      by (auto simp: apply_barrier_def barrier_def [symmetric])
    from uncut_sound [OF ok c2 this] None show ?thesis by simp
  next
    case (Some b)
    with ab out have "cut_outcomes request b (vp_failed vp) (enumerate 0 ?admitted) (vp_outcomes vp)
        = Inr (map Some outcomes)"
      by (auto simp: apply_barrier_def barrier_def [symmetric] bind_result_eq_Inr)
    from cut_outcomes_sound [OF assms(1) ok c2 bok [OF Some] this] Some show ?thesis by simp
  qed
  have lists: "vs_handoffs vs = filter (\<lambda>t. \<forall>b. barrier = Some b \<longrightarrow> sint (sh_usn t) < sint b) hs"
    "vs_pending_renames vs = filter (\<lambda>q. \<forall>b. barrier = Some b \<longrightarrow> sint (sp_old_usn q) < sint b) ps"
    using ab by (auto simp: apply_barrier_def barrier_def [symmetric] bind_result_eq_Inr split: option.splits)
  have idxs: "map cr_read_root_index (cd_carries carried)
      = map (declared_index request ?admitted) (rv_pending_renames request)"
    using assms(5) by (simp add: carried_ok_def)
  show ?thesis
    unfolding lists
    by (rule traced_sound [OF assms(1) ok assms(3) idxs assms(6,7,8) tr barrier_def cut])
qed

lemma read_admitted_roots_sound:
  assumes "received (ReadVolume i request)" and "filters_candidates host" and "reports_barriers host"
    and "consistent_roots request" and "admission_inv request [0..<length (rv_roots request)] ad"
    and "read_admitted_roots host caller request ctx ad s = (s', Inr vs)"
    and "collect_options (vs_outcomes vs) = Some outcomes"
  shows "volume_sound request outcomes (vs_handoffs vs) (vs_pending_renames vs)"
proof -
  from assms(6) obtain metadata start carried s1 s2 s3 s4 volume page where
    c: "fold_stateful (carry_step host caller request (ad_admitted ad) ctx) (rv_pending_renames request)
        \<lparr>cd_carries = [], cd_failures = []\<rparr> s1 = (s2, Inr carried)"
    and p: "ht_read_existing_journal_volume_page host volume ctx s3 = (s4, Inr page)"
      "ev_pending_renames volume = cd_carries carried"
    and v: "validate_shared_backend_page metadata \<lparr>jg_start_usn = start, jg_end_usn = rv_end_usn request\<rparr> page
        (length (ad_admitted ad)) = Inr ()"
    and k: "\<exists>s5. conclude_page host request (ad_admitted ad) carried page ctx (ad_outcomes ad) s5 = (s', Inr vs)"
    unfolding read_admitted_roots_def Let_def bind_stateful_eq_Inr
    by (clarsimp simp: stateful_eq_Inr) (metis existing_journal_volume_read.select_convs(3))
  have "barriers_cover (cd_carries carried) page" using assms(3) p unfolding reports_barriers_def by metis
  with k conclude_page_sound [OF assms(1,2,4,5) carry_loop_ok [OF c] v] assms(7) show ?thesis by auto
qed

lemma refused_volume_sound:
  assumes "admission_inv request [0..<length (rv_roots request)] ad" and "ad_admitted ad = []"
    and "collect_options (ad_outcomes ad) = Some outcomes"
  shows "volume_sound request outcomes [] []"
  using assms by (auto simp: volume_sound_def admission_inv_def collect_options_eq_Some carries_sound_def Let_def)

lemma execute_read_volumeE:
  assumes "execute_read_volume host request_id key request deadline authenticated w = (w', Inr response)"
  obtains caller ctx ad vs outcomes w1 w2 where
    "fold_stateful (admit_root_step host caller request ctx) [0..<length (rv_roots request)]
       (volume_admission_new request) w1 = (w2, Inr ad)"
    "if ad_admitted ad = []
     then vs = \<lparr>vs_outcomes = ad_outcomes ad, vs_handoffs = [], vs_pending_renames = []\<rparr>
     else \<exists>w3. read_admitted_roots host caller request ctx ad w2 = (w3, Inr vs)"
    "collect_options (vs_outcomes vs) = Some outcomes"
    "validate_shared_response_limits outcomes (vs_handoffs vs) (vs_pending_renames vs)
       (unat (rv_max_records request)) (unat (rv_max_evidence_bytes request)) = Inr ()"
    "response = ReadVolumeResponse request_id
       (volume_response_of request outcomes (vs_handoffs vs) (vs_pending_renames vs))"
proof -
  let ?read = "\<lambda>caller ctx ad. if ad_admitted ad = []
    then return_stateful \<lparr>vs_outcomes = ad_outcomes ad, vs_handoffs = [], vs_pending_renames = []\<rparr>
    else read_admitted_roots host caller request ctx ad"
  from assms obtain caller s1 where "(if key \<noteq> active_key request_id caller then fail_stateful (BrokerFailure CallerRejected)
     else bind_stateful (context_new key deadline) (\<lambda>ctx.
       bind_stateful (fold_stateful (admit_root_step host caller request ctx)
         [0..<length (rv_roots request)] (volume_admission_new request)) (\<lambda>ad.
       bind_stateful (?read caller ctx ad) (\<lambda>vs.
       bind_stateful (lift_stateful (ok_or (collect_options (vs_outcomes vs)) (BrokerFailure Internal)))
         (\<lambda>outcomes.
       bind_stateful (lift_stateful (validate_shared_response_limits outcomes (vs_handoffs vs)
         (vs_pending_renames vs) (unat (rv_max_records request)) (unat (rv_max_evidence_bytes request)))) (\<lambda>_.
       bind_stateful (check_context host ctx) (\<lambda>_.
       return_stateful (ReadVolumeResponse request_id
         (volume_response_of request outcomes (vs_handoffs vs) (vs_pending_renames vs)))))))))) s1 = (w', Inr response)"
    unfolding execute_read_volume_def volume_response_of_def bind_stateful_eq_Inr [of "verify_caller host authenticated (rv_caller request)"]
    by blast
  then obtain ctx w1 w2 w3 ad vs outcomes where
    "fold_stateful (admit_root_step host caller request ctx) [0..<length (rv_roots request)]
       (volume_admission_new request) w1 = (w2, Inr ad)"
    "?read caller ctx ad w2 = (w3, Inr vs)" "collect_options (vs_outcomes vs) = Some outcomes"
    "validate_shared_response_limits outcomes (vs_handoffs vs) (vs_pending_renames vs)
       (unat (rv_max_records request)) (unat (rv_max_evidence_bytes request)) = Inr ()"
    "response = ReadVolumeResponse request_id
       (volume_response_of request outcomes (vs_handoffs vs) (vs_pending_renames vs))"
    by (cases "key = active_key request_id caller")
      (auto simp: bind_stateful_eq_Inr stateful_eq_Inr ok_or_eq_Inr split del: if_split)
  then show thesis by (intro that) (auto simp: stateful_eq_Inr split: if_splits)
qed

lemma execute_read_volume_sound:
  assumes "received (ReadVolume i request)" and "filters_candidates host" and "reports_barriers host"
    and "consistent_roots request"
    and "execute_read_volume host i key request deadline authenticated w = (w', Inr response)"
  obtains outcomes handoffs pendings where
    "response = ReadVolumeResponse i (volume_response_of request outcomes handoffs pendings)"
    "volume_sound request outcomes handoffs pendings"
    "validate_shared_response_limits outcomes handoffs pendings (unat (rv_max_records request))
      (unat (rv_max_evidence_bytes request)) = Inr ()"
  using assms(5)
proof (rule execute_read_volumeE)
  fix caller ctx ad vs outcomes w1 w2
  assume loop: "fold_stateful (admit_root_step host caller request ctx) [0..<length (rv_roots request)]
       (volume_admission_new request) w1 = (w2, Inr ad)"
    and vs: "if ad_admitted ad = []
     then vs = \<lparr>vs_outcomes = ad_outcomes ad, vs_handoffs = [], vs_pending_renames = []\<rparr>
     else \<exists>w3. read_admitted_roots host caller request ctx ad w2 = (w3, Inr vs)"
    and out: "collect_options (vs_outcomes vs) = Some outcomes"
    and rest: "validate_shared_response_limits outcomes (vs_handoffs vs) (vs_pending_renames vs)
       (unat (rv_max_records request)) (unat (rv_max_evidence_bytes request)) = Inr ()"
      "response = ReadVolumeResponse i
         (volume_response_of request outcomes (vs_handoffs vs) (vs_pending_renames vs))"
  note inv = admission_loop_inv [OF assms(1) loop]
  have "volume_sound request outcomes (vs_handoffs vs) (vs_pending_renames vs)"
  proof (cases "ad_admitted ad = []")
    case True
    with vs out refused_volume_sound [OF inv True] show ?thesis by simp
  next
    case False
    with vs read_admitted_roots_sound [OF assms(1-4) inv _ out] show ?thesis by auto
  qed
  with rest that show thesis by blast
qed

end
