(* ===== verification/Volume_Frames.thy ===== *)
theory Volume_Frames
  imports Volume_Response
begin

text \<open>
  The size of a volume response on the wire (\<open>encode_response_frame\<close> in \<open>journal_broker/service.rs\<close>
  over \<open>encode_frame\<close>): when a validated response fits into a frame, and one that does not. The
  limits on records and evidence do not count the bindings that every cross-root move repeats.
\<close>

definition compact_binding :: "response_binding \<Rightarrow> bool" where
  "compact_binding b \<longleftrightarrow> length (rb_root_id b) + length (rb_volume_id b) \<le> 84"

definition compact_response :: "read_volume_response \<Rightarrow> bool" where
  "compact_response r \<longleftrightarrow> list_all (compact_binding \<circ> so_binding) (vr_outcomes r)
     \<and> list_all (\<lambda>h. compact_binding (sh_previous_binding h) \<and> compact_binding (sh_current_binding h)) (vr_handoffs r)
     \<and> list_all (compact_binding \<circ> sp_binding) (vr_pending_renames r)"

lemma compact_binding_wire: "wf_binding b \<Longrightarrow> compact_binding b \<Longrightarrow> length (wire_binding b) \<le> 116"
  by (simp add: wf_binding_def compact_binding_def wire_binding_def wire_lengths)

lemma handoff_wire_length:
  assumes "wf_handoff h" and "compact_binding (sh_previous_binding h)" and "compact_binding (sh_current_binding h)"
    and "8 \<le> length (sh_file_reference h)" and "handoff_evidence_bytes h = Some e"
  shows "2 * length (wire_handoff h) \<le> 508 + 3 * e"
proof -
  let ?k = "case sh_previous_carry_id h of None \<Rightarrow> 0 | Some c \<Rightarrow> length c"
  have e: "e = 2 * length (encode_utf16 (sh_previous_relative_path h))
      + 2 * length (encode_utf16 (sh_current_relative_path h)) + length (sh_file_reference h) + ?k"
    using assms(5)
    by (auto simp: handoff_evidence_bytes_def checked_mul_def checked_add_def bind_eq_Some_conv
        split: option.splits if_splits)
  have "length (sh_previous_relative_path h) \<le> 3 * length (encode_utf16 (sh_previous_relative_path h))"
    "length (sh_current_relative_path h) \<le> 3 * length (encode_utf16 (sh_current_relative_path h))"
    using assms(1) by (simp_all add: wf_handoff_def utf8_length_le_utf16)
  moreover have "length (wire_binding (sh_previous_binding h)) \<le> 116" "length (wire_binding (sh_current_binding h)) \<le> 116"
    using assms(1-3) by (simp_all add: wf_handoff_def compact_binding_wire)
  ultimately show ?thesis
    using assms(4) e by (cases "sh_previous_carry_id h") (auto simp: wire_handoff_def wire_lengths)
qed

lemma pending_wire_length:
  assumes "wf_pending p" and "compact_binding (sp_binding p)" and "pending_rename_evidence_bytes p = Some e"
  shows "2 * length (wire_pending p) \<le> 508 + 3 * e"
proof -
  have "e = 2 * length (encode_utf16 (sp_previous_relative_path p)) + length (sp_file_reference p)"
    using assms(3)
    by (auto simp: pending_rename_evidence_bytes_def checked_mul_def checked_add_def bind_eq_Some_conv split: if_splits)
  moreover have "length (sp_previous_relative_path p) \<le> 3 * length (encode_utf16 (sp_previous_relative_path p))"
    "length (wire_binding (sp_binding p)) \<le> 116"
    using assms(1,2) by (simp_all add: wf_pending_def utf8_length_le_utf16 compact_binding_wire)
  ultimately show ?thesis by (auto simp: wire_pending_def wire_lengths)
qed

lemma records_wire_length:
  assumes "\<And>x e. x \<in> set xs \<Longrightarrow> f x = Some e \<Longrightarrow> 2 * length (wire x) \<le> 508 + 3 * e"
    and "\<And>x. x \<in> set xs \<Longrightarrow> f x \<noteq> None"
  shows "2 * length (concat (map wire xs)) \<le> 508 * length xs + 3 * evidence_sum f xs"
  using assms
proof (induction xs)
  case (Cons x xs)
  from Cons.prems(2) [of x] obtain e where e: "f x = Some e" by auto
  with Cons.prems(1) [of x e] have "2 * length (wire x) \<le> 508 + 3 * e" by simp
  moreover have "2 * length (concat (map wire xs)) \<le> 508 * length xs + 3 * evidence_sum f xs"
    by (rule Cons.IH) (simp_all add: Cons.prems del: not_None_eq)
  ultimately show ?case using e by simp
qed simp

lemma outcome_wire_length:
  assumes "wf_outcome x" and "compact_binding (so_binding x)"
    and "\<forall>c \<in> set (so_candidates x). candidate_evidence_bytes c \<noteq> None"
  shows "2 * length (wire_outcome x) \<le> 284
    + (508 * length (so_candidates x) + 3 * evidence_sum candidate_evidence_bytes (so_candidates x))"
proof -
  have "2 * length (concat (map wire_candidate (so_candidates x)))
      \<le> 52 * length (so_candidates x) + 3 * evidence_sum candidate_evidence_bytes (so_candidates x)"
    using assms by (intro candidates_wire_length) (simp add: wf_outcome_def list_all_iff)
  moreover have "length (wire_binding (so_binding x)) \<le> 116"
    using assms by (simp add: wf_outcome_def compact_binding_wire)
  ultimately show ?thesis
    by (cases "so_failure x") (auto simp: wire_outcome_def wire_lengths wire_candidates_def
        wire_failure_code_def wire_u16_def)
qed

lemma outcomes_wire_length:
  assumes "\<And>x. x \<in> set xs \<Longrightarrow> 2 * length (wire_outcome x) \<le> 284 + (508 * n x + 3 * e x)"
  shows "2 * length (concat (map wire_outcome xs)) \<le> 284 * length xs + 508 * sum_list (map n xs) + 3 * sum_list (map e xs)"
  using assms
proof (induction xs)
  case (Cons x xs)
  then have "2 * length (concat (map wire_outcome xs)) \<le> 284 * length xs + 508 * sum_list (map n xs) + 3 * sum_list (map e xs)"
    by simp
  with Cons.prems [of x] show ?case by simp
qed simp

lemma compact_response_fits:
  assumes "wf_response (ReadVolumeResponse i r)" and "validate_read_volume_response r = Inr ()"
    and "compact_response r"
  shows "length (wire_response (ReadVolumeResponse i r)) \<le> MAX_FRAME_BYTES"
proof -
  note v = validate_read_volume_response_InrD [OF assms(2)]
  have wf: "length (vr_client_instance r) = 16" "\<forall>x \<in> set (vr_outcomes r). wf_outcome x"
    "\<forall>h \<in> set (vr_handoffs r). wf_handoff h" "\<forall>p \<in> set (vr_pending_renames r). wf_pending p"
    using assms(1) by (simp_all add: list_all_iff)
  have ids: "\<forall>x \<in> set (vr_outcomes r). compact_binding (so_binding x)"
    "\<forall>h \<in> set (vr_handoffs r). compact_binding (sh_previous_binding h) \<and> compact_binding (sh_current_binding h)"
    "\<forall>p \<in> set (vr_pending_renames r). compact_binding (sp_binding p)"
    using assms(3) by (simp_all add: compact_response_def list_all_iff)
  have ref: "8 \<le> length (sh_file_reference h)" if "h \<in> set (vr_handoffs r)" for h
    using v(11) [OF that] by (auto simp: handoff_validate_def bind_result_eq_Inr Let_def is_reference_length_def split: if_splits)
  have h: "2 * length (concat (map wire_handoff (vr_handoffs r)))
      \<le> 508 * length (vr_handoffs r) + 3 * evidence_sum handoff_evidence_bytes (vr_handoffs r)"
    using wf(3) ids(2) ref v(11) by (intro records_wire_length handoff_wire_length) auto
  have p: "2 * length (concat (map wire_pending (vr_pending_renames r)))
      \<le> 508 * length (vr_pending_renames r) + 3 * evidence_sum pending_rename_evidence_bytes (vr_pending_renames r)"
    using wf(4) ids(3) v(12) by (intro records_wire_length pending_wire_length) auto
  have o: "2 * length (concat (map wire_outcome (vr_outcomes r))) \<le> 284 * length (vr_outcomes r)
      + 508 * (\<Sum>x \<leftarrow> vr_outcomes r. length (so_candidates x))
      + 3 * (\<Sum>x \<leftarrow> vr_outcomes r. evidence_sum candidate_evidence_bytes (so_candidates x))"
    using wf(2) ids(1) v(10) by (intro outcomes_wire_length outcome_wire_length) auto
  have id: "length (vr_volume_id r) \<le> 512" using v(2) by (simp add: validate_identifier_eq_Inr wire_limits)
  have "response_records r \<le> 1024" "response_evidence r \<le> 524288" "length (vr_outcomes r) \<le> 8"
    using v(3,4,6,13,14) by (simp_all add: in_1_to_def wire_limits word_le_nat_alt)
  with o h p wf(1) id show ?thesis
    by (simp add: wire_volume_response_def wire_lengths response_records_def response_evidence_def MAX_FRAME_BYTES_def)
qed

section \<open>A response without a frame\<close>

definition crowded_binding :: "u8 \<Rightarrow> response_binding" where
  "crowded_binding root = \<lparr>rb_client_instance = replicate 16 3, rb_root_id = replicate 256 root,
     rb_root_generation = 1, rb_volume_id = replicate 512 0x76\<rparr>"

definition crowded_outcome :: "u8 \<Rightarrow> shared_journal_root_outcome" where
  "crowded_outcome root = \<lparr>so_binding = crowded_binding root, so_requested_start_usn = 10,
     so_covered_until_usn = Some 20, so_is_complete = True, so_candidates = [], so_failure = None\<rparr>"

definition crowded_move :: shared_journal_handoff where
  "crowded_move = \<lparr>sh_previous_binding = crowded_binding 0x61,
     sh_current_binding = crowded_binding 0x62, sh_file_reference = replicate 8 7, sh_usn = 15,
     sh_previous_relative_path = lit ''a'', sh_current_relative_path = lit ''b'',
     sh_is_directory = False, sh_previous_carry_id = None\<rparr>"

definition crowded_response :: read_volume_response where
  "crowded_response = \<lparr>vr_client_instance = replicate 16 3, vr_volume_id = replicate 512 0x76,
     vr_journal_id = 77, vr_requested_end_usn = 20, vr_max_records = 1024,
     vr_max_evidence_bytes = 524288, vr_outcomes = [crowded_outcome 0x61, crowded_outcome 0x62],
     vr_handoffs = replicate 1024 crowded_move, vr_pending_renames = []\<rparr>"

lemma crowded_binding_valid:
  "root = 0x61 \<or> root = 0x62 \<Longrightarrow> wf_binding (crowded_binding root)
    \<and> response_binding_validate (crowded_binding root) = Inr ()"
  by (auto simp: crowded_binding_def wf_binding_def response_binding_validate_eq_Inr wire_limits all_zero_def
      list_all_iff validate_identifier_eq_Inr utf8_valid_ascii)

lemma crowded_paths:
  "validate_relative_path (lit ''a'') = Inr ()" "validate_relative_path (lit ''b'') = Inr ()"
  "length (encode_utf16 (lit ''a'')) = 1" "length (encode_utf16 (lit ''b'')) = 1"
  "length (lit ''a'') = 1" "length (lit ''b'') = 1" "utf8_valid (lit ''a'')" "utf8_valid (lit ''b'')"
  by code_simp+

lemma crowded_move_facts:
  "handoff_validate crowded_move (replicate 16 3) (replicate 512 0x76) 20 = Inr ()"
  "handoff_evidence_bytes crowded_move = Some 12"
  "length (wire_handoff crowded_move) = 1632" "wf_handoff crowded_move"
  by (simp_all add: crowded_move_def handoff_validate_def bind_result_eq_Inr crowded_binding_valid
      crowded_paths is_reference_length_def validate_option_def handoff_evidence_bytes_def checked_mul_def checked_add_def
      wire_handoff_def wire_lengths wire_binding_def wf_handoff_def)
    (simp_all add: crowded_binding_def)

lemma crowded_outcome_valid:
  "root = 0x61 \<or> root = 0x62 \<Longrightarrow> wf_outcome (crowded_outcome root)
    \<and> root_outcome_validate (crowded_outcome root) 20 1024 = Inr ()"
  by (auto simp: crowded_outcome_def wf_outcome_def root_outcome_validate_eq_Inr crowded_binding_valid
      read_interval_new_def admits_coverage_def)

lemma crowded_response_valid:
  "wf_response (ReadVolumeResponse 9 crowded_response)
    \<and> validate_response (ReadVolumeResponse 9 crowded_response) = Inr ()"
proof -
  let ?r = crowded_response and ?xs = "[crowded_outcome 0x61, crowded_outcome 0x62]"
  have keys: "distinct (map outcome_key (vr_outcomes ?r))"
    by (simp add: crowded_response_def crowded_outcome_def crowded_binding_def)
  have fields: "vr_outcomes ?r = ?xs" "vr_handoffs ?r = replicate 1024 crowded_move"
    "vr_pending_renames ?r = []" "vr_client_instance ?r = replicate 16 3"
    "vr_volume_id ?r = replicate 512 0x76" "vr_requested_end_usn ?r = 20" "vr_max_records ?r = 1024"
    "vr_max_evidence_bytes ?r = 524288"
    by (simp_all add: crowded_response_def)
  have covered: "\<forall>b \<in> set (handoff_endpoints crowded_move). endpoint_covered ?xs (sh_usn crowded_move) b"
    by (auto simp: handoff_endpoints_def crowded_move_def endpoint_covered_def crowded_outcome_def
        same_endpoint_def crowded_binding_def)
  obtain B t0 where f0: "fold_result (validate_outcome_step ?r) ?xs
      ({}, \<lparr>tt_records = 0, tt_evidence = 0\<rparr>) = Inr (B, t0)"
    using validate_outcomes_ok [of ?xs ?r "{}" "\<lparr>tt_records = 0, tt_evidence = 0\<rparr>"] keys crowded_outcome_valid
    by (auto simp: fields) (auto simp: crowded_outcome_def crowded_binding_def)
  then have t0: "tt_records t0 = 0" "tt_evidence t0 = 0"
    using validate_outcomes_fold [OF f0] by (simp_all add: crowded_outcome_def)
  have sum: "evidence_sum handoff_evidence_bytes (replicate 1024 crowded_move) = 12288"
    by (simp add: evidence_sum_def crowded_move_facts sum_list_replicate)
  obtain t1 where f1: "fold_result (validate_handoff_step ?r) (replicate 1024 crowded_move) t0 = Inr t1"
    using validate_handoffs_ok [of "replicate 1024 crowded_move" ?r t0] covered keys sum t0
    by (auto simp: fields crowded_move_facts)
  then have t1: "tt_records t1 = 1024" "tt_evidence t1 = 12288"
    using validate_handoffs_fold [OF f1] sum t0 by simp_all
  have "validate_read_volume_response ?r = Inr ()"
    unfolding validate_read_volume_response_def fields
    using f0 f1 t1
    by (simp add: all_zero_def list_all_iff validate_identifier_for_codec_eq validate_identifier_eq_Inr wire_limits in_1_to_def
        crowded_response_def)
  moreover have "wf_response (ReadVolumeResponse 9 ?r)"
    using crowded_outcome_valid by (simp add: fields crowded_move_facts list_all_iff utf8_valid_ascii)
  ultimately show ?thesis by (simp add: validate_response_def)
qed

lemma crowded_response_length:
  "length (wire_response (ReadVolumeResponse 9 crowded_response)) > MAX_FRAME_BYTES"
proof -
  have "length (concat (map wire_handoff (replicate 1024 crowded_move))) = 1671168"
    by (simp add: length_concat crowded_move_facts sum_list_replicate)
  then show ?thesis
    by (simp add: wire_volume_response_def crowded_response_def MAX_FRAME_BYTES_def)
qed

section \<open>Properties\<close>

text \<open>
  C39. A volume response that passes validation and names its roots and volume in at most 84 bytes
  each time fits into a frame, however many candidates, cross-root moves and pending renames it
  holds, and the client decodes the frame back to it.
\<close>

theorem compact_volume_response_delivered:
  assumes "wf_response (ReadVolumeResponse i r)" and "validate_response (ReadVolumeResponse i r) = Inr ()"
    and "compact_response r"
  shows "\<exists>frame p. encode_response_frame (ReadVolumeResponse i r) = Inr frame
    \<and> decode_frame frame = Inr p \<and> decode_response p = Inr (ReadVolumeResponse i r)"
proof -
  have "validate_read_volume_response r = Inr ()"
    using assms(2) by (simp add: validate_response_def split: if_splits)
  from deliveredI [OF assms(1,2) _ compact_response_fits [OF assms(1) this assms(3)]]
  show ?thesis by (simp add: delivered_def)
qed

theorem compact_volume_response_delivered_witness:
  "\<exists>frame p. encode_response_frame (ReadVolumeResponse 9 example_volume_response) = Inr frame
    \<and> decode_frame frame = Inr p \<and> decode_response p = Inr (ReadVolumeResponse 9 example_volume_response)"
proof (rule compact_volume_response_delivered)
  show "wf_response (ReadVolumeResponse 9 example_volume_response)" by (rule example_response_wf)
  show "validate_response (ReadVolumeResponse 9 example_volume_response) = Inr ()"
    by (simp add: validate_response_def example_volume_response_valid)
  show "compact_response example_volume_response" by code_simp
qed

text \<open>
  C40. The limits of a volume response do not keep it within a frame: with the longest root and volume
  ids, 1024 cross-root moves of 12 evidence bytes each pass validation and encode to more than the
  1 MiB of a frame, so that the service has no frame to answer with.
\<close>

theorem volume_response_without_frame:
  "wf_response (ReadVolumeResponse 9 crowded_response)
    \<and> validate_response (ReadVolumeResponse 9 crowded_response) = Inr ()
    \<and> response_evidence crowded_response = 12288
    \<and> (\<exists>p. encode_response (ReadVolumeResponse 9 crowded_response) = Inr p)
    \<and> encode_response_frame (ReadVolumeResponse 9 crowded_response) = Inl (BrokerFailure Internal)"
proof -
  let ?r = "ReadVolumeResponse 9 crowded_response"
  have "ok_response ?r"
    using ok_response_if_valid [OF conjunct1 [OF crowded_response_valid] conjunct2 [OF crowded_response_valid]] by simp
  then have e: "encode_response ?r = Inr (wire_response ?r)"
    using crowded_response_valid by (simp add: encode_response_ok)
  moreover have "\<exists>x. encode_frame (wire_response ?r) = Inl x"
    using crowded_response_length by (auto simp: encode_frame_def)
  moreover have "response_evidence crowded_response = 12288"
    by (simp add: response_evidence_def crowded_response_def crowded_outcome_def evidence_sum_def
        crowded_move_facts sum_list_replicate)
  ultimately show ?thesis
    using crowded_response_valid by (auto simp: encode_response_frame_def)
qed

end
