(* ===== verification/Service_Example.thy ===== *)
theory Service_Example
  imports Broker_Service
begin

text \<open>
  A broker host that the examples of the service run on: an authorizer that pins every root where it
  is declared, and a backend whose journal holds two changes and a move between two roots, with the
  evaluation of a range read and a volume read on it.
\<close>

definition example_compare :: ordinal_compare where
  "example_compare left right ignore_case = (if left = right then 2 else 1)"

definition example_pinned :: "caller_authorization \<Rightarrow> root_authorization \<Rightarrow> authorized_pinned_root" where
  "example_pinned caller root = \<lparr>ap_caller = caller, ap_declared_root = root,
     ap_pinned_root = \<lparr>pb_volume_id = ra_volume_id root, pb_root_identity = ra_root_identity root,
       pb_canonical_root_utf16 = ra_canonical_root_utf16 root,
       pb_name_semantics = RootNameSemanticsProof [OrdinalCaseSensitive]\<rparr>\<rparr>"

definition example_move :: backend_journal_handoff where
  "example_move = \<lparr>bh_previous_root_index = Some 0, bh_previous_pending_index = None,
     bh_current_root_index = 1, bh_previous_absolute_path_utf16 = example_path_units,
     bh_current_absolute_path_utf16 = example_path_units, bh_file_reference = replicate 16 9,
     bh_old_usn = 13, bh_usn = 14, bh_is_directory = False\<rparr>"

definition example_page :: shared_backend_journal_page where
  "example_page = \<lparr>sj_candidates_by_root =
       [Inr [example_backend_candidate 12], Inr [example_backend_candidate 15]],
     sj_handoffs = [example_move], sj_pending_renames = [],
     sj_rename_barriers_by_root = [Some 13, Some 14], sj_proof = Some example_proof\<rparr>"

definition example_host :: "unit broker_host" where
  "example_host = \<lparr>ht_interfere = \<lambda>w. w, ht_order = rev, ht_compare = example_compare,
     ht_verify_claim = \<lambda>authenticated claim w. (w, from_verified_claim authenticated claim),
     ht_register_root = \<lambda>_ _ _ _ w. (w, Inr (RootCapability (replicate 32 8))),
     ht_authorize_registered_root = \<lambda>caller root _ _ w. (w, Inr (example_pinned caller root)),
     ht_filter_disclosable_candidates = \<lambda>_ candidates _ w. (w, Inr candidates),
     ht_query_existing_journal = \<lambda>_ _ w. (w, Inr (JournalSupported example_metadata)),
     ht_read_existing_journal_page = \<lambda>_ _ _ _ _ w.
       (w, Inr ([example_backend_candidate 12, example_backend_candidate 15], example_proof)),
     ht_read_existing_journal_volume_page = \<lambda>_ _ w. (w, Inr example_page)\<rparr>"

definition example_authenticated :: authenticated_connection where
  "example_authenticated = \<lparr>ac_connection_id = replicate 16 1, ac_connection_generation = 4,
     ac_opaque_token_binding = replicate 32 2, ac_observed_client_process_identity = replicate 32 6,
     ac_observed_process_id = 41, ac_observed_session_id = 2, ac_observed_token_type = 2,
     ac_observed_impersonation_level = 2, ac_observed_is_elevated = False\<rparr>"

definition example_world :: "unit broker_world" where
  "example_world = \<lparr>bw_registry = fst (begin_execution example_key 5 example_registry), bw_now = 6,
     bw_bounded_steps = 0, bw_rest = ()\<rparr>"


definition example_range_request :: read_journal_range_request where
  "example_range_request = \<lparr>rj_caller = example_caller, rj_root = example_authorization,
     rj_root_capability = RootCapability (replicate 32 8), rj_journal_id = 77, rj_start_usn = 10,
     rj_end_usn = 20, rj_max_records = 32, rj_max_evidence_bytes = 4096, rj_timeout_ms = 1000\<rparr>"

section \<open>Evaluation\<close>

definition example_at :: "nat \<Rightarrow> unit broker_world" where
  "example_at steps = example_world\<lparr>bw_bounded_steps := steps\<rparr>"

definition example_authorized :: caller_authorization where
  "example_authorized = \<lparr>ca_connection_id = replicate 16 1, ca_connection_generation = 4,
     ca_client_instance = replicate 16 3, ca_opaque_namespace = replicate 32 2\<rparr>"

abbreviation example_context :: request_context where
  "example_context \<equiv> \<lparr>rc_deadline = 100, rc_key = example_key\<rparr>"

lemma example_host_simps [simp]:
  "ht_interfere example_host w = w" "ht_order example_host = rev" "ht_compare example_host = example_compare"
  "ht_verify_claim example_host authenticated claim w = (w, from_verified_claim authenticated claim)"
  "ht_register_root example_host caller root handle ctx w = (w, Inr (RootCapability (replicate 32 8)))"
  "ht_authorize_registered_root example_host caller root capability ctx w = (w, Inr (example_pinned caller root))"
  "ht_filter_disclosable_candidates example_host pinned candidates ctx w = (w, Inr candidates)"
  "ht_query_existing_journal example_host pinned ctx w = (w, Inr (JournalSupported example_metadata))"
  "ht_read_existing_journal_page example_host pinned metadata bounds builder ctx w =
     (w, Inr ([example_backend_candidate 12, example_backend_candidate 15], example_proof))"
  "ht_read_existing_journal_volume_page example_host volume ctx w = (w, Inr example_page)"
  by (simp_all add: example_host_def)

lemma example_at_simps [simp]:
  "bw_bounded_steps (example_at n) = n" "bw_now (example_at n) = 6"
  "example_at n\<lparr>bw_bounded_steps := m\<rparr> = example_at m" "example_world\<lparr>bw_bounded_steps := n\<rparr> = example_at n"
  by (simp_all add: example_at_def example_world_def)

lemma example_check: "check_context example_host example_context (example_at n) = (example_at n, Inr ())"
  and example_step: "n < 2 ^ 64 - 1 \<Longrightarrow>
    step_context example_host example_context (example_at n) = (example_at (n + 1), Inr 94)"
proof -
  have ok: "check_request example_key 6 (fst (begin_execution example_key 5 example_registry)) = Inr ()"
    unfolding example_begin_execution
    by (simp add: check_request_def connection_ref_def example_connection_def example_key_def)
  have c: "context_check example_host example_context (example_at n) = (example_at n, Inr ())" for n
    by (simp add: context_check_def on_registry_def map_err_stateful_def example_at_def example_world_def ok Let_def)
  then show "check_context example_host example_context (example_at n) = (example_at n, Inr ())"
    by (simp add: check_context_def map_err_stateful_def)
  show "step_context example_host example_context (example_at n) = (example_at (n + 1), Inr 94)" if "n < 2 ^ 64 - 1"
    using that
    by (simp add: step_context_def map_err_stateful_def context_bounded_step_def bind_stateful_def c
        checked_add_def context_remaining_def MAX_BACKEND_STEP_def)
qed

lemma example_verify:
  "verify_caller example_host example_authenticated example_caller w = (w, Inr example_authorized)"
  by (simp add: verify_caller_def map_err_stateful_def from_verified_claim_def example_authenticated_def
      example_caller_def example_authorized_def)

lemma example_key_eq: "active_key 9 example_authorized = example_key"
  by (simp add: active_key_def example_authorized_def example_key_def)

lemma example_facts:
  "validate_authorized_root_facts example_compare example_authorized example_authorization
     (example_pinned example_authorized example_authorization) = Inr ()"
  by code_simp

lemma example_candidate_valid:
  "0 \<le> sint usn \<Longrightarrow>
    broker_candidate_validate (example_candidate usn\<lparr>bc_file_reference := replicate 16 9\<rparr>) = Inr ()"
proof -
  have "validate_relative_path (lit ''a/b.jpg'') = Inr ()" by code_simp
  then show "0 \<le> sint usn \<Longrightarrow> ?thesis"
    by (simp add: example_candidate_def broker_candidate_validate_eq_Inr is_reference_length_def
        candidate_scope_validate_def)
qed

lemma example_scopes:
  "scope_under_root example_compare example_path example_root [OrdinalCaseSensitive] =
     Inr (Some (ScopeRelative (lit ''a/b.jpg'')))"
  "normalize_backend_path example_root_units = Inr example_root"
  by code_simp+

text \<open>The example path lies under every root declared where the example root is.\<close>

definition example_here :: "root_authorization \<Rightarrow> bool" where
  "example_here root \<longleftrightarrow> ra_volume_id root = lit ''volume-a'' \<and> ra_canonical_root_utf16 root = example_root_units"

lemma example_constrain:
  assumes "0 \<le> sint usn" and "example_here root"
  shows "constrain_candidate example_compare (example_pinned caller root) example_root (example_backend_candidate usn)
    = Inr (Some (example_candidate usn\<lparr>bc_file_reference := replicate 16 9\<rparr>))"
proof -
  have "placed_candidate (example_backend_candidate usn) (RelativePath (lit ''a/b.jpg''), None, Path)
      = example_candidate usn\<lparr>bc_file_reference := replicate 16 9\<rparr>"
    by (simp add: placed_candidate_def example_backend_candidate_def example_candidate_def)
  with assms example_candidate_valid [OF assms(1)] show ?thesis
    by (simp add: constrain_candidate_def example_here_def example_pinned_def example_backend_candidate_def
        example_paths example_scopes previous_candidate_scope_def isolated_candidate_kind_def to_candidate_scope_def)
qed

lemma example_constrains:
  assumes "\<forall>usn \<in> set usns. 0 \<le> sint usn" and "example_here root"
  shows "constrain_candidates example_compare (example_pinned caller root) (map example_backend_candidate usns)
    = Inr (map (\<lambda>usn. example_candidate usn\<lparr>bc_file_reference := replicate 16 9\<rparr>) usns)"
proof -
  have "constrain_each example_compare (example_pinned caller root) example_root (map example_backend_candidate usns)
    = Inr (map (\<lambda>usn. example_candidate usn\<lparr>bc_file_reference := replicate 16 9\<rparr>) usns)"
    using assms(1) by (induction usns) (simp_all add: example_constrain [OF _ assms(2)])
  moreover have "normalized_root (ap_pinned_root (example_pinned caller root)) = Inr example_root"
    using assms(2) by (simp add: normalized_root_def example_pinned_def example_here_def example_scopes)
  ultimately show ?thesis by (simp add: constrain_candidates_def)
qed

lemma example_places: "example_here example_authorization"
  by (simp add: example_here_def example_authorization_def)

lemmas example_placed = example_constrains [OF _ example_places, of "[12, 15]", simplified]

lemma example_page_built:
  "page_builder_finish example_metadata example_proof (fold page_builder_offer
      [example_backend_candidate 12, example_backend_candidate 15] (page_builder_new
        \<lparr>jg_start_usn = 10, jg_end_usn = 20\<rparr> \<lparr>jl_max_records = 32, jl_max_evidence_bytes = 4096\<rparr>)) =
   Inr \<lparr>bp_candidates = [example_backend_candidate 12, example_backend_candidate 15], bp_proof = example_proof\<rparr>"
proof -
  have "page_builder_new \<lparr>jg_start_usn = 10, jg_end_usn = 20\<rparr>
      \<lparr>jl_max_records = 32, jl_max_evidence_bytes = 4096\<rparr> = example_builder 0 []"
    by (simp add: page_builder_new_def example_builder_def)
  then show ?thesis
    by (simp add: example_offers)
      (simp add: page_builder_finish_def example_builder_def example_usn example_proof_def
        example_metadata_def journal_metadata_validate_def)
qed

lemmas example_runs = bind_stateful_def return_stateful_def fail_stateful_def lift_stateful_def
  map_err_stateful_def catch_stateful_def example_verify example_key_eq example_check example_step

lemma example_range_read:
  "\<exists>w' response. execute_read_range example_host 9 example_key example_range_request 100 example_authenticated example_world
    = (w', Inr response)"
proof -
  have "journal_metadata_validate example_metadata = Inr example_metadata"
    "validate_requested_range example_range_request example_metadata = Inr ()" by code_simp+
  then show ?thesis
    by (simp add: execute_read_range_def example_range_request_def context_new_def authorize_root_def
        example_runs example_facts example_placed example_page_built [simplified])
qed

subsection \<open>The volume read\<close>

definition example_root_b :: root_authorization where
  "example_root_b = example_authorization\<lparr>ra_root_id := lit ''root-b''\<rparr>"

definition example_admission :: volume_admission where
  "example_admission = \<lparr>ad_outcomes = [None, None],
     ad_admitted = [(0, example_pinned example_authorized example_authorization),
       (1, example_pinned example_authorized example_root_b)], ad_before = Some example_metadata\<rparr>"

definition example_carried :: carried_renames where
  "example_carried = \<lparr>cd_carries = [\<lparr>cr_root = None, cr_read_root_index = Some 0,
     cr_file_reference = replicate 16 9, cr_old_usn = 5, cr_previous_relative_path = lit ''a/b.jpg'',
     cr_is_directory = False\<rparr>], cd_failures = []\<rparr>"

lemma example_roots:
  "rv_roots example_volume_request = [example_shared_root (lit ''root-a'') 12, example_shared_root (lit ''root-b'') 10]"
  "sr_root (example_shared_root (lit ''root-a'') n) = example_authorization"
  "sr_root (example_shared_root (lit ''root-b'') n) = example_root_b"
  "sr_start_usn (example_shared_root i n) = n"
  by (simp_all add: example_volume_request_def example_shared_root_def example_authorization_def example_root_b_def)

lemma example_facts_b:
  "validate_authorized_root_facts example_compare example_authorized example_root_b
     (example_pinned example_authorized example_root_b) = Inr ()"
  by code_simp

lemma example_admits:
  "fold_stateful (admit_root_step example_host example_authorized example_volume_request example_context)
     [0..<length (rv_roots example_volume_request)] (volume_admission_new example_volume_request) (example_at 0)
   = (example_at (Suc (Suc 0)), Inr example_admission)"
proof -
  have "journal_metadata_validate example_metadata = Inr example_metadata" by code_simp
  moreover have "jm_journal_id example_metadata = 77" "jm_first_usn example_metadata = 1"
    "jm_next_usn example_metadata = 30" "rv_journal_id example_volume_request = 77"
    "rv_end_usn example_volume_request = 20"
    by (simp_all add: example_volume_request_def example_metadata_def)
  moreover have "[0..<length (rv_roots example_volume_request)] = [0, 1]" by (simp add: example_roots upt_rec)
  ultimately show ?thesis
    by (simp add: admit_root_step_def example_runs example_facts example_facts_b admit_metadata_def
        example_roots volume_admission_new_def example_admission_def)
qed

lemma example_carries:
  "fold_stateful (carry_step example_host example_authorized example_volume_request
     (ad_admitted example_admission) example_context) (rv_pending_renames example_volume_request)
     \<lparr>cd_carries = [], cd_failures = []\<rparr> w = (w, Inr example_carried)"
  by (simp add: example_volume_request_def carry_step_def carry_root_def example_runs example_pending_request_def
      example_carried_def example_admission_def position_def example_shared_root_def example_authorization_def)

lemma example_page_valid:
  "validate_shared_backend_page example_metadata \<lparr>jg_start_usn = 10, jg_end_usn = 20\<rparr> example_page
     (length (ad_admitted example_admission)) = Inr ()"
  by code_simp

lemma example_endpoint:
  assumes "0 \<le> sint usn" and "example_here root"
  shows "translate_endpoint example_host (example_pinned caller root) (lit ''volume-a'') example_path_units
    (replicate 16 9) usn False ctx w = (w, Inr (lit ''a/b.jpg''))"
proof -
  have "length example_path_units = 17" by code_simp
  moreover have "length (lit ''volume-a'') = 8" by code_simp
  ultimately have "copy_from_bounded (lit ''volume-a'') example_path_units None (replicate 16 9) usn Path False
      = Inr (example_backend_candidate usn)"
    using assms(1)
    by (auto simp: copy_from_bounded_def example_paths wire_limits is_reference_length_def
        example_backend_candidate_def validate_option_def)
  with assms example_constrains [of "[usn]" root caller] show ?thesis
    by (simp add: translate_endpoint_def bind_stateful_def lift_stateful_def map_err_stateful_def
        example_candidate_def)
qed

lemma example_here_b: "example_here example_root_b"
  by (simp add: example_here_def example_root_b_def example_authorization_def)

lemma example_outcome_step:
  assumes "example_here root" and "admitted ! a = (k, example_pinned caller root)"
    and "rv_roots example_volume_request ! k = requested"
    and "sr_start_usn requested = start" and "0 \<le> sint start" and "sint start < 20"
    and "sint start \<le> sint usn" and "a \<notin> set (vp_failed vp)"
  shows "root_outcome_step example_host example_volume_request admitted (Some example_proof) ctx
      (a, Inr [example_backend_candidate usn]) vp w =
    (w, Inr (vp\<lparr>vp_outcomes := (vp_outcomes vp)[k := Some (read_outcome_of example_volume_request requested
       example_proof [example_candidate usn\<lparr>bc_file_reference := replicate 16 9\<rparr>])]\<rparr>))"
proof -
  have "\<not> root_not_covered example_volume_request requested example_proof"
    using assms(4-6)
    by (auto simp: root_not_covered_def example_volume_request_def read_interval_new_def admits_coverage_def
        example_proof_def)
  with assms example_constrains [of "[usn]" root caller] show ?thesis
    by (simp add: root_outcome_step_def example_runs example_usn)
qed

definition example_moved :: shared_journal_handoff where
  "example_moved = \<lparr>sh_previous_binding = example_binding (lit ''root-a''),
     sh_current_binding = example_binding (lit ''root-b''), sh_file_reference = replicate 16 9,
     sh_usn = 14, sh_previous_relative_path = lit ''a/b.jpg'',
     sh_current_relative_path = lit ''a/b.jpg'', sh_is_directory = False, sh_previous_carry_id = None\<rparr>"

lemma example_move_fields:
  "bh_previous_root_index example_move = Some 0" "bh_previous_pending_index example_move = None"
  "bh_current_root_index example_move = 1" "bh_previous_absolute_path_utf16 example_move = example_path_units"
  "bh_current_absolute_path_utf16 example_move = example_path_units" "bh_file_reference example_move = replicate 16 9"
  "bh_old_usn example_move = 13" "bh_usn example_move = 14" "\<not> bh_is_directory example_move"
  by (simp_all add: example_move_def)

lemma example_move_step:
  "translate_handoff_step example_host example_caller example_volume_request (ad_admitted example_admission)
     carries 20 ctx example_move tr w = (w, Inr (tr\<lparr>tr_translated := tr_translated tr @ [example_moved]\<rparr>))"
proof -
  have "\<not> handoff_out_of_range example_volume_request (ad_admitted example_admission) 1 20 example_move"
    by (simp add: handoff_out_of_range_def example_move_def example_admission_def example_roots is_reference_length_def)
  moreover have "\<not> carried_path_differs example_volume_request example_move path" for path
    by (simp add: carried_path_differs_def example_move_def)
  moreover have "binding_from_request example_caller example_authorization = example_binding (lit ''root-a'')"
    "binding_from_request example_caller example_root_b = example_binding (lit ''root-b'')"
    by (simp_all add: binding_from_request_def example_binding_def example_root_b_def example_authorization_def
        example_caller_def)
  moreover have "pb_volume_id (ap_pinned_root (example_pinned caller example_authorization)) = lit ''volume-a''"
    "ra_volume_id example_root_b = lit ''volume-a''" for caller
    by (simp_all add: example_pinned_def example_root_b_def example_authorization_def)
  moreover have "nth_option (ad_admitted example_admission) 0 = Some (0, example_pinned example_authorized example_authorization)"
    "nth_option (ad_admitted example_admission) 1 = Some (1, example_pinned example_authorized example_root_b)"
    by (simp_all add: nth_option_def example_admission_def)
  ultimately show ?thesis
    by (simp add: translate_handoff_step_def translate_handoff_target_def example_moved_def example_move_fields
        example_roots example_runs example_endpoint example_places example_here_b del: One_nat_def)
qed

lemma example_concludes:
  "conclude_page example_host example_volume_request (ad_admitted example_admission) example_carried
     example_page ctx (ad_outcomes example_admission) w = (w, Inr \<lparr>vs_outcomes =
       [Some (read_outcome_of example_volume_request (example_shared_root (lit ''root-a'') 12) example_proof
           [example_candidate 12\<lparr>bc_file_reference := replicate 16 9\<rparr>]),
        Some (read_outcome_of example_volume_request (example_shared_root (lit ''root-b'') 10) example_proof
           [example_candidate 15\<lparr>bc_file_reference := replicate 16 9\<rparr>])],
       vs_handoffs = [example_moved], vs_pending_renames = []\<rparr>)"
proof -
  have page: "sj_candidates_by_root example_page = [Inr [example_backend_candidate 12], Inr [example_backend_candidate 15]]"
    "sj_proof example_page = Some example_proof" "sj_handoffs example_page = [example_move]"
    "sj_pending_renames example_page = []" "sj_rename_barriers_by_root example_page = [Some 13, Some 14]"
    by (simp_all add: example_page_def)
  have adm: "length (ad_admitted example_admission) = 2" "ad_outcomes example_admission = [None, None]"
    "ad_admitted example_admission ! 0 = (0, example_pinned example_authorized example_authorization)"
    "ad_admitted example_admission ! Suc 0 = (1, example_pinned example_authorized example_root_b)"
    by (simp_all add: example_admission_def)
  have "rv_caller example_volume_request = example_caller" by (simp add: example_volume_request_def)
  moreover have "jp_covered_until_usn example_proof = 20" by (simp add: example_proof_def)
  moreover have "cd_failures example_carried = []" by (simp add: example_carried_def)
  ultimately show ?thesis
    by (simp add: conclude_page_def page adm example_runs translate_page_def translate_shared_handoffs_def
        translate_shared_pending_renames_def example_move_step root_translation_new_def failed_root_barrier_def
        apply_barrier_def map_filter_def
        example_outcome_step [OF example_places adm(3)] example_outcome_step [OF example_here_b adm(4)] example_roots)
qed

definition example_volume_answer :: read_volume_response where
  "example_volume_answer =
     \<lparr>vr_client_instance = replicate 16 3, vr_volume_id = lit ''volume-a'',
      vr_journal_id = 77, vr_requested_end_usn = 20, vr_max_records = 32, vr_max_evidence_bytes = 4096,
      vr_outcomes =
        [read_outcome_of example_volume_request (example_shared_root (lit ''root-a'') 12) example_proof
           [example_candidate 12\<lparr>bc_file_reference := replicate 16 9\<rparr>],
         read_outcome_of example_volume_request (example_shared_root (lit ''root-b'') 10) example_proof
           [example_candidate 15\<lparr>bc_file_reference := replicate 16 9\<rparr>]],
      vr_handoffs = [example_moved], vr_pending_renames = []\<rparr>"

lemma example_volume_read:
  "execute_read_volume example_host 9 example_key example_volume_request 100 example_authenticated
     example_world = (example_at (Suc (Suc (Suc 0))), Inr (ReadVolumeResponse 9 example_volume_answer))"
proof -
  have "rv_caller example_volume_request = example_caller" "rv_end_usn example_volume_request = 20"
    "rv_max_records example_volume_request = 32" "rv_max_evidence_bytes example_volume_request = 4096"
    "cc_client_instance example_caller = replicate 16 3" "rv_journal_id example_volume_request = 77"
    "ra_volume_id (sr_root (hd (rv_roots example_volume_request))) = lit ''volume-a''"
    by (simp_all add: example_volume_request_def example_caller_def example_shared_root_def example_authorization_def)
  moreover have "ad_before example_admission = Some example_metadata" "ad_admitted example_admission \<noteq> []"
    "minimum_usn (admitted_start_usns example_volume_request (ad_admitted example_admission)) = Some 10"
    by (simp_all add: example_admission_def admitted_start_usns_def example_roots min_usn_def)
  moreover have "validate_shared_response_limits
     [read_outcome_of example_volume_request (example_shared_root (lit ''root-a'') 12) example_proof
           [example_candidate 12\<lparr>bc_file_reference := replicate 16 9\<rparr>],
      read_outcome_of example_volume_request (example_shared_root (lit ''root-b'') 10) example_proof
           [example_candidate 15\<lparr>bc_file_reference := replicate 16 9\<rparr>]] [example_moved] [] 32 4096 = Inr ()"
    by code_simp
  ultimately show ?thesis
    by (simp add: execute_read_volume_def read_admitted_roots_def context_new_def example_runs example_admits [simplified]
        example_carries example_page_valid example_concludes example_volume_answer_def)
qed

end
