(* ===== verification/Service_Properties.thy ===== *)
theory Service_Properties
  imports Service_Answers Service_Steps Volume_Read Volume_Frames Service_Example
begin

text \<open>
  What the broker service (\<open>journal_broker/service.rs\<close>) promises its clients, from frames and
  accepted reads to the registry it shares with its other threads. The authorizer, the backend and
  the other threads are the host; each property names what it relies on of them.
\<close>

section \<open>Answers\<close>

lemma framed_response_decodes:
  assumes "wf_response r" and "validate_response r = Inr ()" and "range_evidence_bounded r"
    and "encode_response_frame r = Inr frame"
  shows "\<exists>p. decode_frame frame = Inr p \<and> decode_response p = Inr r"
proof -
  from assms(4) obtain p where p: "encode_response r = Inr p" "encode_frame p = Inr frame"
    by (auto simp: encode_response_frame_def bind_result_eq_Inr map_err_eq_Inr)
  then have "fits p" by (auto simp: encode_frame_eq_Inr fits_def MAX_FRAME_BYTES_def)
  with p assms show ?thesis by (auto simp: decode_frame_iff_encode_frame decode_response_iff)
qed

text \<open>
  C9. Every frame is answered: whatever bytes a client sends, and whatever the authorizer, the
  journal backend and the other threads do, \<open>handle_frame\<close> returns a frame, the client decodes it
  to a response, and when the bytes were a request, the response carries its request id.
\<close>

theorem every_frame_answered:
  assumes "verifies_claims host" and "issues_capabilities host"
  shows "\<exists>answer p r. snd (handle_frame host frame authenticated w) = Inr answer
    \<and> decode_frame answer = Inr p \<and> decode_response p = Inr r
    \<and> (\<forall>payload request. decode_frame frame = Inr payload \<longrightarrow> decode_request payload = Inr request
         \<longrightarrow> response_request_id r = request_request_id request)"
  by (rule frame_answers [OF assms])

lemma example_wire:
  assumes "received r" and "fits (wire_request r)"
  shows "decode_request (wire_request r) = Inr r"
  using assms by (intro decode_wire_request ok_request_if_valid) (simp_all add: received_def)

lemma example_received:
  "received (ReadVolume 9 example_volume_request)" "received (ReadRange 9 example_range_request)"
  unfolding received_def by code_simp+

lemma example_decoded:
  "decode_request (wire_request (ReadRange 9 example_range_request)) = Inr (ReadRange 9 example_range_request)"
  "decode_request (wire_request (ReadVolume 9 example_volume_request)) = Inr (ReadVolume 9 example_volume_request)"
  "decode_frame (le_bytes 4 (of_nat (length (wire_request (ReadRange 9 example_range_request))) :: u32)
     @ wire_request (ReadRange 9 example_range_request)) = Inr (wire_request (ReadRange 9 example_range_request))"
proof -
  have len: "length (wire_request (ReadRange 9 example_range_request)) \<le> 1000"
    "wire_request (ReadRange 9 example_range_request) \<noteq> []"
    "fits (wire_request (ReadVolume 9 example_volume_request))" by code_simp+
  show "decode_request (wire_request (ReadRange 9 example_range_request)) = Inr (ReadRange 9 example_range_request)"
    by (rule example_wire [OF example_received(2)]) (use len in \<open>simp add: fits_def\<close>)
  show "decode_request (wire_request (ReadVolume 9 example_volume_request)) = Inr (ReadVolume 9 example_volume_request)"
    by (rule example_wire [OF example_received(1) len(3)])
  show "decode_frame (le_bytes 4 (of_nat (length (wire_request (ReadRange 9 example_range_request))) :: u32)
     @ wire_request (ReadRange 9 example_range_request)) = Inr (wire_request (ReadRange 9 example_range_request))"
    unfolding decode_frame_iff_encode_frame encode_frame_eq_Inr
    using len by (auto simp: MAX_FRAME_BYTES_def)
qed


lemma example_contract:
  "verifies_claims example_host" "issues_capabilities example_host" "filters_candidates example_host"
  "reports_barriers example_host" "consistent_roots example_volume_request"
proof -
  show "verifies_claims example_host" "issues_capabilities example_host" "filters_candidates example_host"
    by (auto simp: verifies_claims_def issues_capabilities_def filters_candidates_def wf_capability_def)
  show "reports_barriers example_host"
    by (auto simp: reports_barriers_def barriers_cover_def example_page_def example_move_fields barrier_before_def map_filter_simps)
  show "consistent_roots example_volume_request"
    by (simp add: consistent_roots_def example_volume_request_def example_pending_request_def
        example_shared_root_def example_authorization_def)
qed

theorem every_frame_answered_witness:
  "\<exists>frame answer p r. decode_frame frame = Inr (wire_request (ReadRange 9 example_range_request))
    \<and> snd (handle_frame example_host frame example_authenticated example_world) = Inr answer
    \<and> decode_frame answer = Inr p \<and> decode_response p = Inr r \<and> response_request_id r = 9"
proof -
  let ?frame = "le_bytes 4 (of_nat (length (wire_request (ReadRange 9 example_range_request))) :: u32)
     @ wire_request (ReadRange 9 example_range_request)"
  show ?thesis
    using every_frame_answered [OF example_contract(1,2), of ?frame example_authenticated example_world] example_decoded
    by fastforce
qed

section \<open>Reads\<close>

text \<open>
  C11. A range read that succeeds is delivered: for a request as it was decoded from the pipe, the
  response fits a frame and decodes at the client, carries the id of the request, and stays within
  the records and the evidence the request asked for.
\<close>

theorem range_read_delivered:
  assumes "decode_request payload = Inr (ReadRange i request)" and "filters_candidates host"
    and "execute_read_range host i key request deadline authenticated w = (w', Inr response)"
  shows "\<exists>r frame p. response = ReadRangeResponse i r
    \<and> encode_response_frame response = Inr frame \<and> decode_frame frame = Inr p \<and> decode_response p = Inr response
    \<and> length (xr_candidates r) \<le> unat (rj_max_records request)
    \<and> evidence_sum candidate_evidence_bytes (xr_candidates r) \<le> unat (rj_max_evidence_bytes request)"
  using execute_read_range_delivered [OF assms(2) received_if_decoded [OF assms(1)] assms(3)]
  unfolding delivered_def by blast

theorem range_read_delivered_witness:
  "\<exists>w' r frame. execute_read_range example_host 9 example_key example_range_request 100
      example_authenticated example_world = (w', Inr (ReadRangeResponse 9 r))
    \<and> encode_response_frame (ReadRangeResponse 9 r) = Inr frame \<and> length (xr_candidates r) \<le> 32"
proof -
  obtain w' response where x: "execute_read_range example_host 9 example_key example_range_request 100
      example_authenticated example_world = (w', Inr response)" using example_range_read by blast
  from range_read_delivered [OF example_decoded(1) example_contract(3) x] x show ?thesis
    by (auto simp: example_range_request_def)
qed



section \<open>The registry under the service\<close>


lemma example_interface: "uses_registry_interface example_host"
  by (simp add: uses_registry_interface_def keeps_def)

definition example_start :: "unit broker_world" where
  "example_start = \<lparr>bw_registry = registry_default, bw_now = 1, bw_bounded_steps = 0, bw_rest = ()\<rparr>"



lemma example_finish:
  "finish_request example_key 6 (fst (begin_execution example_key 5 example_registry)) =
    (\<lparr>rs_connections = [(replicate 16 1, example_connection\<lparr>cl_requests := []\<rparr>)]\<rparr>, Inr TerminalCompleted)"
  unfolding example_begin_execution
  by (simp add: finish_request_def with_connection_def connection_ref_def example_connection_def example_key_def Let_def)

lemma example_execution_key: "execution_key 9 (replicate 16 3) example_authenticated = example_key"
  by (simp add: execution_key_def example_authenticated_def example_key_def)

lemma example_begun:
  "on_registry example_host (begin_execution example_key) (example_world\<lparr>bw_registry := example_registry\<rparr>)
    = (example_world, Inr \<lparr>ar_request = AcceptedVolume example_volume_request, ar_deadline = 100\<rparr>)"
proof -
  have "begin_execution example_key 6 example_registry = begin_execution example_key 5 example_registry"
    unfolding example_begin_execution
    by (simp add: example_registry_eq example_connection_def begin_execution_def with_connection_def
        connection_ref_def example_key_def)
  then show ?thesis by (simp add: on_registry_def example_world_def example_begin_execution Let_def)
qed

lemma example_execution:
  "\<exists>w'. execute_accepted_read example_host 9 (replicate 16 3) example_authenticated
    (example_world\<lparr>bw_registry := example_registry\<rparr>) = (w', ReadVolumeResponse 9 example_volume_answer)"
proof -
  have "bw_registry (example_at n) = fst (begin_execution example_key 5 example_registry)" for n
    by (simp add: example_at_def example_world_def)
  then have "\<exists>w'. on_registry example_host (finish_request example_key) (example_at n) = (w', Inr TerminalCompleted)" for n
    by (simp add: on_registry_def example_finish Let_def)
  then obtain w' where f: "on_registry example_host (finish_request example_key) (example_at (Suc (Suc (Suc 0))))
      = (w', Inr TerminalCompleted)" by blast
  then show ?thesis
    by (simp add: execute_accepted_read_def example_execution_key example_begun execute_accepted_def
        example_volume_read execution_response_def Let_def)
qed


end
