(* ===== verification/Client_Service.thy ===== *)
theory Client_Service
  imports Broker_Client Volume_Read
begin

text \<open>
  The client and the service together: the responses of \<open>journal_broker/service.rs\<close> pass the checks of
  \<open>journal_broker/client.rs\<close> for the request they answer.
\<close>

section \<open>Range reads\<close>

lemma validate_binding_request:
  "validate_binding (binding_from_request caller root) (cc_client_instance caller) root = Inr ()"
  by (simp add: validate_binding_def binding_from_request_def)

lemma check_range_candidates_ok:
  assumes "sorted_wrt (\<lambda>a b. sint (bc_usn a) < sint (bc_usn b)) cs"
    and "\<forall>c \<in> set cs. sint (pe_expected_start self) \<le> sint (bc_usn c) \<and> sint (bc_usn c) < sint covered
      \<and> candidate_evidence_bytes c \<noteq> None"
    and "\<forall>c \<in> set cs. \<forall>p. previous = Some p \<longrightarrow> sint p < sint (bc_usn c)"
    and "evidence + evidence_sum candidate_evidence_bytes cs \<le> unat (pe_expected_max_evidence_bytes self)"
  shows "\<exists>s. fold_result (check_range_candidate self covered) cs (previous, evidence) = Inr s"
  using assms
proof (induction cs arbitrary: previous evidence)
  case (Cons c cs)
  then obtain n where n: "candidate_evidence_bytes c = Some n" by auto
  have "unat (pe_expected_max_evidence_bytes self) < 2 ^ 32"  by (rule order.strict_trans2 [OF unsigned_less]) simp
  then have "evidence + n < 2 ^ 64" "evidence + n \<le> unat (pe_expected_max_evidence_bytes self)"
    using Cons.prems(4) n by simp_all
  moreover have "\<not> (case previous of None \<Rightarrow> False | Some p \<Rightarrow> sint (bc_usn c) \<le> sint p)"
    using Cons.prems(3) by (auto split: option.split)
  ultimately have "check_range_candidate self covered c (previous, evidence) = Inr (Some (bc_usn c), evidence + n)"
    using Cons.prems(2) n by (auto simp: check_range_candidate_def checked_add_def)
  with Cons n show ?case by simp
qed simp

lemma range_read_accepted_by_client:
  assumes "received (ReadRange i request)" and "filters_candidates host"
    and "execute_read_range host i key request deadline authenticated w = (w', Inr response)"
  shows "check_range (expect_range request) response = Inr response"
proof -
  note d = execute_read_range_delivered [OF assms(2,1,3)]
  obtain r where r: "response = ReadRangeResponse i r"
    and f: "xr_binding r = binding_from_request (rj_caller request) (rj_root request)"
      "xr_journal_id r = rj_journal_id request" "xr_requested_start_usn r = rj_start_usn request"
      "xr_requested_end_usn r = rj_end_usn request" "xr_max_records r = rj_max_records request"
      "xr_max_evidence_bytes r = rj_max_evidence_bytes request"
    by (rule execute_read_rangeE [OF assms(3)]) simp
  from d r have lim: "length (xr_candidates r) \<le> unat (rj_max_records request)"
    "evidence_sum candidate_evidence_bytes (xr_candidates r) \<le> unat (rj_max_evidence_bytes request)" by auto
  from d r obtain p where "decode_response p = Inr (ReadRangeResponse i r)" by (auto simp: delivered_def)
  from decode_response_sound [OF this] have ok: "ok_range_response r" and v: "validate_read_range_response r = Inr ()"
    by (auto simp: validate_response_def split: if_splits)
  from v obtain l where "fold_result (candidate_usn_step (rj_start_usn request) (xr_covered_until_usn r))
      (xr_candidates r) None = Inr l" and cov: "sint (rj_start_usn request) < sint (xr_covered_until_usn r)"
      "sint (xr_covered_until_usn r) \<le> sint (rj_end_usn request)"
      "xr_is_complete r = (xr_covered_until_usn r = rj_end_usn request)"
    by (auto simp: validate_read_range_response_def bind_result_eq_Inr f split: if_splits)
  then have c: "sorted_wrt (\<lambda>a b. sint (bc_usn a) < sint (bc_usn b)) (xr_candidates r)"
    "\<forall>c \<in> set (xr_candidates r). sint (rj_start_usn request) \<le> sint (bc_usn c)
       \<and> sint (bc_usn c) < sint (xr_covered_until_usn r)"
    by (auto simp: candidate_usns_fold)
  have e: "\<forall>c \<in> set (xr_candidates r). candidate_evidence_bytes c \<noteq> None"
    using ok unfolding ok_range_response_def count_candidates_eq_Inr by blast
  obtain s where "fold_result (check_range_candidate (expect_range request) (xr_covered_until_usn r))
      (xr_candidates r) (None, 0) = Inr s"
    using check_range_candidates_ok [OF c(1), of "expect_range request" "xr_covered_until_usn r" None 0] c(2) e lim
    by (auto simp: expect_range_def)
  with f cov lim show ?thesis
    by (simp add: r expect_range_def validate_binding_request)
qed

section \<open>Volume reads\<close>

lemma find_unique:
  assumes "x \<in> set xs" and "P x" and "\<And>y. y \<in> set xs \<Longrightarrow> P y \<Longrightarrow> y = x"
  shows "List.find P xs = Some x"
proof (cases "List.find P xs")
  case None
  with assms(1,2) show ?thesis by (auto simp: find_None_iff)
next
  case (Some y)
  with find_SomeD [OF this] assms(3) show ?thesis by metis
qed

lemma check_outcomes_ok:
  assumes "length outcomes = length roots"
    and "\<forall>k < length roots. validate_binding (so_binding (outcomes ! k)) client (fst (roots ! k)) = Inr ()
      \<and> so_requested_start_usn (outcomes ! k) = snd (roots ! k)"
  shows "check_outcomes client (zip outcomes roots) = Inr ()"
  using assms
proof (induction outcomes roots rule: list_induct2)
  case (Cons x xs y ys)
  from Cons.prems [rule_format, of 0] have "validate_binding (so_binding x) client (fst y) = Inr ()"
    "so_requested_start_usn x = snd y" by simp_all
  moreover have "check_outcomes client (zip xs ys) = Inr ()"
    by (rule Cons.IH) (use Cons.prems in fastforce)
  ultimately show ?case by (cases y) simp
qed simp

text \<open>What the outcomes of a sound response say of the roots, in the order of the request.\<close>

lemma sound_outcomes:
  assumes "volume_sound request outcomes handoffs pendings"
  shows "length outcomes = length (rv_roots request)"
    and "k < length (rv_roots request) \<Longrightarrow>
      so_binding (outcomes ! k) = binding_from_request (rv_caller request) (sr_root (requested_root request k))
      \<and> so_requested_start_usn (outcomes ! k) = sr_start_usn (requested_root request k)"
  using assms by (auto simp: volume_sound_def outcome_for_def Let_def)

lemma check_endpoint_ok:
  assumes "received (ReadVolume i request)" and "volume_sound request outcomes handoffs pendings"
    and "endpoint_covered outcomes usn b" and "rb_client_instance b = cc_client_instance (rv_caller request)"
    and "rb_volume_id b = ra_volume_id (sr_root (hd (rv_roots request)))"
  shows "check_endpoint (expect_volume request) (cc_client_instance (rv_caller request)) outcomes usn b = Inr ()"
proof -
  note out = sound_outcomes [OF assms(2)]
  from assms(3) obtain x c where x: "x \<in> set outcomes" "same_endpoint b x" "so_failure x = None"
    "so_covered_until_usn x = Some c" "sint (so_requested_start_usn x) \<le> sint usn" "sint usn < sint c"
    by (auto simp: endpoint_covered_def)
  from x(1) obtain k where k: "k < length (rv_roots request)" "x = outcomes ! k"
    using out(1) by (metis in_set_conv_nth)
  let ?root = "sr_root (requested_root request k)" and ?start = "sr_start_usn (requested_root request k)"
  have bx: "so_binding x = binding_from_request (rv_caller request) ?root" "so_requested_start_usn x = ?start"
    using out(2) [OF k(1)] k(2) by simp_all
  have key: "ra_root_id ?root = rb_root_id b" "ra_root_generation ?root = rb_root_generation b"
    using x(2) bx(1) by (auto simp: same_endpoint_def binding_from_request_def)
  have vol: "ra_volume_id ?root = rb_volume_id b" using received_root(1) [OF assms(1) k(1)] assms(5) by simp
  have "List.find (\<lambda>(root, _). ra_root_id root = rb_root_id b \<and> ra_root_generation root = rb_root_generation b
      \<and> ra_volume_id root = rb_volume_id b) (pv_expected_roots (expect_volume request)) = Some (?root, ?start)"
  proof (rule find_unique)
    show "(?root, ?start) \<in> set (pv_expected_roots (expect_volume request))"
      using nth_mem [OF k(1)] by (auto simp: expect_volume_def)
    fix y assume y: "y \<in> set (pv_expected_roots (expect_volume request))"
      "case y of (root, _) \<Rightarrow> ra_root_id root = rb_root_id b \<and> ra_root_generation root = rb_root_generation b
        \<and> ra_volume_id root = rb_volume_id b"
    then obtain j where j: "j < length (rv_roots request)"
      "y = (sr_root (requested_root request j), sr_start_usn (requested_root request j))"
      by (auto simp: expect_volume_def in_set_conv_nth)
    with y(2) key received_keys [OF assms(1) j(1) k(1)] show "y = (?root, ?start)" by simp
  qed (use key vol in simp)
  moreover have "List.find (\<lambda>outcome. rb_root_id (so_binding outcome) = rb_root_id b
      \<and> rb_root_generation (so_binding outcome) = rb_root_generation b) outcomes = Some x"
  proof (rule find_unique [OF x(1)])
    show "rb_root_id (so_binding x) = rb_root_id b \<and> rb_root_generation (so_binding x) = rb_root_generation b"
      using bx(1) key by (simp add: binding_from_request_def)
    fix y assume y: "y \<in> set outcomes" "rb_root_id (so_binding y) = rb_root_id b
      \<and> rb_root_generation (so_binding y) = rb_root_generation b"
    then obtain j where j: "j < length (rv_roots request)" "y = outcomes ! j"
      using out(1) by (metis in_set_conv_nth)
    with y(2) key out(2) [OF j(1)] received_keys [OF assms(1) j(1) k(1)] k(2) show "y = x"
      by (simp add: binding_from_request_def)
  qed
  ultimately show ?thesis
    using x bx key vol assms(4) by (simp add: check_endpoint_def validate_binding_def)
qed

lemma received_carry_unique:
  assumes "received (ReadVolume i request)" and "p \<in> set (rv_pending_renames request)"
    and "q \<in> set (rv_pending_renames request)" and "pr_carry_id q = pr_carry_id p"
  shows "q = p"
proof -
  have "distinct (map pr_carry_id (rv_pending_renames request))"
    using received_volume(2) [OF assms(1)] unfolding read_journal_volume_validate_eq_Inr by blast
  with assms(2-4) show ?thesis by (metis distinct_map inj_onD)
qed

lemma check_carry_ok:
  assumes "received (ReadVolume i request)" and "sh_previous_carry_id h = Some c" and "c \<notin> consumed"
    and "\<exists>p \<in> set (rv_pending_renames request). pr_carry_id p = c
      \<and> sh_previous_binding h = binding_from_request (rv_caller request) (pr_root p)
      \<and> sh_file_reference h = pr_file_reference p
      \<and> sh_previous_relative_path h = pr_previous_relative_path p
      \<and> sh_is_directory h = pr_is_directory p \<and> sint (pr_old_usn p) < sint (sh_usn h)"
  shows "check_carry (expect_volume request) (cc_client_instance (rv_caller request)) h consumed
    = Inr (insert c consumed)"
proof -
  from assms(4) obtain p where p: "p \<in> set (rv_pending_renames request)" "pr_carry_id p = c"
    "sh_previous_binding h = binding_from_request (rv_caller request) (pr_root p)"
    "sh_file_reference h = pr_file_reference p" "sh_previous_relative_path h = pr_previous_relative_path p"
    "sh_is_directory h = pr_is_directory p" "sint (pr_old_usn p) < sint (sh_usn h)" by blast
  have "List.find (\<lambda>pending. pr_carry_id pending = c) (rv_pending_renames request) = Some p"
    by (rule find_unique [OF p(1)]) (use p(2) received_carry_unique [OF assms(1) p(1)] in simp_all)
  then show ?thesis
    using assms(2,3) p by (simp add: check_carry_def expect_volume_def validate_binding_request)
qed

lemma each_result_ok: "(\<And>x. x \<in> set xs \<Longrightarrow> f x = Inr ()) \<Longrightarrow> each_result f xs = Inr ()"
  by (induction xs) simp_all

lemma check_handoffs_ok:
  assumes "received (ReadVolume i request)"
    and "\<And>h b. h \<in> set hs \<Longrightarrow> b \<in> set (handoff_endpoints h) \<Longrightarrow>
      check_endpoint (expect_volume request) (cc_client_instance (rv_caller request)) outcomes (sh_usn h) b = Inr ()"
    and "carries_sound request hs" and "set (List.map_filter sh_previous_carry_id hs) \<inter> consumed = {}"
  shows "\<exists>s. fold_result (check_handoff (expect_volume request) (cc_client_instance (rv_caller request)) outcomes)
    hs consumed = Inr s"
  using assms(2-4)
proof (induction hs arbitrary: consumed)
  case (Cons h hs)
  have ends: "each_result (check_endpoint (expect_volume request) (cc_client_instance (rv_caller request)) outcomes
      (sh_usn h)) (handoff_endpoints h) = Inr ()"
    by (rule each_result_ok) (use Cons.prems(1) in simp)
  have tail: "carries_sound request hs"
    using Cons.prems(2) by (auto simp: carries_sound_def split: option.splits)
  show ?case
  proof (cases "sh_previous_carry_id h")
    case None
    then have "check_handoff (expect_volume request) (cc_client_instance (rv_caller request)) outcomes h consumed
        = Inr consumed"
      using ends by (simp add: check_handoff_def check_carry_def handoff_endpoints_def)
    with Cons.IH [OF Cons.prems(1) tail] Cons.prems(3) None show ?thesis by simp
  next
    case (Some c)
    have "check_carry (expect_volume request) (cc_client_instance (rv_caller request)) h consumed
        = Inr (insert c consumed)"
      by (rule check_carry_ok [OF assms(1) Some])
        (use Cons.prems(2,3) Some in \<open>simp_all add: carries_sound_def\<close>)
    then have step: "check_handoff (expect_volume request) (cc_client_instance (rv_caller request)) outcomes h consumed
        = Inr (insert c consumed)"
      using ends Some by (simp add: check_handoff_def handoff_endpoints_def)
    have "set (List.map_filter sh_previous_carry_id hs) \<inter> insert c consumed = {}"
      using Cons.prems(2,3) Some by (auto simp: carries_sound_def)
    from Cons.IH [OF Cons.prems(1) tail this] step show ?thesis by simp
  qed
qed simp

lemma volume_sound_accepted:
  assumes "received (ReadVolume i request)" and "volume_sound request outcomes handoffs pendings"
  shows "check_volume (expect_volume request)
      (ReadVolumeResponse i (volume_response_of request outcomes handoffs pendings))
    = Inr (ReadVolumeResponse i (volume_response_of request outcomes handoffs pendings))"
proof -
  let ?client = "cc_client_instance (rv_caller request)"
  note out = sound_outcomes [OF assms(2)] and covered = check_endpoint_ok [OF assms]
  obtain root rest where roots: "rv_roots request = root # rest" using received_limits(4) [OF assms(1)]
    by (cases "rv_roots request") auto
  have s: "\<forall>h \<in> set handoffs. handoff_validate h ?client (ra_volume_id (sr_root root)) (rv_end_usn request) = Inr ()
        \<and> (\<forall>b \<in> set (handoff_endpoints h). endpoint_covered outcomes (sh_usn h) b)"
      "\<forall>p \<in> set pendings. pending_rename_validate p ?client (ra_volume_id (sr_root root)) (rv_end_usn request) = Inr ()
        \<and> endpoint_covered outcomes (sp_old_usn p) (sp_binding p)"
      "carries_sound request handoffs"
    using assms(2) by (simp_all add: volume_sound_def Let_def roots)
  have "check_outcomes ?client (zip outcomes (pv_expected_roots (expect_volume request))) = Inr ()"
    by (rule check_outcomes_ok)
      (use out in \<open>simp_all add: expect_volume_def validate_binding_request\<close>)
  moreover have "each_result (\<lambda>pending. check_endpoint (expect_volume request) ?client outcomes
      (sp_old_usn pending) (sp_binding pending)) pendings = Inr ()"
    by (rule each_result_ok) (use s(2) covered in \<open>simp add: pending_rename_validate_eq_Inr roots\<close>)
  moreover have "\<exists>t. fold_result (check_handoff (expect_volume request) ?client outcomes) handoffs {} = Inr t"
  proof (rule check_handoffs_ok [OF assms(1) _ s(3)])
    fix h b assume h: "h \<in> set handoffs" "b \<in> set (handoff_endpoints h)"
    with s(1) have "rb_client_instance b = ?client" "rb_volume_id b = ra_volume_id (sr_root root)"
      by (auto simp: handoff_validate_eq_Inr handoff_endpoints_def split: if_splits)
    with covered h s(1) show "check_endpoint (expect_volume request) ?client outcomes (sh_usn h) b = Inr ()"
      by (simp add: roots)
  qed simp
  ultimately show ?thesis
    using out(1) by (auto simp: volume_response_of_def expect_volume_def roots)
qed

lemma volume_read_accepted_by_client:
  assumes "received (ReadVolume i request)" and "filters_candidates host" and "reports_barriers host"
    and "consistent_roots request"
    and "execute_read_volume host i key request deadline authenticated w = (w', Inr response)"
  shows "check_volume (expect_volume request) response = Inr response"
  using execute_read_volume_sound [OF assms] volume_sound_accepted [OF assms(1)] by metis

end
