(* ===== verification/Client_Properties.thy ===== *)
theory Client_Properties
  imports Service_Properties Client_Service
begin

text \<open>
  A client and the service, over the pipe between them: what the client sends is answered in a way
  the client accepts, what a read returns is what the client asked for, and what the client accepts
  is bound to its request even when the peer is not this service.
\<close>

section \<open>Requests\<close>

fun request_client_instance :: "broker_request \<Rightarrow> bytes" where
  "request_client_instance (RegisterRoot _ request) = cc_client_instance (rg_caller request)"
| "request_client_instance (QueryJournal _ request) = cc_client_instance (qj_caller request)"
| "request_client_instance (ReadRange _ request) = cc_client_instance (rj_caller request)"
| "request_client_instance (ReadVolume _ request) = cc_client_instance (rv_caller request)"
| "request_client_instance (Cancel _ caller _) = cc_client_instance caller"

text \<open>The checks of the operation that sent the request.\<close>

fun accepts_reply :: "broker_request \<Rightarrow> broker_response \<Rightarrow> bool" where
  "accepts_reply (RegisterRoot _ request) r =
     (\<exists>capability. check_registered (cc_client_instance (rg_caller request)) (rg_root request) r = Inr capability)"
| "accepts_reply (QueryJournal _ request) r =
     (check_journal (cc_client_instance (qj_caller request)) (qj_root request) r = Inr r)"
| "accepts_reply (ReadRange _ request) r = (check_range_accepted (expect_range request) r = Inr ())"
| "accepts_reply (ReadVolume _ request) r = (check_volume_accepted request r = Inr ())"
| "accepts_reply (Cancel _ caller target) r = (check_cancelled caller target r = Inr ())"

text \<open>The error of the client for a failure the service reports.\<close>

definition reported_failure :: "broker_failure_code \<Rightarrow> broker_client_error" where
  "reported_failure code = (case code of
     ProtocolMismatch \<Rightarrow> ClientProtocolMismatch | MalformedFrame \<Rightarrow> MalformedResponse
   | Cancelled \<Rightarrow> ClientCancelled | RequestNotActive \<Rightarrow> ClientRequestNotActive
   | _ \<Rightarrow> Remote (BrokerFailure code))"

lemma receive_failure:
  assumes "answers i (failure_response i (Some c) code)" and "i \<noteq> 0"
    and "encode_response_frame (failure_response i (Some c) code) = Inr frame"
  shows "receive_frame i c frame = Inl (reported_failure code)"
proof -
  from assms(1,3) obtain p where "decode_frame frame = Inr p"
    "decode_response p = Inr (FailureResponse i (Some c) (BrokerFailure code))"
    by (auto simp: answers_def delivered_def failure_response_def)
  with assms(2) show ?thesis
    by (simp add: receive_frame_def client_failure_def reported_failure_def split: broker_failure_code.split)
qed

lemma receive_frame_InrD:
  assumes "receive_frame i c frame = Inr r"
  shows "\<exists>p. decode_frame frame = Inr p \<and> decode_response p = Inr r \<and> response_request_id r = i"
proof -
  from assms obtain p r' where "decode_frame frame = Inr p" "decode_response p = Inr r'"
    "(case r' of FailureResponse returned_id client_instance failure \<Rightarrow>
         Inl (client_failure i c returned_id client_instance failure)
       | _ \<Rightarrow> if response_request_id r' \<noteq> i then Inl RequestMismatch else Inr r') = Inr r"
    by (auto simp: receive_frame_def bind_result_eq_Inr map_err_eq_Inr)
  then show ?thesis by (cases r') (auto split: if_splits)
qed

lemma receive_answer:
  assumes "answers i r" and "encode_response_frame r = Inr frame" and "\<nexists>j c f. r = FailureResponse j c f"
  shows "receive_frame i c frame = Inr r"
proof -
  from assms(1,2) obtain p where "decode_frame frame = Inr p" "decode_response p = Inr r" "response_request_id r = i"
    by (auto simp: answers_def delivered_def)
  with assms(3) show ?thesis by (cases r) (auto simp: receive_frame_def)
qed

text \<open>What a handler returns when it succeeds passes the checks of the client.\<close>

lemma register_root_accepted:
  assumes "register_root host i request authenticated w = (w', Inr r)"
  shows "accepts_reply (RegisterRoot i request) r \<and> (\<nexists>j c f. r = FailureResponse j c f)"
proof -
  from assms obtain capability where "root_capability_validate capability = Inr ()"
    "r = RootRegistered i (binding_from_request (rg_caller request) (rg_root request)) capability"
    by (force simp: register_root_def register_root_body_def bind_stateful_eq_Inr stateful_eq_Inr
        map_err_eq_Inr dest!: finish_with_Inr)
  then show ?thesis by (simp add: validate_binding_request)
qed

lemma query_journal_accepted:
  assumes "query_journal host i request authenticated w = (w', Inr r)"
  shows "accepts_reply (QueryJournal i request) r \<and> (\<nexists>j c f. r = FailureResponse j c f)"
proof -
  from assms obtain journal where
    "journal_response_of i (binding_from_request (qj_caller request) (qj_root request)) journal = Inr r"
    by (force simp: query_journal_def query_journal_body_def bind_stateful_eq_Inr stateful_eq_Inr
        dest!: finish_with_Inr)
  then show ?thesis
    by (cases journal) (auto simp: journal_response_of_def bind_result_eq_Inr validate_binding_request)
qed

lemma accept_read_range_accepted:
  assumes "accept_read_range host i request authenticated w = (w', Inr r)"
  shows "accepts_reply (ReadRange i request) r \<and> (\<nexists>j c f. r = FailureResponse j c f)"
proof -
  from assms have "r = ReadRangeAccepted i
       \<lparr>xa_binding = binding_from_request (rj_caller request) (rj_root request),
        xa_journal_id = rj_journal_id request, xa_requested_start_usn = rj_start_usn request,
        xa_requested_end_usn = rj_end_usn request, xa_max_records = rj_max_records request,
        xa_max_evidence_bytes = rj_max_evidence_bytes request\<rparr>"
    unfolding accept_read_range_def Let_def bind_stateful_eq_Inr stateful_eq_Inr by blast
  then show ?thesis by (simp add: expect_range_def validate_binding_request)
qed

lemma accept_read_volume_accepted:
  assumes "received (ReadVolume i request)"
    and "accept_read_volume host i request authenticated w = (w', Inr r)"
  shows "accepts_reply (ReadVolume i request) r \<and> (\<nexists>j c f. r = FailureResponse j c f)"
proof -
  have "unat (of_nat (length (rv_roots request)) :: u8) = length (rv_roots request)"
    using received_limits(5) [OF assms(1)] by (simp add: unat_of_nat wire_limits)
  with assms(2) show ?thesis
    unfolding accept_read_volume_def Let_def bind_stateful_eq_Inr stateful_eq_Inr by auto
qed

lemma cancel_accepted:
  assumes "verifies_claims host" and "cancel host i claim target authenticated w = (w', Inr r)"
  shows "accepts_reply (Cancel i claim target) r \<and> (\<nexists>j c f. r = FailureResponse j c f)"
proof -
  from assms(2) obtain caller w1 where
    c: "ht_verify_claim host authenticated claim w = (w1, Inr caller)"
    and r: "r = CancelledResponse i (ca_client_instance caller) target"
    unfolding cancel_def verify_caller_def bind_stateful_eq_Inr stateful_eq_Inr bind_result_eq_Inr
    by auto
  from assms(1) c have "from_verified_claim authenticated claim = Inr caller"
    by (auto simp: verifies_claims_def)
  then show ?thesis by (auto simp: r from_verified_claim_def split: if_splits)
qed

lemma or_failure_either:
  assumes "\<And>w' r. handler w = (w', Inr r) \<Longrightarrow> Q r"
  shows "Q (snd (or_failure i c handler w)) \<or> (\<exists>code. snd (or_failure i c handler w) = failure_response i (Some c) code)"
proof (cases "handler w")
  case (Pair w' r)
  with assms show ?thesis by (cases r) (auto simp: or_failure_def)
qed

lemma handle_request_accepted:
  assumes "received request" and "verifies_claims host"
  shows "(accepts_reply request (snd (handle_request host request authenticated w))
      \<and> (\<nexists>j c f. snd (handle_request host request authenticated w) = FailureResponse j c f))
    \<or> (\<exists>code. snd (handle_request host request authenticated w)
         = failure_response (request_request_id request) (Some (request_client_instance request)) code)"
proof -
  note either = or_failure_either [where Q = "\<lambda>r. accepts_reply request r \<and> (\<nexists>j c f. r = FailureResponse j c f)"]
  show ?thesis
  proof (cases request)
    case (RegisterRoot i g)
    show ?thesis unfolding RegisterRoot handle_request.simps request_request_id.simps request_client_instance.simps
      by (rule either [unfolded RegisterRoot]) (rule register_root_accepted)
  next
    case (QueryJournal i q)
    show ?thesis unfolding QueryJournal handle_request.simps request_request_id.simps request_client_instance.simps
      by (rule either [unfolded QueryJournal]) (rule query_journal_accepted)
  next
    case (ReadRange i q)
    show ?thesis unfolding ReadRange handle_request.simps request_request_id.simps request_client_instance.simps
      by (rule either [unfolded ReadRange]) (rule accept_read_range_accepted)
  next
    case (ReadVolume i q)
    show ?thesis unfolding ReadVolume handle_request.simps request_request_id.simps request_client_instance.simps
      by (rule either [unfolded ReadVolume]) (rule accept_read_volume_accepted [OF assms(1) [unfolded ReadVolume]])
  next
    case (Cancel i c t)
    show ?thesis unfolding Cancel handle_request.simps request_request_id.simps request_client_instance.simps
      by (rule either [unfolded Cancel]) (rule cancel_accepted [OF assms(2)])
  qed
qed

lemma request_frame_received:
  assumes "wf_request request" and "request_frame request = Inr frame"
  shows "\<exists>p. decode_frame frame = Inr p \<and> decode_request p = Inr request"
proof -
  from assms(2) obtain p where p: "encode_request request = Inr p" "encode_frame p = Inr frame"
    by (auto simp: request_frame_def bind_result_eq_Inr map_err_eq_Inr)
  then have "fits p" by (auto simp: encode_frame_eq_Inr fits_def MAX_FRAME_BYTES_def)
  with p assms(1) show ?thesis by (auto simp: decode_frame_iff_encode_frame decode_request_iff)
qed


lemma example_request_frame:
  "request_frame (ReadRange 9 example_range_request) =
     Inr (le_bytes 4 (of_nat (length (wire_request (ReadRange 9 example_range_request))) :: u32)
       @ wire_request (ReadRange 9 example_range_request))"
proof -
  have "ok_request (ReadRange 9 example_range_request)" "validate_request (ReadRange 9 example_range_request) = Inr ()"
    using example_received(2) ok_request_if_valid unfolding received_def by blast+
  then have "encode_request (ReadRange 9 example_range_request) = Inr (wire_request (ReadRange 9 example_range_request))"
    by (simp add: encode_request_ok)
  moreover have "encode_frame (wire_request (ReadRange 9 example_range_request)) =
     Inr (le_bytes 4 (of_nat (length (wire_request (ReadRange 9 example_range_request))) :: u32)
       @ wire_request (ReadRange 9 example_range_request))"
    using example_decoded(3) by (simp add: decode_frame_iff_encode_frame)
  ultimately show ?thesis by (simp add: request_frame_def)
qed


section \<open>Reads\<close>

text \<open>What the service accepted for this client under this id, as it came over the pipe.\<close>

definition accepted_from :: "u64 \<Rightarrow> bytes \<Rightarrow> accepted_journal_read \<Rightarrow> bool" where
  "accepted_from i client read = (case read of
     AcceptedRoot request \<Rightarrow> received (ReadRange i request) \<and> cc_client_instance (rj_caller request) = client
   | AcceptedVolume request \<Rightarrow> received (ReadVolume i request) \<and> cc_client_instance (rv_caller request) = client
       \<and> consistent_roots request)"

definition accepts_terminal :: "accepted_journal_read \<Rightarrow> broker_response \<Rightarrow> bool" where
  "accepts_terminal read r = (case read of
     AcceptedRoot request \<Rightarrow> check_range (expect_range request) r = Inr r
   | AcceptedVolume request \<Rightarrow> check_volume (expect_volume request) r = Inr r)"

lemma accepted_from_client:
  assumes "accepted_from i client read"
  shows "i \<noteq> 0" and "length client = 16" and "\<not> all_zero client"
proof -
  have "i \<noteq> 0 \<and> length client = 16 \<and> \<not> all_zero client"
  proof (cases read)
    case (AcceptedRoot request)
    with assms show ?thesis using accepted_caller [of "rj_caller request"]
      by (auto simp: accepted_from_def received_def read_journal_range_validate_def bind_result_eq_Inr)
  next
    case (AcceptedVolume request)
    with assms show ?thesis
      using accepted_caller [of "rv_caller request"] received_volume(1,3,4) [of i request]
      by (auto simp: accepted_from_def)
  qed
  then show "i \<noteq> 0" "length client = 16" "\<not> all_zero client" by simp_all
qed

lemma executed_frame_decodes:
  assumes "accepted_from i client (ar_request accepted)" and "filters_candidates host" and "reports_barriers host"
    and "execute_accepted host i key accepted authenticated w = (w', Inr r)"
    and "encode_response_frame r = Inr frame"
  shows "receive_frame i client frame = Inr r \<and> accepts_terminal (ar_request accepted) r"
proof (cases "ar_request accepted")
  case (AcceptedRoot request)
  with assms(1,4) have req: "received (ReadRange i request)"
    "execute_read_range host i key request (ar_deadline accepted) authenticated w = (w', Inr r)"
    by (simp_all add: accepted_from_def execute_accepted_def)
  from execute_read_range_delivered [OF assms(2) req] have "answers i r" "\<nexists>j c f. r = FailureResponse j c f"
    by (auto simp: answers_def)
  from receive_answer [OF this(1) assms(5) this(2)] range_read_accepted_by_client [OF req(1) assms(2) req(2)]
  show ?thesis by (simp add: AcceptedRoot accepts_terminal_def)
next
  case (AcceptedVolume request)
  with assms(1,4) have req: "received (ReadVolume i request)" "consistent_roots request"
    "execute_read_volume host i key request (ar_deadline accepted) authenticated w = (w', Inr r)"
    by (simp_all add: accepted_from_def execute_accepted_def)
  obtain outcomes handoffs pendings where
    r: "r = ReadVolumeResponse i (volume_response_of request outcomes handoffs pendings)"
    and sound: "volume_sound request outcomes handoffs pendings"
    and limits: "validate_shared_response_limits outcomes handoffs pendings (unat (rv_max_records request))
      (unat (rv_max_evidence_bytes request)) = Inr ()"
    by (rule execute_read_volume_sound [OF req(1) assms(2,3) req(2,3)])
  have "wf_response r" "validate_response r = Inr ()"
    using volume_response_valid [OF req(1) sound limits] by (simp_all add: r)
  from framed_response_decodes [OF this _ assms(5)] obtain p where
    "decode_frame frame = Inr p" "decode_response p = Inr r" by (auto simp: r)
  then have "receive_frame i client frame = Inr r" by (simp add: receive_frame_def r)
  with volume_sound_accepted [OF req(1) sound] show ?thesis by (simp add: AcceptedVolume accepts_terminal_def r)
qed


lemma example_answer_frame:
  "\<exists>frame. encode_response_frame (ReadVolumeResponse 9 example_volume_answer) = Inr frame"
proof -
  let ?r = "ReadVolumeResponse 9 example_volume_answer"
  have v: "wf_response ?r" "validate_response ?r = Inr ()" by code_simp+
  have "compact_response example_volume_answer" by code_simp
  with v have "length (wire_response ?r) \<le> MAX_FRAME_BYTES"
    by (intro compact_response_fits) (auto simp: validate_response_def split: if_splits)
  with v have "delivered ?r" by (intro deliveredI) simp_all
  then show ?thesis by (auto simp: delivered_def)
qed

lemma example_accepted: "accepted_from 9 (replicate 16 3) (AcceptedVolume example_volume_request)"
  using example_received(1) example_contract(5)
  by (simp add: accepted_from_def example_volume_request_def example_caller_def)

lemma example_executed_frame:
  "\<exists>w' frame. execute_accepted_read_frame example_host 9 (replicate 16 3) example_authenticated
      (example_world\<lparr>bw_registry := example_registry\<rparr>) = (w', Inr frame)
    \<and> encode_response_frame (ReadVolumeResponse 9 example_volume_answer) = Inr frame"
  using example_execution example_answer_frame by (auto simp: execute_accepted_read_frame_def)

lemma example_client_instance: "cc_client_instance (rv_caller example_volume_request) = replicate 16 3"
  by (simp add: example_volume_request_def example_caller_def)

lemma example_answered:
  "\<exists>frame. receive_frame 9 (replicate 16 3) frame = Inr (ReadVolumeResponse 9 example_volume_answer)"
  "check_volume (expect_volume example_volume_request) (ReadVolumeResponse 9 example_volume_answer)
    = Inr (ReadVolumeResponse 9 example_volume_answer)"
proof -
  let ?r = "ReadVolumeResponse 9 example_volume_answer"
  obtain frame where frame: "encode_response_frame ?r = Inr frame" using example_answer_frame by blast
  have "execute_accepted example_host 9 example_key
      \<lparr>ar_request = AcceptedVolume example_volume_request, ar_deadline = 100\<rparr> example_authenticated example_world
    = (example_at (Suc (Suc (Suc 0))), Inr ?r)" by (simp add: execute_accepted_def example_volume_read)
  from executed_frame_decodes [OF _ example_contract(3,4) this frame, of "replicate 16 3"] example_accepted
  show "\<exists>frame. receive_frame 9 (replicate 16 3) frame = Inr ?r"
    "check_volume (expect_volume example_volume_request) ?r = Inr ?r" by (auto simp: accepts_terminal_def)
qed


text \<open>The checks of the client, read backwards.\<close>

lemma validate_binding_InrD:
  "validate_binding b (cc_client_instance caller) root = Inr () \<Longrightarrow> b = binding_from_request caller root"
  by (auto simp: validate_binding_def binding_from_request_def split: if_splits)

lemma check_outcomes_InrD:
  assumes "check_outcomes (cc_client_instance caller) (zip outcomes (map (\<lambda>s. (f s, g s)) roots)) = Inr ()"
    and "length outcomes = length roots"
  shows "map so_binding outcomes = map (\<lambda>s. binding_from_request caller (f s)) roots
    \<and> map so_requested_start_usn outcomes = map g roots"
  using assms(2,1)
  by (induction outcomes roots rule: list_induct2)
    (auto simp: bind_result_eq_Inr dest: validate_binding_InrD split: if_splits)

lemma check_carry_InrD:
  assumes "check_carry (expect_volume request) (cc_client_instance (rv_caller request)) h consumed = Inr consumed'"
    and "sh_previous_carry_id h = Some c"
  shows "c \<notin> consumed \<and> consumed' = insert c consumed
    \<and> (\<exists>p \<in> set (rv_pending_renames request). pr_carry_id p = c
      \<and> sh_previous_binding h = binding_from_request (rv_caller request) (pr_root p)
      \<and> sh_file_reference h = pr_file_reference p
      \<and> sh_previous_relative_path h = pr_previous_relative_path p
      \<and> sh_is_directory h = pr_is_directory p \<and> sint (pr_old_usn p) < sint (sh_usn h))"
proof -
  from assms obtain p where p: "List.find (\<lambda>p. pr_carry_id p = c) (rv_pending_renames request) = Some p"
    and "c \<notin> consumed" "consumed' = insert c consumed"
      "validate_binding (sh_previous_binding h) (cc_client_instance (rv_caller request)) (pr_root p) = Inr ()"
      "sh_file_reference h = pr_file_reference p" "sh_previous_relative_path h = pr_previous_relative_path p"
      "sh_is_directory h = pr_is_directory p" "\<not> sint (sh_usn h) \<le> sint (pr_old_usn p)"
    by (auto simp: check_carry_def expect_volume_def bind_result_eq_Inr split: if_splits option.splits)
  with find_SomeD [OF p] validate_binding_InrD show ?thesis by (auto simp: not_le)
qed

lemma check_handoff_InrD:
  "check_handoff self client outcomes h consumed = Inr consumed' \<Longrightarrow> check_carry self client h consumed = Inr consumed'"
  by (auto simp: check_handoff_def bind_result_eq_Inr)

lemma check_handoffs_InrD:
  assumes "fold_result (check_handoff (expect_volume request) (cc_client_instance (rv_caller request)) outcomes)
    hs consumed = Inr s"
  shows "carries_sound request hs \<and> set (List.map_filter sh_previous_carry_id hs) \<inter> consumed = {}"
  using assms
proof (induction hs arbitrary: consumed)
  case (Cons h hs)
  then obtain consumed' where
    c: "check_carry (expect_volume request) (cc_client_instance (rv_caller request)) h consumed = Inr consumed'"
    and rest: "fold_result (check_handoff (expect_volume request) (cc_client_instance (rv_caller request)) outcomes)
      hs consumed' = Inr s"
    by (auto simp: bind_result_eq_Inr dest: check_handoff_InrD)
  note IH = Cons.IH [OF rest]
  show ?case
  proof (cases "sh_previous_carry_id h")
    case None
    with c IH show ?thesis by (auto simp: check_carry_def carries_sound_def)
  next
    case (Some x)
    note carry = check_carry_InrD [OF c Some]
    then have "set (List.map_filter sh_previous_carry_id hs) \<inter> insert x consumed = {}" using IH by simp
    with Some carry IH show ?thesis by (auto simp: carries_sound_def)
  qed
qed (simp add: carries_sound_def)

text \<open>
  C3. A client believes no more than its request allows, whoever is at the other end of the pipe:
  a volume response it accepts carries the id of its request, answers exactly the roots it asked
  for, in order and from their checkpoints, on their volume and journal, keeps the promises of the
  protocol about coverage, moves and limits, and ends each carried rename at most once and only as
  the client carried it.
\<close>

theorem client_accepts_only_its_read:
  assumes "receive_frame i (cc_client_instance (rv_caller request)) frame = Inr response"
    and "check_volume (expect_volume request) response = Inr response'"
  shows "\<exists>r. response' = ReadVolumeResponse i r \<and> volume_response_spec r
    \<and> vr_journal_id r = rv_journal_id request \<and> vr_requested_end_usn r = rv_end_usn request
    \<and> vr_max_records r = rv_max_records request \<and> vr_max_evidence_bytes r = rv_max_evidence_bytes request
    \<and> map so_binding (vr_outcomes r) = map (\<lambda>s. binding_from_request (rv_caller request) (sr_root s)) (rv_roots request)
    \<and> map so_requested_start_usn (vr_outcomes r) = map sr_start_usn (rv_roots request)
    \<and> carries_sound request (vr_handoffs r)"
proof -
  from assms(2) obtain j r s where r: "response = ReadVolumeResponse j r" "response' = response"
    and f: "vr_client_instance r = cc_client_instance (rv_caller request)" "vr_journal_id r = rv_journal_id request"
      "vr_requested_end_usn r = rv_end_usn request" "vr_max_records r = rv_max_records request"
      "vr_max_evidence_bytes r = rv_max_evidence_bytes request" "length (vr_outcomes r) = length (rv_roots request)"
    and out: "check_outcomes (vr_client_instance r) (zip (vr_outcomes r) (pv_expected_roots (expect_volume request))) = Inr ()"
    and hs: "fold_result (check_handoff (expect_volume request) (vr_client_instance r) (vr_outcomes r)) (vr_handoffs r) {} = Inr s"
    by (cases response) (auto simp: bind_result_eq_Inr expect_volume_def split: if_splits)
  from receive_frame_InrD [OF assms(1)] r obtain p where
    p: "decode_response p = Inr (ReadVolumeResponse j r)" and j: "j = i" by auto
  from decode_response_sound [OF p] have "volume_response_spec r"
    by (auto simp: validate_response_def validate_read_volume_response_iff split: if_splits)
  moreover have "map so_binding (vr_outcomes r) = map (\<lambda>s. binding_from_request (rv_caller request) (sr_root s)) (rv_roots request)
    \<and> map so_requested_start_usn (vr_outcomes r) = map sr_start_usn (rv_roots request)"
    by (rule check_outcomes_InrD) (use out f in \<open>simp_all add: expect_volume_def\<close>)
  ultimately show ?thesis using r j f check_handoffs_InrD [OF hs [unfolded f(1)]] by auto
qed

theorem client_accepts_only_its_read_witness:
  "\<exists>frame r. receive_frame 9 (replicate 16 3) frame = Inr (ReadVolumeResponse 9 r)
    \<and> check_volume (expect_volume example_volume_request) (ReadVolumeResponse 9 r) = Inr (ReadVolumeResponse 9 r)
    \<and> volume_response_spec r \<and> carries_sound example_volume_request (vr_handoffs r)"
proof -
  obtain frame where got: "receive_frame 9 (replicate 16 3) frame = Inr (ReadVolumeResponse 9 example_volume_answer)"
    using example_answered(1) by blast
  with client_accepts_only_its_read [OF _ example_answered(2), of 9 frame]
  have "volume_response_spec example_volume_answer" "carries_sound example_volume_request (vr_handoffs example_volume_answer)"
    by (auto simp: example_client_instance)
  with got example_answered(2) show ?thesis by blast
qed

end
