(* ===== verification/Client_Session.thy ===== *)
theory Client_Session
  imports Client_Runs Client_Progress Client_Properties
begin

text \<open>
  A session of the client: a read begun and waited for, and the example sessions in which the
  properties of the client apply.
\<close>

section \<open>A scripted transport\<close>

text \<open>A transport that takes every frame and answers with the frames of a script.\<close>

definition scripted :: "(bytes list, unit) client_host" where
  "scripted = \<lparr>ch_interfere = \<lambda>w. w,
     ch_try_send_frame = \<lambda>_ script. (script, AdapterPolled (Ready ())),
     ch_poll_response = \<lambda>_ script. (case script of
         frame # rest \<Rightarrow> (rest, AdapterPolled (Ready frame)) | [] \<Rightarrow> ([], AdapterPolled Pending)),
     ch_try_discard = \<lambda>_ script. (script, AdapterPolled (Ready ())),
     ch_begin_abandon = \<lambda>_ _ _ script. (script, AdapterPolled (Ready ())),
     ch_poll_abandon = \<lambda>_ script. (script, AdapterPolled (Ready ())),
     ch_begin_close = \<lambda>script. (script, AdapterPolled (Ready ())),
     ch_poll_close = \<lambda>script. (script, AdapterPolled (Ready ())),
     ch_requests_poisoned = \<lambda>_. False, ch_cleanup_poisoned = \<lambda>_. False,
     ch_requests_free = \<lambda>_. True, ch_gate_free = \<lambda>_. True, ch_drain_order = \<lambda>xs. xs\<rparr>"

lemma scripted_cooperates: "cooperates scripted"
  by (simp add: cooperates_def scripted_def)

definition example_client_connection :: "bytes list \<Rightarrow> bytes list owned_broker_connection" where
  "example_client_connection script = \<lparr>oc_transport = script, oc_connection_id = replicate 16 1,
     oc_connection_generation = 1, oc_connection_nonce = 1\<rparr>"

text \<open>A client whose next request is the ninth.\<close>

definition example_client :: "bytes list \<Rightarrow> (bytes list, unit) client_world" where
  "example_client script = (let w = client_new (example_client_connection script) 0 () in
     w\<lparr>cw_dispatcher := (cw_dispatcher w)\<lparr>cd_next_request_id := 9\<rparr>\<rparr>)"

lemma scripted_simps:
  "ch_interfere scripted = (\<lambda>w. w)" "ch_drain_order scripted xs = xs"
  "ch_try_send_frame scripted frame script = (script, AdapterPolled (Ready ()))"
  "ch_poll_response scripted i (frame # rest) = (rest, AdapterPolled (Ready frame))"
  "ch_try_discard scripted i script = (script, AdapterPolled (Ready ()))"
  "ch_requests_poisoned scripted w = False" "ch_cleanup_poisoned scripted w = False"
  by (simp_all add: scripted_def)

lemmas session_access = access_def load_def store_def lifecycle_exchange_def close_state_exchange_def
  deadline_after_def before_deadline_def entry_epoch_def entry_class_def lifecycle_of_def entry_of_def
  bind_proc_apply try_proc_def return_proc_def map_proc_def or_proc_def scripted_simps

lemma scripted_maintenance:
  assumes "\<not> cd_poison_requested (cw_dispatcher w)" and "cd_requests (cw_dispatcher w) = []"
    and "cd_cleanup_queue (cw_dispatcher w) = []" and "cw_now w = 0"
  shows "maintain_before_operation scripted w = Some (w, Inr ())"
proof -
  obtain n where steps: "MAINTENANCE_STEPS_PER_OPERATION = Suc n"
    by (simp add: MAINTENANCE_STEPS_PER_OPERATION_def MAX_BUSINESS_REQUESTS_PER_CLIENT_def)
  have "maintenance_loop scripted 250000000 MAINTENANCE_STEPS_PER_OPERATION 0 w = Some (w, Inr 0)"
    unfolding steps using assms
    by (simp add: sweep_terminal_entries_def session_access try_recv_cleanup_def)
  with assms show ?thesis
    by (simp add: maintain_before_operation_def poll_maintenance_def apply_deferred_poison_and_sweep_def
      apply_requested_poison_def sweep_terminal_entries_def TRANSPORT_POLL_TIMEOUT_def session_access)
qed

text \<open>The parts of an operation on a client that is open and has nothing else to do.\<close>

definition quiet :: "u64 \<Rightarrow> (bytes list, unit) client_world \<Rightarrow> bool" where
  "quiet epoch w \<longleftrightarrow> \<not> cd_poison_requested (cw_dispatcher w) \<and> \<not> cd_transport_poisoned (cw_dispatcher w)
     \<and> cd_operation_epoch (cw_dispatcher w) = epoch \<and> cw_now w = 0"

lemma scripted_step:
  assumes "quiet epoch w" and "step (cw_transport w) = (t, AdapterPolled polled)"
  shows "transport_step scripted epoch step w = Some (w\<lparr>cw_transport := t\<rparr>, Inr polled)"
  using assms by (simp add: transport_step_def unusable_def superseded_def quiet_def session_access)

lemma scripted_send:
  assumes "quiet epoch w" and "request_frame request = Inr frame"
  shows "send_request scripted request epoch w = Some (w, Inr ())"
proof -
  have "w\<lparr>cw_transport := cw_transport w\<rparr> = w" by simp
  with assms scripted_step [OF assms(1), of "ch_try_send_frame scripted frame" "cw_transport w" "Ready ()"]
  show ?thesis
    by (simp add: send_request_def send_frame.simps [of scripted] TRANSPORT_POLL_TIMEOUT_def session_access quiet_def)
qed

lemma scripted_receive:
  assumes "quiet epoch w" and "cw_transport w = frame # rest" and "timeout < 2 ^ 64"
  shows "receive_response scripted i timeout client epoch w
    = Some (w\<lparr>cw_transport := rest\<rparr>, receive_frame i client frame)"
  using assms(1,3) scripted_step [OF assms(1), of "ch_poll_response scripted i" rest "Ready frame"] assms(2)
  by (simp add: receive_response_def await_frame.simps [of scripted] session_access quiet_def)

lemma scripted_finish:
  assumes "quiet (re_epoch (cw_entries w ! r)) w" and "lifecycle_of w r \<noteq> TERMINAL" and "r < length (cw_entries w)"
  shows "\<exists>w'. finish_result scripted i r outcome w = Some (w', outcome)"
proof -
  show ?thesis
    using assms
    by (simp add: finish_result_def finish_client_request_def apply_requested_poison_def superseded_def quiet_def
      terminate_entry.simps [of scripted] retire_registry_only_def retire_capacity_def claim_retirement_def
      release_capacity_def remove_request_entry_def set_class_count_def transport_step_def unusable_def session_access
      split: request_class.split)
qed

section \<open>An example session\<close>

definition example_pending_volume :: "pending_read_volume pending_read" where
  "example_pending_volume = \<lparr>pd_cancel_handle = \<lparr>ph_dispatcher = 0, ph_target_request_id = 9,
       ph_client_instance = cc_client_instance (rv_caller example_volume_request), ph_entry = 0\<rparr>,
     pd_expected = expect_volume example_volume_request,
     pd_timeout = timeout_of (rv_timeout_ms example_volume_request), pd_caller = rv_caller example_volume_request,
     pd_is_armed = True\<rparr>"

text \<open>The client while its read is active.\<close>

definition example_reading :: "bytes list \<Rightarrow> (bytes list, unit) client_world" where
  "example_reading script = (let w = client_new (example_client_connection script) 0 () in
     w\<lparr>cw_dispatcher := (cw_dispatcher w)\<lparr>cd_next_request_id := 10, cd_business_count := 1, cd_requests := [(9, 0)]\<rparr>,
       cw_entries := [\<lparr>re_lifecycle = ACTIVE_READ, re_class = Business, re_is_registered = True, re_epoch = 1\<rparr>]\<rparr>)"

lemma example_register:
  "register_awaiting scripted Business (example_client script)
    = Some ((example_reading script)\<lparr>cw_entries := [\<lparr>re_lifecycle = AWAITING_RESPONSE, re_class = Business,
        re_is_registered = True, re_epoch = 1\<rparr>]\<rparr>, Inr (9, 0))"
  by (simp add: register_awaiting_def register_request_def example_client_def example_reading_def client_new_def
      dispatcher_new_def reserve_capacity_def class_count_def class_limit_def set_class_count_def
      MAX_BUSINESS_REQUESTS_PER_CLIENT_def take_request_id_def insert_entry_def transition_def
      example_client_connection_def session_access)

definition example_accepted_answer :: broker_response where
  "example_accepted_answer = ReadVolumeAccepted 9
     \<lparr>va_client_instance = cc_client_instance (rv_caller example_volume_request),
      va_volume_id = ra_volume_id (sr_root (hd (rv_roots example_volume_request))),
      va_journal_id = rv_journal_id example_volume_request,
      va_requested_start_usn = the (minimum_start_usn example_volume_request),
      va_requested_end_usn = rv_end_usn example_volume_request,
      va_root_count = of_nat (length (rv_roots example_volume_request)),
      va_max_records = rv_max_records example_volume_request,
      va_max_evidence_bytes = rv_max_evidence_bytes example_volume_request\<rparr>"

lemma example_acceptance:
  "\<exists>frame. receive_frame 9 (replicate 16 3) frame = Inr example_accepted_answer"
proof -
  have "wf_response example_accepted_answer" "validate_response example_accepted_answer = Inr ()"
    "length (wire_response example_accepted_answer) \<le> MAX_FRAME_BYTES" by code_simp+
  then have "delivered example_accepted_answer" by (intro deliveredI) (simp_all add: example_accepted_answer_def)
  then obtain frame where "encode_response_frame example_accepted_answer = Inr frame" by (auto simp: delivered_def)
  with \<open>delivered example_accepted_answer\<close> receive_answer [of 9 example_accepted_answer frame] show ?thesis
    by (auto simp: answers_def example_accepted_answer_def)
qed

lemma example_volume_frame: "\<exists>frame. request_frame (ReadVolume 9 example_volume_request) = Inr frame"
proof -
  let ?q = "ReadVolume 9 example_volume_request"
  have "ok_request ?q" "validate_request ?q = Inr ()"
    using example_received(1) ok_request_if_valid unfolding received_def by blast+
  then have "encode_request ?q = Inr (wire_request ?q)" by (simp add: encode_request_ok)
  moreover have "wire_request ?q \<noteq> []" "length (wire_request ?q) \<le> MAX_FRAME_BYTES" by code_simp+
  then have "\<exists>frame. encode_frame (wire_request ?q) = Inr frame"
    by (simp del: wire_request.simps add: encode_frame_eq_Inr)
  ultimately show ?thesis by (auto simp: request_frame_def)
qed

lemma example_begin:
  assumes "receive_frame 9 (replicate 16 3) accepted = Inr example_accepted_answer"
  shows "begin_read_volume scripted 0 example_volume_request (example_client (accepted # script))
    = Some (example_reading script, Inr example_pending_volume)"
proof -
  let ?w = "\<lambda>script. (example_reading script)\<lparr>cw_entries := [\<lparr>re_lifecycle = AWAITING_RESPONSE, re_class = Business,
        re_is_registered = True, re_epoch = 1\<rparr>]\<rparr>"
  obtain frame where frame: "request_frame (ReadVolume 9 example_volume_request) = Inr frame"
    using example_volume_frame by blast
  have quiet: "quiet 1 (?w script)" for script
    by (simp add: quiet_def example_reading_def client_new_def dispatcher_new_def)
  have received: "receive_response scripted 9 (min SECOND (timeout_of (rv_timeout_ms example_volume_request)))
      (replicate 16 3) 1 (?w (accepted # script)) = Some (?w script, Inr example_accepted_answer)"
    using scripted_receive [OF quiet, of "accepted # script" accepted script
      "min SECOND (timeout_of (rv_timeout_ms example_volume_request))" 9 "replicate 16 3"] assms
    by (simp add: SECOND_def example_reading_def client_new_def dispatcher_new_def example_client_connection_def min_less_iff_disj)
  have activated: "activate_read scripted 0 (?w script) = Some (example_reading script, Inr ())"
    by (simp add: activate_read_def apply_requested_poison_def superseded_def example_reading_def client_new_def
        dispatcher_new_def session_access)
  have "check_volume_accepted example_volume_request example_accepted_answer = Inr ()"
    by (simp add: example_accepted_answer_def) code_simp
  moreover have "read_journal_volume_validate example_volume_request = Inr ()"
    using example_received(1) by (simp add: received_def)
  moreover have "maintain_before_operation scripted (example_client (accepted # script))
      = Some (example_client (accepted # script), Inr ())"
    by (rule scripted_maintenance) (simp_all add: example_client_def client_new_def dispatcher_new_def)
  moreover have "ensure_open scripted (example_client (accepted # script)) = Some (example_client (accepted # script), Inr ())"
    by (simp add: ensure_open_def load_def access_def scripted_simps example_client_def client_new_def dispatcher_new_def)
  ultimately show ?thesis
    using scripted_send [OF quiet frame, of "accepted # script"] received activated
    by (simp add: begin_read_volume_def begin_read_def try_proc_def bind_proc_apply return_proc_def example_register
        entry_epoch_def entry_of_def example_client_instance example_pending_volume_def)
qed

lemma example_wait:
  assumes "receive_frame 9 (replicate 16 3) answer = Inr (ReadVolumeResponse 9 example_volume_answer)"
  shows "\<exists>w. wait_volume scripted example_pending_volume (example_reading [answer])
    = Some (w, Inr (ReadVolumeResponse 9 example_volume_answer))"
proof -
  have "timeout_of (rv_timeout_ms example_volume_request) < 2 ^ 64" by code_simp
  moreover have quiet: "quiet 1 (example_reading script)" for script
    by (simp add: quiet_def example_reading_def client_new_def dispatcher_new_def)
  ultimately have "receive_response scripted 9 (timeout_of (rv_timeout_ms example_volume_request)) (replicate 16 3) 1
      (example_reading [answer]) = Some ((example_reading [answer])\<lparr>cw_transport := []\<rparr>,
        Inr (ReadVolumeResponse 9 example_volume_answer))"
    using scripted_receive [OF quiet, of "[answer]" answer "[]" _ 9 "replicate 16 3"] assms
    by (simp add: example_reading_def client_new_def example_client_connection_def)
  moreover have "\<exists>w. finish_result scripted 9 0 (Inr (ReadVolumeResponse 9 example_volume_answer))
      ((example_reading [answer])\<lparr>cw_transport := []\<rparr>) = Some (w, Inr (ReadVolumeResponse 9 example_volume_answer))"
    by (rule scripted_finish)
      (simp_all add: quiet_def example_reading_def client_new_def dispatcher_new_def lifecycle_of_def entry_of_def
        lifecycle_states)
  moreover have "re_epoch (entry_of (example_reading [answer]) 0) = 1" by (simp add: example_reading_def entry_of_def Let_def)
  ultimately show ?thesis
    by (simp add: wait_volume_def wait_read_def example_pending_volume_def entry_epoch_def bind_proc_apply
        example_client_instance conclude_request_def example_answered(2) Let_def del: check_volume.simps)
qed

section \<open>Results of reads\<close>

lemma check_volume_same: "check_volume self r = Inr r' \<Longrightarrow> r' = r"
  by (cases "(self, r)" rule: check_volume.cases) (auto simp: bind_result_eq_Inr split: if_splits)



section \<open>Sessions in which the properties apply\<close>

text \<open>Other threads that make requests of their own, up to the eighth.\<close>

definition busy :: "(bytes list, unit) client_host" where
  "busy = scripted\<lparr>ch_interfere := \<lambda>w. w\<lparr>cw_dispatcher := (cw_dispatcher w)
     \<lparr>cd_next_request_id := max 9 (cd_next_request_id (cw_dispatcher w))\<rparr>\<rparr>\<rparr>"

lemma busy_cooperates: "cooperates busy"
  by (simp add: cooperates_def busy_def scripted_def persists_def dispatcher_persists_def accounted_def refs_valid_def
      class_count_def split: request_class.split)

lemma ticking_cooperates: "cooperates (ticking scripted)"
  by (simp add: cooperates_def ticking_def scripted_def persists_def accounted_def refs_valid_def)

text \<open>A new client, other threads, and then a read that is begun.\<close>

theorem client_capacity_accounted_witness:
  "\<exists>accepted. client_step\<^sup>*\<^sup>* (client_new (example_client_connection [accepted]) 0 ()) (example_reading [])
    \<and> cd_business_count (cw_dispatcher (example_reading [])) = 1
    \<and> registered Business (cw_entries (example_reading [])) + cw_transit (example_reading []) Business = 1"
proof -
  obtain accepted where accepted: "receive_frame 9 (replicate 16 3) accepted = Inr example_accepted_answer"
    using example_acceptance by blast
  let ?new = "client_new (example_client_connection [accepted]) 0 ()"
  have "ch_interfere busy ?new = example_client [accepted]"
    by (simp add: busy_def example_client_def client_new_def dispatcher_new_def)
  then have "client_step ?new (example_client [accepted])"
    using client_step.step_others [OF busy_cooperates, of ?new] by simp
  moreover have "client_step (example_client [accepted]) (example_reading [])"
    by (rule client_step.step_begin_volume [OF scripted_cooperates example_begin [OF accepted]])
  ultimately have run: "client_step\<^sup>*\<^sup>* ?new (example_reading [])"
    by (rule rtranclp.rtrancl_into_rtrancl [OF r_into_rtranclp])
  have "cd_business_count (cw_dispatcher (example_reading [])) = 1"
    by (simp add: example_reading_def Let_def)
  with client_capacity_accounted [OF run] run show ?thesis by auto
qed

theorem request_ends_once_witness:
  "\<exists>w1 w3. finish_result scripted 9 0 (Inr True) (example_reading []) = Some (w1, Inr True)
    \<and> finish_result (ticking scripted) 9 0 (Inr False) w1 = Some (w3, Inl Closed)"
proof -
  have entries: "0 < length (cw_entries (example_reading []))" by (simp add: example_reading_def Let_def)
  obtain w1 where first: "finish_result scripted 9 0 (Inr True :: (broker_client_error, bool) result) (example_reading [])
      = Some (w1, Inr True)"
    using scripted_finish [of "example_reading []" 0 9 "Inr True"]
    by (auto simp: quiet_def example_reading_def client_new_def dispatcher_new_def lifecycle_of_def entry_of_def lifecycle_states)
  obtain w3 outcome where later: "finish_result (ticking scripted) 9 0 (Inr False :: (broker_client_error, bool) result) w1
      = Some (w3, outcome)"
    using ticking.finish_returns(2) [of scripted 9 0 "Inr False"] unfolding returns_def by fastforce
  from request_ends_once [OF scripted_cooperates ticking_cooperates entries first _ later] first later
  show ?thesis by auto
qed

theorem closed_client_refuses_witness:
  "\<exists>w error. begin_read_volume (ticking scripted) 0 example_volume_request
      ((example_client [])\<lparr>cw_dispatcher := (cw_dispatcher (example_client []))\<lparr>cd_admission_closed := True\<rparr>\<rparr>)
    = Some (w, Inl error)"
proof -
  let ?w = "(example_client [])\<lparr>cw_dispatcher := (cw_dispatcher (example_client []))\<lparr>cd_admission_closed := True\<rparr>\<rparr>"
  have "refused (begin_read_volume (ticking scripted) 0 example_volume_request ?w)"
    by (intro closed_client_refuses [of ?w ?w, THEN conjunct2, THEN conjunct2, THEN conjunct2, THEN conjunct1]
        ticking_cooperates) simp_all
  moreover obtain w outcome where "begin_read_volume (ticking scripted) 0 example_volume_request ?w = Some (w, outcome)"
    using ticking.operations_return(5) [of scripted 0 example_volume_request] unfolding returns_def by fastforce
  ultimately show ?thesis unfolding refused_def by blast
qed

theorem client_operations_return_witness:
  "steady (ticking scripted)
    \<and> (\<exists>w outcome. begin_read_volume (ticking scripted) 0 example_volume_request (example_client []) = Some (w, outcome))"
  using client_operations_return [OF ticking_steady [of scripted], where dispatcher = 0
      and volume_request = example_volume_request and abandoned = example_pending_volume and dropped = example_pending_volume]
    ticking_steady [of scripted]
  unfolding returns_def by fastforce

end
