(* ===== verification/Spec2Isabelle.thy ===== *)
theory Spec2Isabelle
  imports Registry_Refinement Client_Session
begin

text \<open>
  The journal broker of Cedarflake Ame.

  The program keeps the catalog of a photo library in step with the file system. On Windows it learns
  of changes from the USN change journal of a volume, which only a privileged service may read. This
  development is about that service, the \<^emph>\<open>journal broker\<close>, its client and the protocol between
  them (\<open>src/rust/src/journal_broker/\<close>): a client registers the roots of its library, asks for the
  changes between two positions (USNs) of the journal, for one root or for all roots of a volume, and
  gets back the changes below those roots, with proof of the interval they cover. Requests and
  responses are binary messages in length-prefixed frames on a named pipe.

  \<^bold>\<open>How the parts interact.\<close> The client builds a request, encodes and frames it, and polls its
  transport for the answer. The service decodes the frame, authenticates the caller through its
  authorizer, and answers at once, or accepts a read that is executed later; the registry of active
  requests follows every request from admission to its terminal, with cancellation, deadlines and
  disconnection at any moment. The execution of a read asks the journal backend for a page, places
  what it gets below the authorised roots, and answers with a response that its own codec validates
  before it is sent. The client validates it again, against what it asked for.

  \<^bold>\<open>Shared vocabulary.\<close> \<open>Ame_Prelude\<close>: machine integers are words of their width, a signed
  integer is a word read by \<^term>\<open>sint\<close>, a string is its UTF-8 bytes, a \<open>Result\<close> is a sum with the
  error on the left, \<open>?\<close> is \<open>bind_result\<close>, a method with a mutable receiver passes its state.
  \<open>Rust_Text\<close>: UTF-8 and UTF-16 as the standard library decodes and encodes them.

  \<^bold>\<open>Frames, intervals, paths.\<close> \<open>Broker_Framing\<close> models \<open>framing.rs\<close> and \<open>read_interval.rs\<close>, \<open>Windows_Path\<close>
  models \<open>wire/path.rs\<close> and \<open>windows/name.rs\<close>. Frames are self-delimiting and decode exactly when they
  were encoded; reading an interval page by page ends; a path placed below a root is a valid scope.
  The comparison of names is a parameter, for the operating system's \<open>CompareStringOrdinal\<close>.

  \<^bold>\<open>Messages and codec.\<close> \<open>Wire_Limits\<close> and \<open>Wire_Types\<close> model \<open>wire.rs\<close>, every message with its
  validator; \<open>Wire_Buffer\<close>, \<open>Request_Codec\<close>, \<open>Response_Validation\<close> and \<open>Response_Codec\<close> model
  \<open>wire/codec.rs\<close>, its writer, its reader and both directions. Both codecs are exact: a payload decodes
  to a message if and only if the message encodes to it (for responses, within the evidence limit
  that only the decoder checks). \<open>Volume_Response\<close> gives the specification of a volume response over
  its roots and shows that the validator, a chain of loops with state, accepts exactly that;
  \<open>Volume_Frames\<close> shows which responses fit a frame.

  \<^bold>\<open>Registry.\<close> \<open>Active_Registry\<close> models \<open>service/active.rs\<close> operation by operation, with an inductive
  step relation for everything threads may do to it. Every reachable registry keeps its limits, an
  accepted read is handed out once, a cancelled request never completes, a handle of an earlier
  connection is refused. \<open>Registry_Refinement\<close> shows that the registry implements a plain map from
  request keys to requests.

  \<^bold>\<open>Service.\<close> \<open>Service_Contracts\<close> models \<open>service/contracts.rs\<close>; \<open>Service_World\<close> the state a handler sees;
  \<open>Service_Translation\<close> the free functions of \<open>service.rs\<close> that place changes, moves and renames;
  \<open>Broker_Service\<close> its handlers, from frames to frames. The traits \<open>CallerAuthorizer\<close> and
  \<open>JournalBackend\<close>, the clock and the other threads are the fields of a host record, and they may
  change the registry between any two calls. \<open>Service_Reads\<close>, \<open>Volume_Outcomes\<close>, \<open>Volume_Moves\<close>,
  \<open>Volume_Barriers\<close> and \<open>Volume_Read\<close> carry the proof that a read is sound, \<open>Service_Answers\<close> that every
  frame is answered, \<open>Service_Steps\<close> that handlers reach the registry through its steps only;
  \<open>Service_Example\<close> evaluates a range read and a volume read on a concrete host;
  \<open>Service_Properties\<close> states what the service promises.

  \<^bold>\<open>Client.\<close> \<open>Broker_Client\<close> models the checks of \<open>client.rs\<close>, \<open>Client_Service\<close> and \<open>Client_Properties\<close> put
  client and service together: what the service sends passes the checks of the client, and what
  passes them is bound to the request, whoever sent it. \<open>Client_World\<close>, \<open>Client_Dispatcher\<close> and
  \<open>Client_Operations\<close> model the dispatcher that the threads of a client share, with its atomic
  fields, its table of requests, the polling of the transport, poisoning, closing and the queue of
  abandoned reads, up to the operations of a session. An operation is a function from worlds to an
  optional world and result; \<^term>\<open>None\<close> means that it does not return, and its loops are partial
  functions. Before every access to shared state the other threads run, as a parameter of the host;
  mutexes are not modelled, so more interleavings are allowed than the code has. \<open>Client_Rely\<close> and
  \<open>Client_Guarantee\<close> show that every operation keeps what the others rely on, \<open>Client_Runs\<close> draws the
  conclusions for all runs, \<open>Client_Progress\<close> shows that the operations return, \<open>Client_Session\<close> follows
  one read from its beginning to its result. The field \<open>cw_transit\<close> of the world is not in the code:
  it counts the slots that other threads hold between two accesses.

  \<^bold>\<open>Hypotheses.\<close> Theorems about the service name what they assume of the host: \<open>verifies_claims\<close> and
  \<open>issues_capabilities\<close> (the authorizer hands out the identity that was claimed and well-formed
  capabilities), \<open>filters_candidates\<close> (a filter removes candidates and adds none), \<open>reports_barriers\<close>
  (the backend gives every root that a move or an unfinished rename of a page touches a barrier at
  or before it, and ends a carried rename once). Each is met by the host of \<open>Service_Example\<close>.
  Theorems about the client name \<open>cooperates\<close> (other threads are threads of this client) and, for
  termination only, \<open>steady\<close> (the clock advances, and no other thread moves requests meanwhile).

  \<^bold>\<open>Bounds and termination.\<close> No definition has fuel. Loops over data are structural; the decoder
  consumes its input; the polling loops of the client end at their deadline, and its
  compare-and-exchange loops after at most two turns when no other thread interferes.

  \<^bold>\<open>Not modelled.\<close> The Windows host of the broker, its authorizer and its journal backend
  (\<open>windows.rs\<close>, \<open>windows/\<close>, \<open>service/windows_security.rs\<close>) call the operating system: pipes, tokens,
  handles, device control codes. They are the host and the transport of the model. Panics of the
  client inside a cleanup step, which the code catches, and poisoned mutexes other than those whose
  result the code inspects are left out, as is all test-only code. The SQLite catalog is SQL; the
  scan, the previews and the synchronization work on the file system and the catalog; classification
  runs an external model; the user interface is Flutter, and the bridge to it is generated.
\<close>

section \<open>Messages over the pipe\<close>

lemma frame_payload_fits: "encode_frame p = Inr f \<Longrightarrow> length p < 2 ^ 64"
  by (auto simp: encode_frame_eq_Inr MAX_FRAME_BYTES_def)

text \<open>
  C14. Requests cross the pipe unchanged: a frame received by the service decodes, through framing
  and codec, to a request exactly when it is the frame that the client builds for that request.
\<close>

theorem request_over_pipe:
  "(\<exists>p. decode_frame f = Inr p \<and> decode_request p = Inr r) \<longleftrightarrow>
   wf_request r \<and> (\<exists>p. encode_request r = Inr p \<and> encode_frame p = Inr f)"
  using decode_request_iff frame_payload_fits
  by (auto simp: decode_frame_iff_encode_frame fits_def)

text \<open>
  C15. Responses cross the pipe unchanged, in the same sense, when the evidence of a range response
  stays within the protocol's limit.
\<close>

theorem response_over_pipe:
  "(\<exists>p. decode_frame f = Inr p \<and> decode_response p = Inr r) \<longleftrightarrow>
   wf_response r \<and> range_evidence_bounded r
   \<and> (\<exists>p. encode_response r = Inr p \<and> encode_frame p = Inr f)"
  using decode_response_iff frame_payload_fits
  by (auto simp: decode_frame_iff_encode_frame fits_def)



end
